theory Spec2Isabelle
  imports Complex_Main
begin

section \<open>The ledger store\<close>

text \<open>
  The backend keeps all of its state in one relational store. Every table the
  money-movement routes read or write is a list of rows, in insertion order; a row is a
  record of the columns those routes use. Status columns are the strings of the source.
  Amounts are whole XAF. Timestamps (\<open>released_at\<close>, \<open>completed_at\<close>), chat messages,
  notifications and e-mail are outside the model.
\<close>

record invoice =
  inv_id :: nat
  inv_invoicenumber :: string
  inv_userid :: nat
  inv_amount :: int
  inv_status :: string

record user =
  usr_id :: nat
  usr_phone :: string
  usr_referred_by :: "nat option"
  usr_referral_balance :: int

record payment =
  pay_invoiceid :: nat
  pay_providerpaymentid :: string
  pay_status :: string

record confirmation_code =
  cc_code :: string
  cc_code_id :: nat
  cc_verification_token :: string
  cc_userid :: nat
  cc_is_used :: bool

record milestone =
  ms_id :: nat
  ms_invoice_id :: nat
  ms_invoice_number :: string
  ms_milestone_number :: nat
  ms_label :: string
  ms_amount :: int
  ms_status :: string
  ms_release_token :: "string option"

record payout =
  po_userid :: nat
  po_amount :: int
  po_method :: string
  po_status :: string
  po_invoice_id :: nat
  po_invoice_number :: string

record referral_earning =
  re_referrer_userid :: nat
  re_referred_userid :: nat
  re_invoice_number :: string
  re_invoice_amount :: int
  re_earned_amount :: int

record dispute =
  dp_invoicenumber :: string
  dp_admin_token :: string
  dp_status :: string

record guest =
  gs_invoicenumber :: string
  gs_email :: string
  gs_momo_number :: "string option"
  gs_chat_token :: "string option"

record chat =
  ch_invoiceid :: nat
  ch_invoicenumber :: string

record referral_withdrawal =
  rw_id :: nat
  rw_userid :: nat
  rw_amount :: int
  rw_momo_number :: string
  rw_status :: string

text \<open>
  A request sent to the payment rail's \<open>withdraw/\<close> endpoint. The world keeps every
  request that was sent, whether the rail accepted it or not.
\<close>

record transfer =
  tr_amount :: int
  tr_to :: string
  tr_external_reference :: string

record world =
  invoices :: "invoice list"
  users :: "user list"
  payments :: "payment list"
  confirmation_codes :: "confirmation_code list"
  invoice_milestones :: "milestone list"
  payouts :: "payout list"
  referral_earnings :: "referral_earning list"
  processed_payments :: "string list"
  disputes :: "dispute list"
  guests :: "guest list"
  chats :: "chat list"
  referral_withdrawals :: "referral_withdrawal list"
  withdraw_calls :: "transfer list"

text \<open>
  What the payment rail answers to one request: \<open>auth_ok\<close> for \<open>token/\<close>,
  \<open>withdraw_ok\<close> for \<open>withdraw/\<close>. A failed call throws in the source.
\<close>

record gateway =
  auth_ok :: bool
  withdraw_ok :: bool

subsection \<open>Numbers in template strings\<close>

fun show_nat :: "nat \<Rightarrow> string" where
  "show_nat n =
     (if n < 10 then [''0123456789'' ! n]
      else show_nat (n div 10) @ [''0123456789'' ! (n mod 10)])"

declare show_nat.simps [simp del]

definition show_int :: "int \<Rightarrow> string" where
  "show_int i = (if i < 0 then ''-'' @ show_nat (nat (- i)) else show_nat (nat i))"

text \<open>\<open>toLocaleString()\<close> of a whole number in the default locale: digits in groups of three.\<close>

fun group3 :: "string \<Rightarrow> string" where
  "group3 (a # b # c # d # ds) = a # b # c # CHR '','' # group3 (d # ds)"
| "group3 ds = ds"

definition to_locale_string :: "int \<Rightarrow> string" where
  "to_locale_string i =
     (if i < 0 then ''-'' @ rev (group3 (rev (show_nat (nat (- i)))))
      else rev (group3 (rev (show_nat (nat i)))))"

section \<open>Fee split\<close>

text \<open>
  \<open>executePayout\<close>, \<open>executePayoutLink\<close>, the milestone release route and the
  dispute route's seller branch each compute the same four numbers from the gross amount
  and the presence of a referrer. The source multiplies JavaScript numbers; the model
  multiplies exactly. (Both rates, as doubles, lie just above their decimal values, so on
  whole amounts the rounded product is never below the exact one and the floors agree.)
\<close>

definition PLATFORM_FEE_RATE :: real where
  "PLATFORM_FEE_RATE = 0.015"

definition REFERRAL_FEE_RATE :: real where
  "REFERRAL_FEE_RATE = 0.005"

definition TOTAL_FEE_RATE :: real where
  "TOTAL_FEE_RATE = 0.02"

record fees =
  totalFee :: int
  referralEarning :: int
  fonlokNet :: int
  sellerReceives :: int

definition compute_fees :: "int \<Rightarrow> bool \<Rightarrow> fees" where
  "compute_fees grossAmount hasReferral =
     (let totalFee = \<lfloor>of_int grossAmount * TOTAL_FEE_RATE\<rfloor>;
          referralEarning =
            (if hasReferral then \<lfloor>of_int grossAmount * REFERRAL_FEE_RATE\<rfloor> else 0);
          fonlokNet = totalFee - referralEarning;
          sellerReceives = grossAmount - totalFee
      in \<lparr>totalFee = totalFee, referralEarning = referralEarning,
          fonlokNet = fonlokNet, sellerReceives = sellerReceives\<rparr>)"

section \<open>Requests as interleaved steps\<close>

text \<open>
  The backend runs as several worker processes over one store, and every \<open>await\<close> of a
  handler is a point where another request may run. A request is therefore a small state
  machine: one step is one SQL statement (atomic in the store) or one call to the payment
  rail, together with the synchronous code up to the next \<open>await\<close>. A schedule names, step
  by step, which request moves and what the outside world answers to it.
\<close>

fun run ::
  "('e \<Rightarrow> 'p \<Rightarrow> world \<Rightarrow> 'p \<times> world) \<Rightarrow> (nat \<times> 'e) list \<Rightarrow> 'p list \<times> world \<Rightarrow> 'p list \<times> world"
where
  "run step [] cfg = cfg"
| "run step ((j, e) # sch) (ps, w) =
     (if j < length ps
      then (case step e (ps ! j) w of (p', w') \<Rightarrow> run step sch (ps[j := p'], w'))
      else run step sch (ps, w))"

text \<open>One request alone, for \<open>n\<close> steps, with the same answer from outside at each.\<close>

fun exec :: "('e \<Rightarrow> 'p \<Rightarrow> world \<Rightarrow> 'p \<times> world) \<Rightarrow> 'e \<Rightarrow> nat \<Rightarrow> 'p \<times> world \<Rightarrow> 'p \<times> world"
where
  "exec step e 0 cfg = cfg"
| "exec step e (Suc n) (p, w) = exec step e n (step e p w)"

section \<open>Referral credit\<close>

text \<open>
  The block that ends each seller payout: \<open>INSERT INTO referral_earnings ... ON CONFLICT
  (invoice_number) DO NOTHING RETURNING id\<close>, then \<open>UPDATE users SET referral_balance =
  referral_balance + $1 WHERE id = $2\<close> only if the insert returned a row.

  Two declarations of the schema can make these statements raise. \<open>referral_earnings\<close>
  references \<open>users (id)\<close> from \<open>referrer_userid\<close> and from \<open>referred_userid\<close>, and
  \<open>users.referral_balance\<close> is an \<open>INTEGER\<close>. A statement that raises writes nothing. The
  block sits in a \<open>try\<close> whose \<open>catch\<close> logs the error and lets the payout go on.
\<close>

datatype db_error = ForeignKeyViolation | IntegerOutOfRange

definition in_int4 :: "int \<Rightarrow> bool" where
  "in_int4 x = (- 2147483648 \<le> x \<and> x \<le> 2147483647)"

record credit =
  cr_referrer_userid :: nat
  cr_referred_userid :: nat
  cr_invoice_number :: string
  cr_invoice_amount :: int
  cr_earned_amount :: int

definition insert_earning :: "credit \<Rightarrow> world \<Rightarrow> db_error + bool \<times> world" where
  "insert_earning c w =
     (if list_ex (\<lambda>r. re_invoice_number r = cr_invoice_number c) (referral_earnings w)
      then Inr (False, w)
      else if \<not> list_ex (\<lambda>u. usr_id u = cr_referrer_userid c) (users w)
              \<or> \<not> list_ex (\<lambda>u. usr_id u = cr_referred_userid c) (users w)
      then Inl ForeignKeyViolation
      else Inr (True,
                w\<lparr>referral_earnings := referral_earnings w @
                     [\<lparr>re_referrer_userid = cr_referrer_userid c,
                       re_referred_userid = cr_referred_userid c,
                       re_invoice_number = cr_invoice_number c,
                       re_invoice_amount = cr_invoice_amount c,
                       re_earned_amount = cr_earned_amount c\<rparr>]\<rparr>))"

definition credit_balance :: "credit \<Rightarrow> world \<Rightarrow> db_error + world" where
  "credit_balance c w =
     (if \<not> in_int4 (cr_earned_amount c)
         \<or> list_ex (\<lambda>u. usr_id u = cr_referrer_userid c
                          \<and> \<not> in_int4 (usr_referral_balance u + cr_earned_amount c)) (users w)
      then Inl IntegerOutOfRange
      else Inr (w\<lparr>users :=
                    map (\<lambda>u. if usr_id u = cr_referrer_userid c
                              then u\<lparr>usr_referral_balance :=
                                       usr_referral_balance u + cr_earned_amount c\<rparr>
                              else u) (users w)\<rparr>))"

datatype credit_state = CR_Insert | CR_Update | CR_Done

fun referral_credit_step :: "unit \<Rightarrow> credit \<times> credit_state \<Rightarrow> world \<Rightarrow> (credit \<times> credit_state) \<times> world"
where
  "referral_credit_step e (c, CR_Insert) w =
     (case insert_earning c w of
        Inl referralErr \<Rightarrow> ((c, CR_Done), w)
      | Inr (True, w') \<Rightarrow> ((c, CR_Update), w')
      | Inr (False, w') \<Rightarrow> ((c, CR_Done), w'))"
| "referral_credit_step e (c, CR_Update) w =
     (case credit_balance c w of
        Inl referralErr \<Rightarrow> ((c, CR_Done), w)
      | Inr w' \<Rightarrow> ((c, CR_Done), w'))"
| "referral_credit_step e (c, CR_Done) w = ((c, CR_Done), w)"

section \<open>Settlement by confirmation code or link\<close>

text \<open>
  \<open>executePayout (invoiceId)\<close> and \<open>executePayoutLink (invoiceId)\<close> have the same body,
  statement for statement. A request is the argument and the point it has reached; the
  locals it has read so far travel with the point.
\<close>

datatype payout_error =
    AlreadyProcessed
  | InvoiceNotFound
  | SellerAccountNotFound
  | TokenCallFailed
  | WithdrawCallFailed

record payout_locals =
  ep_invoiceRow :: invoice
  ep_invoiceUser :: user
  ep_referrerId :: "nat option"
  ep_fee :: fees

datatype payout_state =
    EP_Claim
  | EP_FetchInvoice
  | EP_FetchSeller invoice
  | EP_FetchReferrer invoice user
  | EP_Token payout_locals
  | EP_Withdraw payout_locals
  | EP_InsertPayout payout_locals
  | EP_MarkCompleted payout_locals
  | EP_InsertEarning credit
  | EP_CreditBalance credit
  | EP_Returned
  | EP_Thrown payout_error

definition claim_code :: "nat \<Rightarrow> world \<Rightarrow> confirmation_code list \<times> world" where
  "claim_code invoiceId w =
     (filter (\<lambda>c. cc_code_id c = invoiceId \<and> cc_is_used c = False) (confirmation_codes w),
      w\<lparr>confirmation_codes :=
           map (\<lambda>c. if cc_code_id c = invoiceId \<and> cc_is_used c = False
                     then c\<lparr>cc_is_used := True\<rparr> else c) (confirmation_codes w)\<rparr>)"

definition payout_credit :: "nat \<Rightarrow> payout_locals \<Rightarrow> credit" where
  "payout_credit referrer l =
     \<lparr>cr_referrer_userid = referrer,
      cr_referred_userid = inv_userid (ep_invoiceRow l),
      cr_invoice_number = inv_invoicenumber (ep_invoiceRow l),
      cr_invoice_amount = inv_amount (ep_invoiceRow l),
      cr_earned_amount = referralEarning (ep_fee l)\<rparr>"

fun payout_step :: "gateway \<Rightarrow> nat \<times> payout_state \<Rightarrow> world \<Rightarrow> (nat \<times> payout_state) \<times> world"
where
  "payout_step gw (invoiceId, EP_Claim) w =
     (case claim_code invoiceId w of
        (lockResult, w') \<Rightarrow>
          if length lockResult = 0 then ((invoiceId, EP_Thrown AlreadyProcessed), w')
          else ((invoiceId, EP_FetchInvoice), w'))"
| "payout_step gw (invoiceId, EP_FetchInvoice) w =
     (case find (\<lambda>r. inv_id r = invoiceId) (invoices w) of
        None \<Rightarrow> ((invoiceId, EP_Thrown InvoiceNotFound), w)
      | Some invoiceRow \<Rightarrow> ((invoiceId, EP_FetchSeller invoiceRow), w))"
| "payout_step gw (invoiceId, EP_FetchSeller invoiceRow) w =
     (case find (\<lambda>u. usr_id u = inv_userid invoiceRow) (users w) of
        None \<Rightarrow> ((invoiceId, EP_Thrown SellerAccountNotFound), w)
      | Some invoiceUser \<Rightarrow> ((invoiceId, EP_FetchReferrer invoiceRow invoiceUser), w))"
| "payout_step gw (invoiceId, EP_FetchReferrer invoiceRow invoiceUser) w =
     (let referrerId =
            (case find (\<lambda>u. usr_id u = inv_userid invoiceRow) (users w) of
               None \<Rightarrow> None
             | Some r \<Rightarrow> usr_referred_by r);
          hasReferral = (referrerId \<noteq> None)
      in ((invoiceId,
           EP_Token \<lparr>ep_invoiceRow = invoiceRow, ep_invoiceUser = invoiceUser,
                     ep_referrerId = referrerId,
                     ep_fee = compute_fees (inv_amount invoiceRow) hasReferral\<rparr>), w))"
| "payout_step gw (invoiceId, EP_Token l) w =
     (if auth_ok gw then ((invoiceId, EP_Withdraw l), w)
      else ((invoiceId, EP_Thrown TokenCallFailed), w))"
| "payout_step gw (invoiceId, EP_Withdraw l) w =
     (let w' = w\<lparr>withdraw_calls := withdraw_calls w @
                   [\<lparr>tr_amount = sellerReceives (ep_fee l),
                     tr_to = usr_phone (ep_invoiceUser l),
                     tr_external_reference = inv_invoicenumber (ep_invoiceRow l)\<rparr>]\<rparr>
      in if withdraw_ok gw then ((invoiceId, EP_InsertPayout l), w')
         else ((invoiceId, EP_Thrown WithdrawCallFailed), w'))"
| "payout_step gw (invoiceId, EP_InsertPayout l) w =
     ((invoiceId, EP_MarkCompleted l),
      w\<lparr>payouts := payouts w @
           [\<lparr>po_userid = inv_userid (ep_invoiceRow l),
             po_amount = sellerReceives (ep_fee l),
             po_method = ''Mobile Money'',
             po_status = ''paid'',
             po_invoice_id = invoiceId,
             po_invoice_number = inv_invoicenumber (ep_invoiceRow l)\<rparr>]\<rparr>)"
| "payout_step gw (invoiceId, EP_MarkCompleted l) w =
     ((invoiceId,
       (case ep_referrerId l of
          None \<Rightarrow> EP_Returned
        | Some referrer \<Rightarrow>
            if referralEarning (ep_fee l) > 0 then EP_InsertEarning (payout_credit referrer l)
            else EP_Returned)),
      w\<lparr>invoices := map (\<lambda>r. if inv_id r = invoiceId then r\<lparr>inv_status := ''completed''\<rparr> else r)
                          (invoices w)\<rparr>)"
| "payout_step gw (invoiceId, EP_InsertEarning c) w =
     (case insert_earning c w of
        Inl referralErr \<Rightarrow> ((invoiceId, EP_Returned), w)
      | Inr (True, w') \<Rightarrow> ((invoiceId, EP_CreditBalance c), w')
      | Inr (False, w') \<Rightarrow> ((invoiceId, EP_Returned), w'))"
| "payout_step gw (invoiceId, EP_CreditBalance c) w =
     (case credit_balance c w of
        Inl referralErr \<Rightarrow> ((invoiceId, EP_Returned), w)
      | Inr w' \<Rightarrow> ((invoiceId, EP_Returned), w'))"
| "payout_step gw (invoiceId, EP_Returned) w = ((invoiceId, EP_Returned), w)"
| "payout_step gw (invoiceId, EP_Thrown err) w = ((invoiceId, EP_Thrown err), w)"

text \<open>
  A call that runs alone goes through at most ten statements. The result is the point
  reached (\<open>EP_Returned\<close> for \<open>return true\<close>, \<open>EP_Thrown\<close> for a throw) and the new world.
\<close>

definition executePayout :: "gateway \<Rightarrow> nat \<Rightarrow> world \<Rightarrow> payout_state \<times> world" where
  "executePayout gw invoiceId w =
     (case exec payout_step gw 10 ((invoiceId, EP_Claim), w) of ((i, st), w') \<Rightarrow> (st, w'))"

definition executePayoutLink :: "gateway \<Rightarrow> nat \<Rightarrow> world \<Rightarrow> payout_state \<times> world" where
  "executePayoutLink gw invoiceId w =
     (case exec payout_step gw 10 ((invoiceId, EP_Claim), w) of ((i, st), w') \<Rightarrow> (st, w'))"

section \<open>Milestone release\<close>

text \<open>
  \<open>POST /release-milestone/:token\<close>. The request is the token of the link and the point
  reached. A finished request keeps the milestone row it had looked up, next to what it
  answered. HTML answers are given by their status and their text, without the markup.
\<close>

record response =
  http_status :: nat
  body :: string

datatype release_outcome =
    RO_InvalidLink
  | RO_AlreadyReleased
  | RO_NotReady
  | RO_InvoiceNotFound
  | RO_SellerNotFound
  | RO_LockLost
  | RO_TokenCallFailed
  | RO_WithdrawCallFailed
  | RO_Released nat

fun release_response :: "release_outcome \<Rightarrow> response" where
  "release_response RO_InvalidLink =
     \<lparr>http_status = 404,
      body = ''Invalid Link. This release link is invalid or has already been used.''\<rparr>"
| "release_response RO_AlreadyReleased =
     \<lparr>http_status = 400,
      body = ''Already Released. This milestone has already been paid out to the seller.''\<rparr>"
| "release_response RO_NotReady =
     \<lparr>http_status = 400,
      body = ''Not Ready. This milestone has not been marked as complete by the seller yet.''\<rparr>"
| "release_response RO_InvoiceNotFound = \<lparr>http_status = 404, body = ''Invoice not found.''\<rparr>"
| "release_response RO_SellerNotFound = \<lparr>http_status = 404, body = ''Seller not found.''\<rparr>"
| "release_response RO_LockLost =
     \<lparr>http_status = 400,
      body = ''Already Released. This milestone has already been paid out to the seller.''\<rparr>"
| "release_response RO_TokenCallFailed = \<lparr>http_status = 500, body = ''Something went wrong''\<rparr>"
| "release_response RO_WithdrawCallFailed = \<lparr>http_status = 500, body = ''Something went wrong''\<rparr>"
| "release_response (RO_Released remaining) = \<lparr>http_status = 200, body = ''Funds Released''\<rparr>"

record release_locals =
  mr_milestone :: milestone
  mr_invoice :: invoice
  mr_seller :: user
  mr_referrerIdMs :: "nat option"
  mr_fee :: fees

datatype release_state =
    MR_Find
  | MR_FetchInvoice milestone
  | MR_FetchSeller milestone invoice
  | MR_Lock milestone invoice user
  | MR_FetchReferrer milestone invoice user
  | MR_Token release_locals
  | MR_Withdraw release_locals
  | MR_InsertPayout release_locals
  | MR_InsertEarning release_locals credit
  | MR_CreditBalance release_locals credit
  | MR_CountRemaining release_locals
  | MR_MarkCompleted release_locals
  | MR_Sent "milestone option" release_outcome

definition lock_milestone :: "nat \<Rightarrow> world \<Rightarrow> milestone list \<times> world" where
  "lock_milestone milestoneId w =
     (filter (\<lambda>m. ms_id m = milestoneId \<and> ms_status m = ''completed'') (invoice_milestones w),
      w\<lparr>invoice_milestones :=
           map (\<lambda>m. if ms_id m = milestoneId \<and> ms_status m = ''completed''
                     then m\<lparr>ms_status := ''released'', ms_release_token := None\<rparr> else m)
               (invoice_milestones w)\<rparr>)"

definition release_credit :: "nat \<Rightarrow> release_locals \<Rightarrow> credit" where
  "release_credit referrer l =
     \<lparr>cr_referrer_userid = referrer,
      cr_referred_userid = inv_userid (mr_invoice l),
      cr_invoice_number =
        inv_invoicenumber (mr_invoice l) @ ''-ms'' @ show_nat (ms_id (mr_milestone l)),
      cr_invoice_amount = ms_amount (mr_milestone l),
      cr_earned_amount = referralEarning (mr_fee l)\<rparr>"

fun release_step :: "gateway \<Rightarrow> string \<times> release_state \<Rightarrow> world \<Rightarrow> (string \<times> release_state) \<times> world"
where
  "release_step gw (token, MR_Find) w =
     (case find (\<lambda>m. ms_release_token m = Some token) (invoice_milestones w) of
        None \<Rightarrow> ((token, MR_Sent None RO_InvalidLink), w)
      | Some milestone \<Rightarrow>
          if ms_status milestone = ''released''
          then ((token, MR_Sent (Some milestone) RO_AlreadyReleased), w)
          else if ms_status milestone \<noteq> ''completed''
          then ((token, MR_Sent (Some milestone) RO_NotReady), w)
          else ((token, MR_FetchInvoice milestone), w))"
| "release_step gw (token, MR_FetchInvoice milestone) w =
     (case find (\<lambda>r. inv_id r = ms_invoice_id milestone) (invoices w) of
        None \<Rightarrow> ((token, MR_Sent (Some milestone) RO_InvoiceNotFound), w)
      | Some invoice \<Rightarrow> ((token, MR_FetchSeller milestone invoice), w))"
| "release_step gw (token, MR_FetchSeller milestone invoice) w =
     (case find (\<lambda>u. usr_id u = inv_userid invoice) (users w) of
        None \<Rightarrow> ((token, MR_Sent (Some milestone) RO_SellerNotFound), w)
      | Some seller \<Rightarrow> ((token, MR_Lock milestone invoice seller), w))"
| "release_step gw (token, MR_Lock milestone invoice seller) w =
     (case lock_milestone (ms_id milestone) w of
        (milestoneLock, w') \<Rightarrow>
          if length milestoneLock = 0 then ((token, MR_Sent (Some milestone) RO_LockLost), w')
          else ((token, MR_FetchReferrer milestone invoice seller), w'))"
| "release_step gw (token, MR_FetchReferrer milestone invoice seller) w =
     (let referrerIdMs =
            (case find (\<lambda>u. usr_id u = inv_userid invoice) (users w) of
               None \<Rightarrow> None
             | Some r \<Rightarrow> usr_referred_by r);
          hasReferralMs = (referrerIdMs \<noteq> None)
      in ((token,
           MR_Token \<lparr>mr_milestone = milestone, mr_invoice = invoice, mr_seller = seller,
                     mr_referrerIdMs = referrerIdMs,
                     mr_fee = compute_fees (ms_amount milestone) hasReferralMs\<rparr>), w))"
| "release_step gw (token, MR_Token l) w =
     (if auth_ok gw then ((token, MR_Withdraw l), w)
      else ((token, MR_Sent (Some (mr_milestone l)) RO_TokenCallFailed), w))"
| "release_step gw (token, MR_Withdraw l) w =
     (let w' = w\<lparr>withdraw_calls := withdraw_calls w @
                   [\<lparr>tr_amount = sellerReceives (mr_fee l),
                     tr_to = usr_phone (mr_seller l),
                     tr_external_reference = ''milestone-'' @ show_nat (ms_id (mr_milestone l))\<rparr>]\<rparr>
      in if withdraw_ok gw then ((token, MR_InsertPayout l), w')
         else ((token, MR_Sent (Some (mr_milestone l)) RO_WithdrawCallFailed), w'))"
| "release_step gw (token, MR_InsertPayout l) w =
     ((token,
       (case mr_referrerIdMs l of
          None \<Rightarrow> MR_CountRemaining l
        | Some referrer \<Rightarrow>
            if referralEarning (mr_fee l) > 0 then MR_InsertEarning l (release_credit referrer l)
            else MR_CountRemaining l)),
      w\<lparr>payouts := payouts w @
           [\<lparr>po_userid = inv_userid (mr_invoice l),
             po_amount = sellerReceives (mr_fee l),
             po_method = ''Mobile Money'',
             po_status = ''paid'',
             po_invoice_id = inv_id (mr_invoice l),
             po_invoice_number = inv_invoicenumber (mr_invoice l)\<rparr>]\<rparr>)"
| "release_step gw (token, MR_InsertEarning l c) w =
     (case insert_earning c w of
        Inl referralErr \<Rightarrow> ((token, MR_CountRemaining l), w)
      | Inr (True, w') \<Rightarrow> ((token, MR_CreditBalance l c), w')
      | Inr (False, w') \<Rightarrow> ((token, MR_CountRemaining l), w'))"
| "release_step gw (token, MR_CreditBalance l c) w =
     (case credit_balance c w of
        Inl referralErr \<Rightarrow> ((token, MR_CountRemaining l), w)
      | Inr w' \<Rightarrow> ((token, MR_CountRemaining l), w'))"
| "release_step gw (token, MR_CountRemaining l) w =
     (let remaining =
            length (filter (\<lambda>m. ms_invoice_id m = ms_invoice_id (mr_milestone l)
                                \<and> ms_status m \<noteq> ''released'') (invoice_milestones w))
      in if remaining = 0 then ((token, MR_MarkCompleted l), w)
         else ((token, MR_Sent (Some (mr_milestone l)) (RO_Released remaining)), w))"
| "release_step gw (token, MR_MarkCompleted l) w =
     ((token, MR_Sent (Some (mr_milestone l)) (RO_Released 0)),
      w\<lparr>invoices := map (\<lambda>r. if inv_id r = ms_invoice_id (mr_milestone l)
                                then r\<lparr>inv_status := ''completed''\<rparr> else r) (invoices w)\<rparr>)"
| "release_step gw (token, MR_Sent milestone outcome) w = ((token, MR_Sent milestone outcome), w)"

text \<open>The route run alone: at most twelve statements, then the answer.\<close>

definition release_milestone_post :: "gateway \<Rightarrow> string \<Rightarrow> world \<Rightarrow> release_state \<times> world" where
  "release_milestone_post gw token w =
     (case exec release_step gw 12 ((token, MR_Find), w) of ((t, st), w') \<Rightarrow> (st, w'))"

text \<open>
  The shape shared by every claim-then-act handler. \<open>holds u p\<close>: request \<open>p\<close> has won the
  claim on unit \<open>u\<close>; \<open>free u w\<close>: unit \<open>u\<close> can still be claimed in \<open>w\<close>. A step either
  leaves both alone, or is the claim statement of a request that holds nothing: it wins
  exactly when its unit is free, and the unit is not free afterwards.
\<close>

definition claim_effect ::
  "('u \<Rightarrow> 'p \<Rightarrow> bool) \<Rightarrow> ('u \<Rightarrow> world \<Rightarrow> bool) \<Rightarrow> 'p \<Rightarrow> world \<Rightarrow> 'p \<Rightarrow> world \<Rightarrow> bool" where
  "claim_effect holds free p w p' w' =
     ((\<forall>k. free k w' = free k w) \<and> (\<forall>k. holds k p' = holds k p)
      \<or> (\<exists>u. (\<forall>k. \<not> holds k p) \<and> (\<forall>k. holds k p' = (k = u \<and> free u w))
              \<and> (\<forall>k. free k w' = (k \<noteq> u \<and> free k w))))"

definition unique_inv ::
  "('u \<Rightarrow> 'p \<Rightarrow> bool) \<Rightarrow> ('u \<Rightarrow> world \<Rightarrow> bool) \<Rightarrow> 'p list \<Rightarrow> world \<Rightarrow> bool" where
  "unique_inv holds free ps w =
     ((\<forall>k. length (filter (holds k) ps) \<le> 1) \<and> (\<forall>k. free k w \<longrightarrow> filter (holds k) ps = []))"

text \<open>
  Counting: \<open>m\<close> measures a table or the log of calls, \<open>c\<close> marks the requests that have
  added their row to it. A step keeps the two in line.
\<close>

definition counter_effect ::
  "(world \<Rightarrow> nat) \<Rightarrow> ('p \<Rightarrow> bool) \<Rightarrow> 'p \<Rightarrow> world \<Rightarrow> 'p \<Rightarrow> world \<Rightarrow> bool" where
  "counter_effect m c p w p' w' =
     (m w' + (if c p then 1 else 0) = m w + (if c p' then 1 else 0))"





definition unused_code :: "nat \<Rightarrow> world \<Rightarrow> bool" where
  "unused_code i w = list_ex (\<lambda>c. cc_code_id c = i \<and> cc_is_used c = False) (confirmation_codes w)"







definition completed_row :: "nat \<Rightarrow> world \<Rightarrow> bool" where
  "completed_row k w =
     list_ex (\<lambda>m. ms_id m = k \<and> ms_status m = ''completed'') (invoice_milestones w)"






section \<open>A sample store\<close>

text \<open>
  Seller 1, referred by user 2, has a paid invoice 7 with an unused confirmation code
  and an open dispute, an
  installment invoice 8 whose first milestone is completed and awaits release, and an
  invoice 9 whose payment the rail has not confirmed yet.
\<close>

definition gw_up :: gateway where
  "gw_up = \<lparr>auth_ok = True, withdraw_ok = True\<rparr>"

definition demo_world :: world where
  "demo_world =
     \<lparr>invoices = [\<lparr>inv_id = 7, inv_invoicenumber = ''INV-7'', inv_userid = 1,
                    inv_amount = 100000, inv_status = ''paid''\<rparr>,
                   \<lparr>inv_id = 8, inv_invoicenumber = ''INV-8'', inv_userid = 1,
                    inv_amount = 60000, inv_status = ''paid''\<rparr>,
                   \<lparr>inv_id = 9, inv_invoicenumber = ''INV-9'', inv_userid = 1,
                    inv_amount = 50000, inv_status = ''pending''\<rparr>],
      users = [\<lparr>usr_id = 1, usr_phone = ''237670000001'', usr_referred_by = Some 2,
                 usr_referral_balance = 0\<rparr>,
                \<lparr>usr_id = 2, usr_phone = ''237670000002'', usr_referred_by = None,
                 usr_referral_balance = 4000\<rparr>],
      payments = [\<lparr>pay_invoiceid = 7, pay_providerpaymentid = ''uuid-7'', pay_status = ''paid''\<rparr>,
                  \<lparr>pay_invoiceid = 9, pay_providerpaymentid = ''uuid-9'', pay_status = ''pending''\<rparr>],
      confirmation_codes = [\<lparr>cc_code = ''ABCD2345'', cc_code_id = 7,
                              cc_verification_token = ''tok7'', cc_userid = 1, cc_is_used = False\<rparr>],
      invoice_milestones =
        [\<lparr>ms_id = 1, ms_invoice_id = 8, ms_invoice_number = ''INV-8'', ms_milestone_number = 1,
          ms_label = ''Design'', ms_amount = 20000, ms_status = ''completed'',
          ms_release_token = Some ''rel1''\<rparr>,
         \<lparr>ms_id = 2, ms_invoice_id = 8, ms_invoice_number = ''INV-8'', ms_milestone_number = 2,
          ms_label = ''Build'', ms_amount = 40000, ms_status = ''pending'',
          ms_release_token = None\<rparr>],
      payouts = [],
      referral_earnings = [],
      processed_payments = [''uuid-7''],
      disputes = [\<lparr>dp_invoicenumber = ''INV-7'', dp_admin_token = ''adm7'', dp_status = ''open''\<rparr>],
      guests = [\<lparr>gs_invoicenumber = ''INV-7'', gs_email = ''buyer@example.com'',
                  gs_momo_number = Some ''237650000009'', gs_chat_token = None\<rparr>,
                 \<lparr>gs_invoicenumber = ''INV-9'', gs_email = ''buyer9@example.com'',
                  gs_momo_number = Some ''237650000010'', gs_chat_token = None\<rparr>],
      chats = [],
      referral_withdrawals = [],
      withdraw_calls = []\<rparr>"


definition release_many :: "(nat \<times> gateway) list \<Rightarrow> string list \<Rightarrow> world \<Rightarrow> (string \<times> release_state) list \<times> world" where
  "release_many sch tokens w = run release_step sch (map (\<lambda>t. (t, MR_Find)) tokens, w)"

text \<open>
  The credit block run alone, and run by \<open>n\<close> requests at once for the same earning
  (a retry, or the same payout triggered twice).
\<close>

definition credit_once :: "credit \<Rightarrow> world \<Rightarrow> world" where
  "credit_once c w = snd (exec referral_credit_step () 2 ((c, CR_Insert), w))"

definition credit_many :: "(nat \<times> unit) list \<Rightarrow> nat \<Rightarrow> credit \<Rightarrow> world \<Rightarrow> (credit \<times> credit_state) list \<times> world" where
  "credit_many sch n c w = run referral_credit_step sch (replicate n (c, CR_Insert), w)"

definition demo_credit :: credit where
  "demo_credit =
     \<lparr>cr_referrer_userid = 2, cr_referred_userid = 1, cr_invoice_number = ''INV-7'',
      cr_invoice_amount = 100000, cr_earned_amount = 500\<rparr>"

text \<open>The sample store with the referrer's balance at the largest value of its column.\<close>

definition limit_world :: world where
  "limit_world =
     demo_world\<lparr>users :=
       map (\<lambda>u. if usr_id u = 2 then u\<lparr>usr_referral_balance := 2147483647\<rparr> else u)
           (users demo_world)\<rparr>"

text \<open>The sample store with a seller whom nobody referred.\<close>

definition plain_world :: world where
  "plain_world =
     demo_world\<lparr>users :=
       map (\<lambda>u. if usr_id u = 1 then u\<lparr>usr_referred_by := None\<rparr> else u) (users demo_world)\<rparr>"

definition has_earning :: "credit \<Rightarrow> world \<Rightarrow> bool" where
  "has_earning c w = list_ex (\<lambda>r. re_invoice_number r = cr_invoice_number c) (referral_earnings w)"

definition earning_insertable :: "credit \<Rightarrow> world \<Rightarrow> bool" where
  "earning_insertable c w =
     (\<not> has_earning c w
      \<and> list_ex (\<lambda>u. usr_id u = cr_referrer_userid c) (users w)
      \<and> list_ex (\<lambda>u. usr_id u = cr_referred_userid c) (users w))"

definition credit_inv :: "credit \<Rightarrow> world \<Rightarrow> (credit \<times> credit_state) list \<Rightarrow> world \<Rightarrow> bool" where
  "credit_inv c w0 ps w =
     (list_all (\<lambda>p. fst p = c) ps
      \<and> (\<not> earning_insertable c w0 \<and> w = w0 \<and> filter (\<lambda>p. snd p = CR_Update) ps = []
          \<or> earning_insertable c w0 \<and> w = w0 \<and> list_all (\<lambda>p. snd p = CR_Insert) ps
          \<or> earning_insertable c w0 \<and> insert_earning c w0 = Inr (True, w)
              \<and> length (filter (\<lambda>p. snd p = CR_Update) ps) = 1
          \<or> earning_insertable c w0 \<and> w = credit_once c w0
              \<and> filter (\<lambda>p. snd p = CR_Update) ps = []))"

section \<open>Release routes\<close>

text \<open>
  \<open>POST /release-funds\<close> with body \<open>{code, invoiceNumber}\<close>: the seller hands in the
  buyer's code. JSON answers are given by their status and their message.
\<close>

definition release_funds :: "gateway \<Rightarrow> string \<Rightarrow> string \<Rightarrow> world \<Rightarrow> response \<times> world" where
  "release_funds gw code invoiceNumber w =
     (if code = [] \<or> invoiceNumber = []
      then (\<lparr>http_status = 400, body = ''Both code and invoice number are required.''\<rparr>, w)
      else
        case find (\<lambda>r. inv_invoicenumber r = invoiceNumber) (invoices w) of
          None \<Rightarrow>
            (\<lparr>http_status = 404, body = ''Invoice '' @ invoiceNumber @ '' does not exist.''\<rparr>, w)
        | Some invoice \<Rightarrow>
            if inv_status invoice = ''completed''
            then (\<lparr>http_status = 400,
                   body = ''Invoice '' @ invoiceNumber @ '' has already been paid out.''\<rparr>, w)
            else
              case find (\<lambda>p. pay_invoiceid p = inv_id invoice) (payments w) of
                None \<Rightarrow>
                  (\<lparr>http_status = 400,
                    body = ''Invoice '' @ invoiceNumber @ '' has not been paid yet.''\<rparr>, w)
              | Some payment \<Rightarrow>
                  if pay_status payment \<noteq> ''paid''
                  then (\<lparr>http_status = 400,
                         body = ''Invoice '' @ invoiceNumber @ '' has not been paid yet.''\<rparr>, w)
                  else
                    case find (\<lambda>c. cc_code_id c = inv_id invoice) (confirmation_codes w) of
                      None \<Rightarrow>
                        (\<lparr>http_status = 404,
                          body = ''No confirmation code found for this invoice.''\<rparr>, w)
                    | Some codeRow \<Rightarrow>
                        if cc_is_used codeRow
                        then (\<lparr>http_status = 400,
                               body = ''Invoice '' @ invoiceNumber @ '' has already been paid out.''\<rparr>, w)
                        else if cc_code codeRow \<noteq> code
                        then (\<lparr>http_status = 401,
                               body = ''The code you entered is incorrect. Please ask the buyer for their code.''\<rparr>, w)
                        else
                          case executePayout gw (inv_id invoice) w of
                            (EP_Returned, w') \<Rightarrow>
                              (\<lparr>http_status = 200,
                                body = ''Payout processed successfully. Funds are on their way to your Mobile Money account.''\<rparr>, w')
                          | (st, w') \<Rightarrow>
                              (\<lparr>http_status = 500,
                                body = ''An error occurred while processing your payout. Please try again or contact support.''\<rparr>, w'))"

text \<open>
  \<open>GET /verify-payout/:token/:id\<close> shows the confirmation page; \<open>POST\<close> to the same path
  releases the funds.
\<close>

definition verify_payout_get :: "string \<Rightarrow> string \<Rightarrow> world \<Rightarrow> response \<times> world" where
  "verify_payout_get token ident w =
     (case find (\<lambda>c. cc_verification_token c = token) (confirmation_codes w) of
        None \<Rightarrow> (\<lparr>http_status = 404, body = ''Invalid Link: This token does not exist.''\<rparr>, w)
      | Some tokenRow \<Rightarrow>
          if cc_is_used tokenRow
          then (\<lparr>http_status = 400, body = ''Link Expired: Payout already processed.''\<rparr>, w)
          else (\<lparr>http_status = 200, body = ''Release Funds to Seller?''\<rparr>, w))"

definition verify_payout_post :: "gateway \<Rightarrow> string \<Rightarrow> string \<Rightarrow> world \<Rightarrow> response \<times> world" where
  "verify_payout_post gw token ident w =
     (case find (\<lambda>c. cc_verification_token c = token) (confirmation_codes w) of
        None \<Rightarrow> (\<lparr>http_status = 404, body = ''Invalid Link: This token does not exist.''\<rparr>, w)
      | Some tokenRow \<Rightarrow>
          if cc_is_used tokenRow
          then (\<lparr>http_status = 400, body = ''Link Expired: Payout already processed.''\<rparr>, w)
          else if show_nat (cc_code_id tokenRow) \<noteq> ident
          then (\<lparr>http_status = 400, body = ''Invalid Request: Link parameters do not match.''\<rparr>, w)
          else
            case find (\<lambda>p. pay_invoiceid p = cc_code_id tokenRow) (payments w) of
              None \<Rightarrow>
                (\<lparr>http_status = 400,
                  body = ''Wait: The buyer hasn't completed the payment yet.''\<rparr>, w)
            | Some payment \<Rightarrow>
                if pay_status payment \<noteq> ''paid''
                then (\<lparr>http_status = 400,
                       body = ''Wait: The buyer hasn't completed the payment yet.''\<rparr>, w)
                else
                  case executePayoutLink gw (cc_code_id tokenRow) w of
                    (EP_Returned, w') \<Rightarrow>
                      (\<lparr>http_status = 200,
                        body = ''Success! Funds have been released to the seller.''\<rparr>, w')
                  | (st, w') \<Rightarrow>
                      (\<lparr>http_status = 500, body = ''System Error: Please contact support.''\<rparr>, w'))"

text \<open>\<open>GET /release-milestone/:token\<close> shows the confirmation page for a milestone.\<close>

definition release_milestone_get :: "string \<Rightarrow> world \<Rightarrow> response \<times> world" where
  "release_milestone_get token w =
     (case find (\<lambda>m. ms_release_token m = Some token) (invoice_milestones w) of
        None \<Rightarrow> (release_response RO_InvalidLink, w)
      | Some milestone \<Rightarrow>
          if ms_status milestone = ''released'' then (release_response RO_AlreadyReleased, w)
          else if ms_status milestone \<noteq> ''completed'' then (release_response RO_NotReady, w)
          else (\<lparr>http_status = 200, body = ''Release Milestone Payment?''\<rparr>, w))"

definition no_such_invoice :: "string \<Rightarrow> response" where
  "no_such_invoice invoiceNumber =
     \<lparr>http_status = 404, body = ''Invoice '' @ invoiceNumber @ '' does not exist.''\<rparr>"

definition wrong_code :: response where
  "wrong_code =
     \<lparr>http_status = 401,
      body = ''The code you entered is incorrect. Please ask the buyer for their code.''\<rparr>"

section \<open>Marking a milestone complete\<close>

text \<open>
  \<open>PATCH /milestone/:milestone_id/complete\<close>. The release token is 32 random bytes; the
  model takes it as an argument. The invoice row is only used when the e-mail is built,
  after the update: a missing row throws there and the route answers 500.
\<close>

definition milestone_complete :: "string \<Rightarrow> nat \<Rightarrow> world \<Rightarrow> response \<times> world" where
  "milestone_complete releaseToken milestone_id w =
     (case find (\<lambda>m. ms_id m = milestone_id) (invoice_milestones w) of
        None \<Rightarrow> (\<lparr>http_status = 404, body = ''Milestone not found.''\<rparr>, w)
      | Some milestone \<Rightarrow>
          if ms_status milestone \<noteq> ''pending''
          then (\<lparr>http_status = 400,
                 body = ''This milestone is already marked as '' @ [CHR 0x27]
                          @ ms_status milestone @ [CHR 0x27] @ ''.''\<rparr>, w)
          else if ms_milestone_number milestone > 1
                  \<and> filter (\<lambda>m. ms_invoice_id m = ms_invoice_id milestone
                                   \<and> ms_milestone_number m < ms_milestone_number milestone
                                   \<and> ms_status m \<noteq> ''released'') (invoice_milestones w) \<noteq> []
          then (\<lparr>http_status = 400,
                 body = ''Previous milestones must be released before marking this one complete.''\<rparr>, w)
          else
            case find (\<lambda>g. gs_invoicenumber g = ms_invoice_number milestone) (guests w) of
              None \<Rightarrow>
                (\<lparr>http_status = 400,
                  body = ''Buyer information not found. Has the buyer paid yet?''\<rparr>, w)
            | Some guest \<Rightarrow>
                let w' = w\<lparr>invoice_milestones :=
                             map (\<lambda>m. if ms_id m = milestone_id
                                       then m\<lparr>ms_status := ''completed'',
                                              ms_release_token := Some releaseToken\<rparr>
                                       else m) (invoice_milestones w)\<rparr>
                in case find (\<lambda>r. inv_id r = ms_invoice_id milestone) (invoices w) of
                     None \<Rightarrow>
                       (\<lparr>http_status = 500, body = ''Something went wrong. Please try again.''\<rparr>, w')
                   | Some invoice \<Rightarrow>
                       (\<lparr>http_status = 200,
                         body = ''Milestone '' @ show_nat (ms_milestone_number milestone)
                                  @ '' marked as complete. The buyer has been emailed a release link.''\<rparr>,
                        w'))"

text \<open>
  The milestones of one invoice numbered below \<open>n\<close> that are not yet released.
\<close>

definition unreleased_before :: "nat \<Rightarrow> nat \<Rightarrow> world \<Rightarrow> milestone list" where
  "unreleased_before invoice_id n w =
     filter (\<lambda>m. ms_invoice_id m = invoice_id \<and> ms_milestone_number m < n
                  \<and> ms_status m \<noteq> ''released'') (invoice_milestones w)"

text \<open>
  What the routes that write milestones keep true of the store. Milestones are inserted
  with their invoice, numbered \<open>i + 1\<close> in the order of the request, each with the id and
  the number of the invoice and the default status \<open>pending\<close>; \<open>id\<close> is the primary key
  and \<open>invoice_id\<close> references \<open>invoices (id)\<close>. Status \<open>completed\<close> is written only by the
  route above, after it has found the buyer's guest row, and \<open>released\<close> only by the release
  route, on a \<open>completed\<close> row. No statement of the source deletes from \<open>guests\<close> or
  changes the invoice number of a guest row or of a milestone; deleting an invoice removes
  its milestones with it (\<open>ON DELETE CASCADE\<close>).
\<close>

definition milestones_numbered :: "world \<Rightarrow> bool" where
  "milestones_numbered w =
     (distinct (map ms_id (invoice_milestones w))
      \<and> list_all (\<lambda>m. ms_milestone_number m > 1 \<longrightarrow>
                    list_ex (\<lambda>m'. ms_invoice_id m' = ms_invoice_id m
                                  \<and> ms_milestone_number m' < ms_milestone_number m)
                            (invoice_milestones w)) (invoice_milestones w)
      \<and> list_all (\<lambda>m. list_all (\<lambda>m'. ms_invoice_id m' = ms_invoice_id m
                                       \<longrightarrow> ms_invoice_number m' = ms_invoice_number m)
                             (invoice_milestones w)) (invoice_milestones w)
      \<and> list_all (\<lambda>m. list_ex (\<lambda>r. inv_id r = ms_invoice_id m) (invoices w))
                  (invoice_milestones w))"

definition buyers_known :: "world \<Rightarrow> bool" where
  "buyers_known w =
     list_all (\<lambda>m. ms_status m = ''completed'' \<or> ms_status m = ''released'' \<longrightarrow>
                   list_ex (\<lambda>g. gs_invoicenumber g = ms_invoice_number m) (guests w))
              (invoice_milestones w)"

definition milestone_store_ok :: "world \<Rightarrow> bool" where
  "milestone_store_ok w = (milestones_numbered w \<and> buyers_known w)"

text \<open>
  The sample store once the buyer of invoice 8 has paid, and that store after the buyer
  has released milestone 1 through the link.
\<close>

definition buyer_world :: world where
  "buyer_world =
     demo_world\<lparr>guests := guests demo_world @
       [\<lparr>gs_invoicenumber = ''INV-8'', gs_email = ''buyer8@example.com'',
         gs_momo_number = Some ''237650000008'', gs_chat_token = None\<rparr>]\<rparr>"

definition released_world :: world where
  "released_world = snd (release_milestone_post gw_up ''rel1'' buyer_world)"

section \<open>Processing a successful payment\<close>

text \<open>
  \<open>processSuccessfulPayment (paymentUUID)\<close>, called by the webhook and by the poll route.
  The random code, link token and chat token drawn at a step come from outside. The
  e-mails and the reads that only feed them are left out.
\<close>

record psp_random =
  rnd_code :: string
  rnd_verification_token :: string
  rnd_chat_token :: string

text \<open>
  The five \<open>return\<close> statements of the function, and the string each returns.
\<close>

datatype psp_exit = PX_AlreadyClaimed | PX_NoPayment | PX_HasCode | PX_NoInvoice | PX_Done

fun psp_result :: "psp_exit \<Rightarrow> string" where
  "psp_result PX_AlreadyClaimed = ''already_done''"
| "psp_result PX_NoPayment = ''no_payment''"
| "psp_result PX_HasCode = ''already_done''"
| "psp_result PX_NoInvoice = ''done''"
| "psp_result PX_Done = ''done''"

datatype psp_state =
    PP_Claim
  | PP_FindPayment
  | PP_CheckCode payment
  | PP_MarkPayment payment
  | PP_MarkInvoice payment
  | PP_FetchInvoice payment
  | PP_InsertCode payment invoice
  | PP_SetChatToken payment invoice
  | PP_InsertChat payment invoice
  | PP_Returned psp_exit

text \<open>
  Modelled from the spec: the declaration of \<open>confirmation_codes\<close>, with its unique
  constraint and the default of \<open>is_used\<close>, is not in the sources. The spec names the short
  code as what may collide on insert; a new row starts unused.
\<close>

definition code_collides :: "string \<Rightarrow> world \<Rightarrow> bool" where
  "code_collides code w = list_ex (\<lambda>c. cc_code c = code) (confirmation_codes w)"

fun psp_step :: "psp_random \<Rightarrow> string \<times> psp_state \<Rightarrow> world \<Rightarrow> (string \<times> psp_state) \<times> world"
where
  "psp_step e (paymentUUID, PP_Claim) w =
     (if paymentUUID \<in> set (processed_payments w)
      then ((paymentUUID, PP_Returned PX_AlreadyClaimed), w)
      else ((paymentUUID, PP_FindPayment),
            w\<lparr>processed_payments := processed_payments w @ [paymentUUID]\<rparr>))"
| "psp_step e (paymentUUID, PP_FindPayment) w =
     (case find (\<lambda>p. pay_providerpaymentid p = paymentUUID) (payments w) of
        None \<Rightarrow> ((paymentUUID, PP_Returned PX_NoPayment), w)
      | Some payment \<Rightarrow> ((paymentUUID, PP_CheckCode payment), w))"
| "psp_step e (paymentUUID, PP_CheckCode payment) w =
     (if filter (\<lambda>c. cc_code_id c = pay_invoiceid payment) (confirmation_codes w) \<noteq> []
      then ((paymentUUID, PP_Returned PX_HasCode), w)
      else ((paymentUUID, PP_MarkPayment payment), w))"
| "psp_step e (paymentUUID, PP_MarkPayment payment) w =
     ((paymentUUID, PP_MarkInvoice payment),
      w\<lparr>payments := map (\<lambda>p. if pay_providerpaymentid p = paymentUUID
                                then p\<lparr>pay_status := ''paid''\<rparr> else p) (payments w)\<rparr>)"
| "psp_step e (paymentUUID, PP_MarkInvoice payment) w =
     ((paymentUUID, PP_FetchInvoice payment),
      w\<lparr>invoices := map (\<lambda>r. if inv_id r = pay_invoiceid payment
                                then r\<lparr>inv_status := ''paid''\<rparr> else r) (invoices w)\<rparr>)"
| "psp_step e (paymentUUID, PP_FetchInvoice payment) w =
     (case find (\<lambda>r. inv_id r = pay_invoiceid payment) (invoices w) of
        None \<Rightarrow> ((paymentUUID, PP_Returned PX_NoInvoice), w)
      | Some invoice \<Rightarrow> ((paymentUUID, PP_InsertCode payment invoice), w))"
| "psp_step e (paymentUUID, PP_InsertCode payment invoice) w =
     (if code_collides (rnd_code e) w
      then ((paymentUUID, PP_InsertCode payment invoice), w)
      else ((paymentUUID, PP_SetChatToken payment invoice),
            w\<lparr>confirmation_codes := confirmation_codes w @
                 [\<lparr>cc_code = rnd_code e,
                   cc_code_id = pay_invoiceid payment,
                   cc_verification_token = rnd_verification_token e,
                   cc_userid = inv_userid invoice,
                   cc_is_used = False\<rparr>]\<rparr>))"
| "psp_step e (paymentUUID, PP_SetChatToken payment invoice) w =
     ((paymentUUID, PP_InsertChat payment invoice),
      w\<lparr>guests := map (\<lambda>g. if gs_invoicenumber g = inv_invoicenumber invoice
                              then g\<lparr>gs_chat_token := Some (rnd_chat_token e)\<rparr> else g) (guests w)\<rparr>)"
| "psp_step e (paymentUUID, PP_InsertChat payment invoice) w =
     ((paymentUUID, PP_Returned PX_Done),
      (if list_ex (\<lambda>c. ch_invoicenumber c = inv_invoicenumber invoice) (chats w) then w
       else w\<lparr>chats := chats w @
                 [\<lparr>ch_invoiceid = pay_invoiceid payment,
                   ch_invoicenumber = inv_invoicenumber invoice\<rparr>]\<rparr>))"
| "psp_step e (paymentUUID, PP_Returned result) w = ((paymentUUID, PP_Returned result), w)"

text \<open>
  The call run alone, with the code drawn once: nine statements when the code is new to
  the table. A call that has not returned by then is still redrawing its code.
\<close>

definition processSuccessfulPayment :: "psp_random \<Rightarrow> string \<Rightarrow> world \<Rightarrow> psp_state \<times> world" where
  "processSuccessfulPayment e paymentUUID w =
     (case exec psp_step e 9 ((paymentUUID, PP_Claim), w) of ((u, st), w') \<Rightarrow> (st, w'))"

text \<open>
  \<open>pp_claimed\<close>: the request's insert into \<open>processed_payments\<close> affected a row.
  \<open>pp_marked\<close>: it has run \<open>UPDATE invoices SET status = 'paid'\<close>. \<open>pp_minted\<close>: it has
  inserted its confirmation row. \<open>pp_holds u p\<close>: request \<open>p\<close> is for reference \<open>u\<close> and
  has claimed it.
\<close>

fun pp_claimed :: "psp_state \<Rightarrow> bool" where
  "pp_claimed PP_Claim = False"
| "pp_claimed (PP_Returned x) = (x \<noteq> PX_AlreadyClaimed)"
| "pp_claimed _ = True"

fun pp_marked :: "psp_state \<Rightarrow> bool" where
  "pp_marked (PP_FetchInvoice p) = True"
| "pp_marked (PP_InsertCode p i) = True"
| "pp_marked (PP_SetChatToken p i) = True"
| "pp_marked (PP_InsertChat p i) = True"
| "pp_marked (PP_Returned x) = (x = PX_NoInvoice \<or> x = PX_Done)"
| "pp_marked _ = False"

fun pp_minted :: "psp_state \<Rightarrow> bool" where
  "pp_minted (PP_SetChatToken p i) = True"
| "pp_minted (PP_InsertChat p i) = True"
| "pp_minted (PP_Returned x) = (x = PX_Done)"
| "pp_minted _ = False"

definition pp_holds :: "string \<Rightarrow> string \<times> psp_state \<Rightarrow> bool" where
  "pp_holds u p = (fst p = u \<and> pp_claimed (snd p))"

definition unprocessed :: "string \<Rightarrow> world \<Rightarrow> bool" where
  "unprocessed u w = (u \<notin> set (processed_payments w))"

definition process_many ::
  "(nat \<times> psp_random) list \<Rightarrow> string list \<Rightarrow> world \<Rightarrow> (string \<times> psp_state) list \<times> world" where
  "process_many sch uuids w = run psp_step sch (map (\<lambda>u. (u, PP_Claim)) uuids, w)"

definition psp_inv :: "world \<Rightarrow> (string \<times> psp_state) list \<Rightarrow> world \<Rightarrow> bool" where
  "psp_inv w0 ps w =
     (unique_inv pp_holds unprocessed ps w
      \<and> length (confirmation_codes w)
          = length (confirmation_codes w0) + length (filter (\<lambda>p. pp_minted (snd p)) ps))"

definition demo_random :: psp_random where
  "demo_random =
     \<lparr>rnd_code = ''QRST6789'', rnd_verification_token = ''tok9'', rnd_chat_token = ''chat9''\<rparr>"

section \<open>Dispute resolution\<close>

text \<open>
  \<open>POST /dispute/admin/:admin_token/resolve\<close> with body \<open>{decision}\<close>. The validator in
  front of the handler admits \<open>seller\<close> and \<open>buyer\<close> only. A request is the admin token, the
  decision and the point reached. The lookup of the chat and the system message posted to
  it are left out, as are the e-mails. An \<open>invoice\<close> or \<open>seller\<close> that the query did not
  find is \<open>undefined\<close> in the source; reading a field of it throws, and the handler's
  \<open>catch\<close> answers 500.
\<close>

datatype decision = Seller | Buyer

record seller_locals =
  ds_invoice :: invoice
  ds_seller :: user
  ds_referrerIdD :: "nat option"
  ds_fee :: fees

record buyer_locals =
  db_invoice :: invoice
  db_momo_number :: string
  db_fonlokFeeB :: int
  db_refundAmount :: int

datatype resolve_state =
    DR_Find
  | DR_FetchInvoice dispute
  | DR_S_Token "invoice option"
  | DR_S_FetchSeller invoice
  | DR_S_FetchReferrer invoice "user option"
  | DR_S_Withdraw seller_locals
  | DR_S_MarkInvoice seller_locals
  | DR_S_MarkDispute seller_locals
  | DR_S_InsertPayout seller_locals
  | DR_S_InsertEarning credit
  | DR_S_CreditBalance credit
  | DR_B_FetchGuest invoice
  | DR_B_Token buyer_locals
  | DR_B_Withdraw buyer_locals
  | DR_B_MarkInvoice buyer_locals
  | DR_B_MarkDispute buyer_locals
  | DR_B_InsertPayout buyer_locals
  | DR_Sent response

definition went_wrong :: response where
  "went_wrong = \<lparr>http_status = 500, body = ''Something went wrong. Please try again.''\<rparr>"

definition released_to_seller :: response where
  "released_to_seller =
     \<lparr>http_status = 200, body = ''Dispute resolved. Funds released to seller.''\<rparr>"

definition refunded_to_buyer :: "int \<Rightarrow> response" where
  "refunded_to_buyer refundAmount =
     \<lparr>http_status = 200,
      body = ''Dispute resolved. Refund of '' @ show_int refundAmount
               @ '' XAF has been sent to the buyer's MoMo account.''\<rparr>"

definition DISPUTE_TOTAL_FEE_RATE :: real where
  "DISPUTE_TOTAL_FEE_RATE = 0.02"

definition DISPUTE_REFERRAL_FEE_RATE :: real where
  "DISPUTE_REFERRAL_FEE_RATE = 0.005"

definition dispute_fees :: "int \<Rightarrow> bool \<Rightarrow> fees" where
  "dispute_fees grossAmountD hasReferralD =
     (let totalFeeD = \<lfloor>of_int grossAmountD * DISPUTE_TOTAL_FEE_RATE\<rfloor>;
          referralEarningD =
            (if hasReferralD then \<lfloor>of_int grossAmountD * DISPUTE_REFERRAL_FEE_RATE\<rfloor> else 0);
          fonlokNetD = totalFeeD - referralEarningD;
          sellerShare = grossAmountD - totalFeeD
      in \<lparr>totalFee = totalFeeD, referralEarning = referralEarningD,
          fonlokNet = fonlokNetD, sellerReceives = sellerShare\<rparr>)"

definition dispute_credit :: "nat \<Rightarrow> seller_locals \<Rightarrow> credit" where
  "dispute_credit referrer l =
     \<lparr>cr_referrer_userid = referrer,
      cr_referred_userid = inv_userid (ds_invoice l),
      cr_invoice_number = inv_invoicenumber (ds_invoice l),
      cr_invoice_amount = inv_amount (ds_invoice l),
      cr_earned_amount = referralEarning (ds_fee l)\<rparr>"

fun resolve_step ::
  "gateway \<Rightarrow> (string \<times> decision) \<times> resolve_state \<Rightarrow> world
     \<Rightarrow> ((string \<times> decision) \<times> resolve_state) \<times> world"
where
  "resolve_step gw ((admin_token, decision), DR_Find) w =
     (case find (\<lambda>d. dp_admin_token d = admin_token) (disputes w) of
        None \<Rightarrow>
          (((admin_token, decision),
            DR_Sent \<lparr>http_status = 404, body = ''Invalid admin link.''\<rparr>), w)
      | Some dispute \<Rightarrow>
          if dp_status dispute \<noteq> ''open''
          then (((admin_token, decision),
                 DR_Sent \<lparr>http_status = 400, body = ''This dispute has already been resolved.''\<rparr>), w)
          else (((admin_token, decision), DR_FetchInvoice dispute), w))"
| "resolve_step gw ((admin_token, decision), DR_FetchInvoice dispute) w =
     (let invoice = find (\<lambda>r. inv_invoicenumber r = dp_invoicenumber dispute) (invoices w)
      in case decision of
           Seller \<Rightarrow> (((admin_token, decision), DR_S_Token invoice), w)
         | Buyer \<Rightarrow>
             (case invoice of
                None \<Rightarrow> (((admin_token, decision), DR_Sent went_wrong), w)
              | Some found \<Rightarrow> (((admin_token, decision), DR_B_FetchGuest found), w)))"
| "resolve_step gw ((admin_token, decision), DR_S_Token invoice) w =
     (if \<not> auth_ok gw then (((admin_token, decision), DR_Sent went_wrong), w)
      else case invoice of
             None \<Rightarrow> (((admin_token, decision), DR_Sent went_wrong), w)
           | Some found \<Rightarrow> (((admin_token, decision), DR_S_FetchSeller found), w))"
| "resolve_step gw ((admin_token, decision), DR_S_FetchSeller invoice) w =
     (((admin_token, decision),
       DR_S_FetchReferrer invoice (find (\<lambda>u. usr_id u = inv_userid invoice) (users w))), w)"
| "resolve_step gw ((admin_token, decision), DR_S_FetchReferrer invoice seller) w =
     (let referrerIdD =
            (case find (\<lambda>u. usr_id u = inv_userid invoice) (users w) of
               None \<Rightarrow> None
             | Some r \<Rightarrow> usr_referred_by r);
          hasReferralD = (referrerIdD \<noteq> None)
      in case seller of
           None \<Rightarrow> (((admin_token, decision), DR_Sent went_wrong), w)
         | Some s \<Rightarrow>
             (((admin_token, decision),
               DR_S_Withdraw \<lparr>ds_invoice = invoice, ds_seller = s, ds_referrerIdD = referrerIdD,
                              ds_fee = dispute_fees (inv_amount invoice) hasReferralD\<rparr>), w))"
| "resolve_step gw ((admin_token, decision), DR_S_Withdraw l) w =
     (let w' = w\<lparr>withdraw_calls := withdraw_calls w @
                   [\<lparr>tr_amount = sellerReceives (ds_fee l),
                     tr_to = usr_phone (ds_seller l),
                     tr_external_reference = inv_invoicenumber (ds_invoice l)\<rparr>]\<rparr>
      in if withdraw_ok gw then (((admin_token, decision), DR_S_MarkInvoice l), w')
         else (((admin_token, decision), DR_Sent went_wrong), w'))"
| "resolve_step gw ((admin_token, decision), DR_S_MarkInvoice l) w =
     (((admin_token, decision), DR_S_MarkDispute l),
      w\<lparr>invoices := map (\<lambda>r. if inv_id r = inv_id (ds_invoice l)
                                then r\<lparr>inv_status := ''completed''\<rparr> else r) (invoices w)\<rparr>)"
| "resolve_step gw ((admin_token, decision), DR_S_MarkDispute l) w =
     (((admin_token, decision), DR_S_InsertPayout l),
      w\<lparr>disputes := map (\<lambda>d. if dp_admin_token d = admin_token
                                then d\<lparr>dp_status := ''resolved_seller''\<rparr> else d) (disputes w)\<rparr>)"
| "resolve_step gw ((admin_token, decision), DR_S_InsertPayout l) w =
     (((admin_token, decision),
       (case ds_referrerIdD l of
          None \<Rightarrow> DR_Sent released_to_seller
        | Some referrer \<Rightarrow>
            if referralEarning (ds_fee l) > 0 then DR_S_InsertEarning (dispute_credit referrer l)
            else DR_Sent released_to_seller)),
      w\<lparr>payouts := payouts w @
           [\<lparr>po_userid = inv_userid (ds_invoice l),
             po_amount = sellerReceives (ds_fee l),
             po_method = ''Mobile Money'',
             po_status = ''paid'',
             po_invoice_id = inv_id (ds_invoice l),
             po_invoice_number = inv_invoicenumber (ds_invoice l)\<rparr>]\<rparr>)"
| "resolve_step gw ((admin_token, decision), DR_S_InsertEarning c) w =
     (case insert_earning c w of
        Inl referralErr \<Rightarrow> (((admin_token, decision), DR_Sent released_to_seller), w)
      | Inr (True, w') \<Rightarrow> (((admin_token, decision), DR_S_CreditBalance c), w')
      | Inr (False, w') \<Rightarrow> (((admin_token, decision), DR_Sent released_to_seller), w'))"
| "resolve_step gw ((admin_token, decision), DR_S_CreditBalance c) w =
     (case credit_balance c w of
        Inl referralErr \<Rightarrow> (((admin_token, decision), DR_Sent released_to_seller), w)
      | Inr w' \<Rightarrow> (((admin_token, decision), DR_Sent released_to_seller), w'))"
| "resolve_step gw ((admin_token, decision), DR_B_FetchGuest invoice) w =
     (case (case find (\<lambda>g. gs_invoicenumber g = inv_invoicenumber invoice) (guests w) of
              None \<Rightarrow> None
            | Some buyer \<Rightarrow>
                (case gs_momo_number buyer of
                   None \<Rightarrow> None
                 | Some momo \<Rightarrow> if momo = [] then None else Some momo)) of
        None \<Rightarrow>
          (((admin_token, decision),
            DR_Sent \<lparr>http_status = 400,
                     body = ''Cannot process refund: no buyer payment number found for this invoice. Please process the refund manually.''\<rparr>), w)
      | Some momo \<Rightarrow>
          (let grossAmountB = inv_amount invoice;
               fonlokFeeB = \<lfloor>of_int grossAmountB * (0.02 :: real)\<rfloor>;
               refundAmount = grossAmountB - fonlokFeeB
           in (((admin_token, decision),
                DR_B_Token \<lparr>db_invoice = invoice, db_momo_number = momo,
                            db_fonlokFeeB = fonlokFeeB, db_refundAmount = refundAmount\<rparr>), w)))"
| "resolve_step gw ((admin_token, decision), DR_B_Token l) w =
     (if auth_ok gw then (((admin_token, decision), DR_B_Withdraw l), w)
      else (((admin_token, decision), DR_Sent went_wrong), w))"
| "resolve_step gw ((admin_token, decision), DR_B_Withdraw l) w =
     (let w' = w\<lparr>withdraw_calls := withdraw_calls w @
                   [\<lparr>tr_amount = db_refundAmount l,
                     tr_to = db_momo_number l,
                     tr_external_reference = ''refund-'' @ inv_invoicenumber (db_invoice l)\<rparr>]\<rparr>
      in if withdraw_ok gw then (((admin_token, decision), DR_B_MarkInvoice l), w')
         else (((admin_token, decision), DR_Sent went_wrong), w'))"
| "resolve_step gw ((admin_token, decision), DR_B_MarkInvoice l) w =
     (((admin_token, decision), DR_B_MarkDispute l),
      w\<lparr>invoices := map (\<lambda>r. if inv_id r = inv_id (db_invoice l)
                                then r\<lparr>inv_status := ''refunded''\<rparr> else r) (invoices w)\<rparr>)"
| "resolve_step gw ((admin_token, decision), DR_B_MarkDispute l) w =
     (((admin_token, decision), DR_B_InsertPayout l),
      w\<lparr>disputes := map (\<lambda>d. if dp_admin_token d = admin_token
                                then d\<lparr>dp_status := ''resolved_buyer''\<rparr> else d) (disputes w)\<rparr>)"
| "resolve_step gw ((admin_token, decision), DR_B_InsertPayout l) w =
     (((admin_token, decision), DR_Sent (refunded_to_buyer (db_refundAmount l))),
      w\<lparr>payouts := payouts w @
           [\<lparr>po_userid = inv_userid (db_invoice l),
             po_amount = db_refundAmount l,
             po_method = ''Refund to Buyer'',
             po_status = ''refunded'',
             po_invoice_id = inv_id (db_invoice l),
             po_invoice_number = inv_invoicenumber (db_invoice l)\<rparr>]\<rparr>)"
| "resolve_step gw ((admin_token, decision), DR_Sent r) w = (((admin_token, decision), DR_Sent r), w)"

text \<open>The route run alone: at most eleven statements.\<close>

definition resolve_dispute :: "gateway \<Rightarrow> string \<Rightarrow> decision \<Rightarrow> world \<Rightarrow> resolve_state \<times> world" where
  "resolve_dispute gw admin_token decision w =
     (case exec resolve_step gw 11 (((admin_token, decision), DR_Find), w) of
        ((q, st), w') \<Rightarrow> (st, w'))"

text \<open>Several resolve requests, interleaved as the schedule says.\<close>

definition resolve_many ::
  "(nat \<times> gateway) list \<Rightarrow> (string \<times> decision) list \<Rightarrow> world
     \<Rightarrow> ((string \<times> decision) \<times> resolve_state) list \<times> world" where
  "resolve_many sch reqs w = run resolve_step sch (map (\<lambda>q. (q, DR_Find)) reqs, w)"

text \<open>
  Two admin sessions resolve the same dispute at the same time: both read the dispute
  while it is still open, then each runs to its end.
\<close>

definition resolve_race :: "(nat \<times> gateway) list" where
  "resolve_race =
     [(0, gw_up), (1, gw_up),
      (0, gw_up), (0, gw_up), (0, gw_up), (0, gw_up), (0, gw_up),
      (0, gw_up), (0, gw_up), (0, gw_up), (0, gw_up), (0, gw_up),
      (1, gw_up), (1, gw_up), (1, gw_up), (1, gw_up), (1, gw_up),
      (1, gw_up), (1, gw_up), (1, gw_up), (1, gw_up), (1, gw_up)]"

section \<open>Referral withdrawal\<close>

text \<open>
  \<open>POST /referral/withdraw\<close> with body \<open>{amount, momo_number}\<close>, behind the authentication
  middleware. A request is the user id, the amount and the number as sent, and the point
  reached. The amount is a whole number. A new withdrawal row gets the next id of its
  sequence.
\<close>

definition MIN_WITHDRAWAL_AMOUNT :: int where
  "MIN_WITHDRAWAL_AMOUNT = 2000"

definition is_space :: "char \<Rightarrow> bool" where
  "is_space c = (c \<in> set [CHR '' '', CHR 0x09, CHR 0x0A, CHR 0x0D])"

definition trim :: "string \<Rightarrow> string" where
  "trim s = rev (dropWhile is_space (rev (dropWhile is_space s)))"

definition is_digit :: "char \<Rightarrow> bool" where
  "is_digit c = (c \<in> set ''0123456789'')"

text \<open>The pattern \<open>/^237[62]\d{8}$/\<close>.\<close>

definition momo_valid :: "string \<Rightarrow> bool" where
  "momo_valid s =
     (length s = 12 \<and> take 3 s = ''237'' \<and> (s ! 3 = CHR ''6'' \<or> s ! 3 = CHR ''2'')
      \<and> list_all is_digit (drop 4 s))"

datatype withdraw_state =
    RW_Deduct
  | RW_Recheck
  | RW_InsertPending
  | RW_Token nat
  | RW_Withdraw nat
  | RW_MarkPaid nat
  | RW_Restore nat
  | RW_MarkFailed nat
  | RW_Sent response

definition has_pending :: "nat \<Rightarrow> world \<Rightarrow> bool" where
  "has_pending userId w =
     list_ex (\<lambda>r. rw_userid r = userId \<and> rw_status r = ''pending'') (referral_withdrawals w)"

definition next_withdrawal_id :: "world \<Rightarrow> nat" where
  "next_withdrawal_id w = Suc (fold max (map rw_id (referral_withdrawals w)) 0)"

fun withdraw_step ::
  "gateway \<Rightarrow> (nat \<times> int \<times> string) \<times> withdraw_state \<Rightarrow> world
     \<Rightarrow> ((nat \<times> int \<times> string) \<times> withdraw_state) \<times> world"
where
  "withdraw_step gw ((userId, amount, momo_number), RW_Deduct) w =
     (if amount = 0 \<or> momo_number = []
      then (((userId, amount, momo_number),
             RW_Sent \<lparr>http_status = 400, body = ''Amount and MoMo number are required.''\<rparr>), w)
      else if amount \<le> 0
      then (((userId, amount, momo_number),
             RW_Sent \<lparr>http_status = 400, body = ''Amount must be a positive number.''\<rparr>), w)
      else if amount < MIN_WITHDRAWAL_AMOUNT
      then (((userId, amount, momo_number),
             RW_Sent \<lparr>http_status = 400,
                      body = ''Minimum withdrawal amount is ''
                               @ to_locale_string MIN_WITHDRAWAL_AMOUNT @ '' XAF.''\<rparr>), w)
      else if \<not> momo_valid (trim momo_number)
      then (((userId, amount, momo_number),
             RW_Sent \<lparr>http_status = 400,
                      body = ''Please provide a valid Cameroonian MoMo number (e.g. 2376XXXXXXXX).''\<rparr>), w)
      else
        let deductResult =
              filter (\<lambda>u. usr_id u = userId \<and> usr_referral_balance u \<ge> amount
                           \<and> \<not> has_pending userId w) (users w);
            w' = w\<lparr>users :=
                     map (\<lambda>u. if usr_id u = userId \<and> usr_referral_balance u \<ge> amount
                                    \<and> \<not> has_pending userId w
                               then u\<lparr>usr_referral_balance := usr_referral_balance u - amount\<rparr>
                               else u) (users w)\<rparr>
        in if length deductResult = 0 then (((userId, amount, momo_number), RW_Recheck), w')
           else (((userId, amount, momo_number), RW_InsertPending), w'))"
| "withdraw_step gw ((userId, amount, momo_number), RW_Recheck) w =
     (case find (\<lambda>u. usr_id u = userId) (users w) of
        None \<Rightarrow>
          (((userId, amount, momo_number),
            RW_Sent \<lparr>http_status = 404, body = ''User not found.''\<rparr>), w)
      | Some rc \<Rightarrow>
          if has_pending userId w
          then (((userId, amount, momo_number),
                 RW_Sent \<lparr>http_status = 400,
                          body = ''You already have a pending withdrawal. Please wait for it to be processed before requesting another.''\<rparr>), w)
          else (((userId, amount, momo_number),
                 RW_Sent \<lparr>http_status = 400,
                          body = ''Insufficient balance. You have ''
                                   @ to_locale_string (usr_referral_balance rc) @ '' XAF available.''\<rparr>), w))"
| "withdraw_step gw ((userId, amount, momo_number), RW_InsertPending) w =
     (let withdrawalId = next_withdrawal_id w
      in (((userId, amount, momo_number), RW_Token withdrawalId),
          w\<lparr>referral_withdrawals := referral_withdrawals w @
               [\<lparr>rw_id = withdrawalId, rw_userid = userId, rw_amount = amount,
                 rw_momo_number = trim momo_number, rw_status = ''pending''\<rparr>]\<rparr>))"
| "withdraw_step gw ((userId, amount, momo_number), RW_Token withdrawalId) w =
     (if auth_ok gw then (((userId, amount, momo_number), RW_Withdraw withdrawalId), w)
      else (((userId, amount, momo_number), RW_Restore withdrawalId), w))"
| "withdraw_step gw ((userId, amount, momo_number), RW_Withdraw withdrawalId) w =
     (let w' = w\<lparr>withdraw_calls := withdraw_calls w @
                   [\<lparr>tr_amount = amount,
                     tr_to = trim momo_number,
                     tr_external_reference = ''ref-withdrawal-'' @ show_nat withdrawalId\<rparr>]\<rparr>
      in if withdraw_ok gw then (((userId, amount, momo_number), RW_MarkPaid withdrawalId), w')
         else (((userId, amount, momo_number), RW_Restore withdrawalId), w'))"
| "withdraw_step gw ((userId, amount, momo_number), RW_MarkPaid withdrawalId) w =
     (((userId, amount, momo_number),
       RW_Sent \<lparr>http_status = 200,
                body = ''Your withdrawal of '' @ to_locale_string amount @ '' XAF has been sent to ''
                         @ trim momo_number @ ''. It should arrive within a few minutes.''\<rparr>),
      w\<lparr>referral_withdrawals :=
           map (\<lambda>r. if rw_id r = withdrawalId then r\<lparr>rw_status := ''paid''\<rparr> else r)
               (referral_withdrawals w)\<rparr>)"
| "withdraw_step gw ((userId, amount, momo_number), RW_Restore withdrawalId) w =
     (((userId, amount, momo_number), RW_MarkFailed withdrawalId),
      w\<lparr>users := map (\<lambda>u. if usr_id u = userId
                             then u\<lparr>usr_referral_balance := usr_referral_balance u + amount\<rparr>
                             else u) (users w)\<rparr>)"
| "withdraw_step gw ((userId, amount, momo_number), RW_MarkFailed withdrawalId) w =
     (((userId, amount, momo_number),
       RW_Sent \<lparr>http_status = 502,
                body = ''The payment gateway could not process your withdrawal. Your balance has been restored. Please try again later.''\<rparr>),
      w\<lparr>referral_withdrawals :=
           map (\<lambda>r. if rw_id r = withdrawalId then r\<lparr>rw_status := ''failed''\<rparr> else r)
               (referral_withdrawals w)\<rparr>)"
| "withdraw_step gw ((userId, amount, momo_number), RW_Sent r) w =
     (((userId, amount, momo_number), RW_Sent r), w)"

text \<open>The route run alone: at most six statements.\<close>

definition withdraw :: "gateway \<Rightarrow> nat \<Rightarrow> int \<Rightarrow> string \<Rightarrow> world \<Rightarrow> withdraw_state \<times> world" where
  "withdraw gw userId amount momo_number w =
     (case exec withdraw_step gw 6 (((userId, amount, momo_number), RW_Deduct), w) of
        ((q, st), w') \<Rightarrow> (st, w'))"

definition withdraw_many ::
  "(nat \<times> gateway) list \<Rightarrow> (nat \<times> int \<times> string) list \<Rightarrow> world
     \<Rightarrow> ((nat \<times> int \<times> string) \<times> withdraw_state) list \<times> world" where
  "withdraw_many sch reqs w = run withdraw_step sch (map (\<lambda>q. (q, RW_Deduct)) reqs, w)"

definition pending_of :: "nat \<Rightarrow> world \<Rightarrow> referral_withdrawal list" where
  "pending_of userId w =
     filter (\<lambda>r. rw_userid r = userId \<and> rw_status r = ''pending'') (referral_withdrawals w)"

text \<open>
  Two withdrawals of 2000 by user 2, whose balance is 4000, taken in turn statement by
  statement: both run the conditional update before either inserts its pending row.
\<close>

definition withdraw_race :: "(nat \<times> gateway) list" where
  "withdraw_race =
     [(0, gw_up), (1, gw_up), (0, gw_up), (1, gw_up), (0, gw_up), (1, gw_up),
      (0, gw_up), (1, gw_up), (0, gw_up), (1, gw_up)]"

definition balances_ok :: "world \<Rightarrow> bool" where
  "balances_ok w = list_all (\<lambda>u. 0 \<le> usr_referral_balance u) (users w)"

definition amount_checked :: "(nat \<times> int \<times> string) \<times> withdraw_state \<Rightarrow> bool" where
  "amount_checked p =
     (case snd p of
        RW_Deduct \<Rightarrow> True
      | RW_Sent r \<Rightarrow> True
      | _ \<Rightarrow> MIN_WITHDRAWAL_AMOUNT \<le> fst (snd (fst p)))"

definition withdraw_inv ::
  "((nat \<times> int \<times> string) \<times> withdraw_state) list \<Rightarrow> world \<Rightarrow> bool" where
  "withdraw_inv ps w = (balances_ok w \<and> list_all amount_checked ps)"

section \<open>Properties\<close>

subsection \<open>Fee arithmetic\<close>

lemma floor_two_percent: "\<lfloor>real_of_int g * 0.02\<rfloor> = g div 50"
proof -
  have "real_of_int g * 0.02 = real_of_int g / real_of_int 50"
    by simp
  then show ?thesis
    by (simp only: floor_divide_of_int_eq)
qed

lemma floor_half_percent: "\<lfloor>real_of_int g * 0.005\<rfloor> = g div 200"
proof -
  have "real_of_int g * 0.005 = real_of_int g / real_of_int 200"
    by simp
  then show ?thesis
    by (simp only: floor_divide_of_int_eq)
qed

subsection \<open>Invariants of interleaved runs\<close>

lemma run_invariant:
  assumes "I ps w"
    and "\<And>j e ps w p' w'. I ps w \<Longrightarrow> j < length ps \<Longrightarrow> step e (ps ! j) w = (p', w') \<Longrightarrow> I (ps[j := p']) w'"
  shows "I (fst (run step sch (ps, w))) (snd (run step sch (ps, w)))"
  using assms(1)
proof (induction sch arbitrary: ps w)
  case Nil
  then show ?case by simp
next
  case (Cons a sch)
  obtain j e where a: "a = (j, e)" by (cases a)
  show ?case
  proof (cases "j < length ps")
    case True
    obtain p' w' where st: "step e (ps ! j) w = (p', w')" by (cases "step e (ps ! j) w")
    have "I (ps[j := p']) w'" using assms(2)[OF Cons.prems True st] .
    from Cons.IH[OF this] show ?thesis using a True st by simp
  next
    case False
    then show ?thesis using a Cons.IH[OF Cons.prems] by simp
  qed
qed

lemma length_filter_update:
  "j < length xs \<Longrightarrow>
   length (filter P (xs[j := y])) + (if P (xs ! j) then 1 else 0)
     = length (filter P xs) + (if P y then 1 else 0)"
proof (induction xs arbitrary: j)
  case Nil
  then show ?case by simp
next
  case (Cons x xs)
  then show ?case by (cases j) auto
qed

lemma unique_inv_step:
  assumes inv: "unique_inv holds free ps w" and j: "j < length ps"
    and eff: "claim_effect holds free (ps ! j) w p' w'"
  shows "unique_inv holds free (ps[j := p']) w'"
proof -
  have upd: "length (filter (holds k) (ps[j := p'])) + (if holds k (ps ! j) then 1 else 0)
              = length (filter (holds k) ps) + (if holds k p' then 1 else 0)" for k
    by (rule length_filter_update[OF j])
  from inv have one: "length (filter (holds k) ps) \<le> 1" for k
    by (simp add: unique_inv_def)
  from inv have fr: "free k w \<Longrightarrow> filter (holds k) ps = []" for k
    by (simp add: unique_inv_def)
  from eff consider
      (same) "\<forall>k. free k w' = free k w" "\<forall>k. holds k p' = holds k (ps ! j)"
    | (claim) u where "\<forall>k. \<not> holds k (ps ! j)" "\<forall>k. holds k p' = (k = u \<and> free u w)"
        "\<forall>k. free k w' = (k \<noteq> u \<and> free k w)"
    unfolding claim_effect_def by blast
  then show ?thesis
  proof cases
    case same
    have cnt: "length (filter (holds k) (ps[j := p'])) = length (filter (holds k) ps)" for k
      using upd[of k] same(2) by simp
    have a: "length (filter (holds k) (ps[j := p'])) \<le> 1" for k
      using cnt[of k] one[of k] by simp
    have b: "filter (holds k) (ps[j := p']) = []" if "free k w'" for k
    proof -
      have "length (filter (holds k) (ps[j := p'])) = 0"
        using cnt[of k] fr[of k] that same(1) by simp
      then show ?thesis by simp
    qed
    show ?thesis unfolding unique_inv_def using a b by (intro conjI allI impI)
  next
    case claim
    have cnt: "length (filter (holds k) (ps[j := p']))
                 = length (filter (holds k) ps) + (if k = u \<and> free u w then 1 else 0)" for k
      using upd[of k] claim(1,2) by auto
    have a: "length (filter (holds k) (ps[j := p'])) \<le> 1" for k
    proof (cases "k = u \<and> free u w")
      case True
      then have "filter (holds k) ps = []" using fr[of u] by simp
      then show ?thesis using cnt[of k] True by simp
    next
      case False
      then have "length (filter (holds k) (ps[j := p'])) = length (filter (holds k) ps)"
        using cnt[of k] by auto
      then show ?thesis using one[of k] by simp
    qed
    have b: "filter (holds k) (ps[j := p']) = []" if "free k w'" for k
    proof -
      from that claim(3) have k: "k \<noteq> u" "free k w" by simp_all
      have "length (filter (holds k) (ps[j := p'])) = 0"
        using cnt[of k] fr[OF k(2)] k(1) by simp
      then show ?thesis by simp
    qed
    show ?thesis unfolding unique_inv_def using a b by (intro conjI allI impI)
  qed
qed

lemma counter_step:
  assumes inv: "m w = n0 + length (filter c ps)" and j: "j < length ps"
    and eff: "counter_effect m c (ps ! j) w p' w'"
  shows "m w' = n0 + length (filter c (ps[j := p']))"
  using length_filter_update[OF j, where P = c and y = p'] inv eff
  by (simp add: counter_effect_def split: if_splits)

subsection \<open>Settlement by confirmation code or link\<close>

lemma claim_code_rows: "fst (claim_code i w) = [] \<longleftrightarrow> \<not> unused_code i w"
  by (auto simp: claim_code_def unused_code_def list_ex_iff filter_empty_conv)


lemma claim_code_frame:
  "withdraw_calls (snd (claim_code i w)) = withdraw_calls w"
  "payouts (snd (claim_code i w)) = payouts w"
  by (simp_all add: claim_code_def)










subsection \<open>Milestone release\<close>

lemma lock_milestone_rows: "fst (lock_milestone k w) = [] \<longleftrightarrow> \<not> completed_row k w"
  by (auto simp: lock_milestone_def completed_row_def list_ex_iff filter_empty_conv)


lemma lock_milestone_frame:
  "withdraw_calls (snd (lock_milestone i w)) = withdraw_calls w"
  "payouts (snd (lock_milestone i w)) = payouts w"
  by (simp_all add: lock_milestone_def)

lemma lock_milestone_none: "\<not> completed_row i w \<Longrightarrow> snd (lock_milestone i w) = w"
proof -
  assume a: "\<not> completed_row i w"
  have "map (\<lambda>m. if ms_id m = i \<and> ms_status m = ''completed''
                  then m\<lparr>ms_status := ''released'', ms_release_token := None\<rparr> else m)
            (invoice_milestones w) = invoice_milestones w"
    using a by (intro map_idI) (auto simp: completed_row_def list_ex_iff)
  then show ?thesis by (simp add: lock_milestone_def)
qed







subsection \<open>A request run alone\<close>

text \<open>One request alone.\<close>

lemma exec_invariant:
  assumes "I p w" and "\<And>p w. I p w \<Longrightarrow> I (fst (step e p w)) (snd (step e p w))"
  shows "I (fst (exec step e n (p, w))) (snd (exec step e n (p, w)))"
  using assms(1)
proof (induction n arbitrary: p w)
  case 0
  then show ?case by simp
next
  case (Suc n)
  from assms(2)[OF Suc.prems] have "I (fst (step e p w)) (snd (step e p w))" .
  from Suc.IH[OF this] show ?case by (cases "step e p w") simp
qed

lemma exec_fixed: "step e p w = (p, w) \<Longrightarrow> exec step e n (p, w) = (p, w)"
  by (induction n) simp_all

lemma exec_numeral:
  "exec step e (numeral k) (p, w) = exec step e (pred_numeral k) (step e p w)"
  by (simp add: numeral_eq_Suc)











lemma length_filter_mono:
  "(\<And>x. x \<in> set xs \<Longrightarrow> P x \<Longrightarrow> Q x) \<Longrightarrow> length (filter P xs) \<le> length (filter Q xs)"
proof (induction xs)
  case Nil
  then show ?case by simp
next
  case (Cons x xs)
  then show ?case by auto
qed












subsection \<open>Referral credit\<close>

lemma insert_earning_new:
  "earning_insertable c w \<Longrightarrow>
     \<exists>w1. insert_earning c w = Inr (True, w1) \<and> has_earning c w1 \<and> users w1 = users w
          \<and> referral_earnings w1 = referral_earnings w @
               [\<lparr>re_referrer_userid = cr_referrer_userid c,
                 re_referred_userid = cr_referred_userid c,
                 re_invoice_number = cr_invoice_number c,
                 re_invoice_amount = cr_invoice_amount c,
                 re_earned_amount = cr_earned_amount c\<rparr>]"
  by (simp add: earning_insertable_def insert_earning_def has_earning_def)

lemma insert_earning_old: "has_earning c w \<Longrightarrow> insert_earning c w = Inr (False, w)"
  by (simp add: insert_earning_def has_earning_def)

lemma credit_step_idle:
  "\<not> earning_insertable c w \<Longrightarrow> referral_credit_step e (c, CR_Insert) w = ((c, CR_Done), w)"
  by (auto simp: earning_insertable_def insert_earning_def has_earning_def)

lemma credit_step_update:
  "referral_credit_step e (c, CR_Update) w = (p', w') \<Longrightarrow>
     p' = (c, CR_Done) \<and> has_earning c w' = has_earning c w
     \<and> referral_earnings w' = referral_earnings w"
  by (auto simp: credit_balance_def has_earning_def split: sum.splits if_splits)

lemma credit_once_idle: "\<not> earning_insertable c w \<Longrightarrow> credit_once c w = w"
  by (simp add: credit_once_def numeral_2_eq_2 credit_step_idle del: referral_credit_step.simps(1))

lemma credit_once_won:
  "insert_earning c w = Inr (True, w1) \<Longrightarrow>
     credit_once c w = snd (referral_credit_step () (c, CR_Update) w1)"
  by (simp add: credit_once_def numeral_2_eq_2 split: sum.splits)

lemma credit_once_has: "earning_insertable c w \<Longrightarrow> has_earning c (credit_once c w)"
proof -
  assume a: "earning_insertable c w"
  from insert_earning_new[OF a] obtain w1
    where w1: "insert_earning c w = Inr (True, w1)" "has_earning c w1" by blast
  obtain p' w' where st: "referral_credit_step () (c, CR_Update) w1 = (p', w')"
    by (metis surj_pair)
  from credit_step_update[OF st] w1(2) have "has_earning c w'" by simp
  with credit_once_won[OF w1(1)] st show ?thesis by simp
qed

lemma has_earning_not_insertable: "has_earning c w \<Longrightarrow> \<not> earning_insertable c w"
  by (simp add: earning_insertable_def)

lemma credit_once_idem: "credit_once c (credit_once c w) = credit_once c w"
proof (cases "earning_insertable c w")
  case True
  from credit_once_has[OF True] show ?thesis
    by (simp add: credit_once_idle has_earning_not_insertable)
next
  case False
  then show ?thesis by (simp add: credit_once_idle)
qed

lemma run_length: "length (fst (run step sch (ps, w))) = length ps"
proof (induction sch arbitrary: ps w)
  case Nil
  then show ?case by simp
next
  case (Cons a sch)
  then show ?case by (cases a) (auto split: prod.splits)
qed

lemma credit_inv_step:
  assumes inv: "credit_inv c w0 ps w" and j: "j < length ps"
    and st: "referral_credit_step e (ps ! j) w = (p', w')"
  shows "credit_inv c w0 (ps[j := p']) w'"
proof -
  from inv have allc: "list_all (\<lambda>p. fst p = c) ps" by (simp add: credit_inv_def)
  with j have pj: "ps ! j = (c, snd (ps ! j))" by (simp add: list_all_length prod_eq_iff)
  define s where "s = snd (ps ! j)"
  from st pj have step: "referral_credit_step e (c, s) w = (p', w')" by (simp add: s_def)
  have fst': "fst p' = c"
    using step by (cases s) (auto split: prod.splits bool.splits sum.splits)
  have allc': "list_all (\<lambda>p. fst p = c) (ps[j := p'])"
    using allc fst' by (auto simp: list_all_iff dest: set_update_subset_insert[THEN subsetD])
  have upd: "length (filter (\<lambda>p. snd p = CR_Update) (ps[j := p'])) + (if s = CR_Update then 1 else 0)
              = length (filter (\<lambda>p. snd p = CR_Update) ps) + (if snd p' = CR_Update then 1 else 0)"
    using length_filter_update[OF j, where P = "\<lambda>p. snd p = CR_Update" and y = p'] by (simp add: s_def)
  have idle: "w' = w \<and> snd p' \<noteq> CR_Update" if "s \<noteq> CR_Update" "\<not> earning_insertable c w"
    using step that by (cases s) (auto simp: credit_step_idle simp del: referral_credit_step.simps(1))
  from inv consider
      (old) "\<not> earning_insertable c w0" "w = w0" "filter (\<lambda>p. snd p = CR_Update) ps = []"
    | (fresh) "earning_insertable c w0" "w = w0" "list_all (\<lambda>p. snd p = CR_Insert) ps"
    | (won) "earning_insertable c w0" "insert_earning c w0 = Inr (True, w)"
        "length (filter (\<lambda>p. snd p = CR_Update) ps) = 1"
    | (credited) "earning_insertable c w0" "w = credit_once c w0"
        "filter (\<lambda>p. snd p = CR_Update) ps = []"
    unfolding credit_inv_def by blast
  then show ?thesis
  proof cases
    case old
    have su: "s \<noteq> CR_Update"
      using old(3) j by (auto simp: s_def filter_empty_conv)
    from idle[OF su] old(1,2) have i: "w' = w0 \<and> snd p' \<noteq> CR_Update" by simp
    with upd su old(3)
    have "filter (\<lambda>p. snd p = CR_Update) (ps[j := p']) = []" by simp
    with i show ?thesis using allc' old(1) by (simp add: credit_inv_def)
  next
    case fresh
    have s: "s = CR_Insert" using fresh(3) j by (simp add: list_all_length s_def)
    from insert_earning_new[OF fresh(1)] obtain w1 where ie: "insert_earning c w0 = Inr (True, w1)"
      by blast
    from step s fresh(2) ie have p': "p' = (c, CR_Update)" and w': "w' = w1"
      by simp_all
    have "filter (\<lambda>p. snd p = CR_Update) ps = []"
      using fresh(3) by (auto simp: filter_empty_conv list_all_iff)
    with upd s p' have "length (filter (\<lambda>p. snd p = CR_Update) (ps[j := p'])) = 1" by simp
    then show ?thesis using allc' fresh(1) w' ie by (simp add: credit_inv_def)
  next
    case won
    from insert_earning_new[OF won(1)] won(2) have has: "has_earning c w" by auto
    show ?thesis
    proof (cases "s = CR_Update")
      case True
      from step True credit_step_update[of e c w p' w'] have p': "p' = (c, CR_Done)" by simp
      from step True have "w' = snd (referral_credit_step e (c, CR_Update) w)" by simp
      then have w': "w' = credit_once c w0" using credit_once_won[OF won(2)] by simp
      from upd True p' won(3) have "filter (\<lambda>p. snd p = CR_Update) (ps[j := p']) = []" by simp
      then show ?thesis using allc' won(1) w' by (simp add: credit_inv_def)
    next
      case False
      from idle[OF False has_earning_not_insertable[OF has]]
      have i: "w' = w \<and> snd p' \<noteq> CR_Update" .
      with upd False won(3)
      have "length (filter (\<lambda>p. snd p = CR_Update) (ps[j := p'])) = 1" by simp
      with i show ?thesis using allc' won(1,2) by (simp add: credit_inv_def)
    qed
  next
    case credited
    have has: "has_earning c w"
      using credited(1,2) credit_once_has by simp
    have su: "s \<noteq> CR_Update"
      using credited(3) j by (auto simp: s_def filter_empty_conv)
    from idle[OF su has_earning_not_insertable[OF has]]
    have i: "w' = w \<and> snd p' \<noteq> CR_Update" .
    with upd su credited(3)
    have "filter (\<lambda>p. snd p = CR_Update) (ps[j := p']) = []" by simp
    with i show ?thesis using allc' credited(1,2) by (simp add: credit_inv_def)
  qed
qed

lemma credit_inv_run:
  "credit_inv c w (fst (credit_many sch n c w)) (snd (credit_many sch n c w))"
  unfolding credit_many_def
proof (rule run_invariant[where I = "credit_inv c w"])
  show "credit_inv c w (replicate n (c, CR_Insert)) w"
    by (cases "earning_insertable c w") (simp_all add: credit_inv_def list_all_iff filter_empty_conv)
qed (rule credit_inv_step)

lemma credit_many_finished:
  assumes "list_all (\<lambda>p. snd p = CR_Done) (fst (credit_many sch n c w))" and "0 < n"
  shows "snd (credit_many sch n c w) = credit_once c w"
proof -
  let ?ps = "fst (credit_many sch n c w)"
  have len: "length ?ps = n"
    by (simp add: credit_many_def run_length)
  then obtain p where p: "p \<in> set ?ps" using assms(2) by (cases ?ps) auto
  have nu: "filter (\<lambda>p. snd p = CR_Update) ?ps = []"
    using assms(1) by (auto simp: filter_empty_conv list_all_iff)
  from assms(1) p have "snd p = CR_Done" by (simp add: list_all_iff)
  with p have ni: "\<not> list_all (\<lambda>p. snd p = CR_Insert) ?ps"
    unfolding list_all_iff by (metis credit_state.distinct(3))
  from credit_inv_run[of c w sch n] nu ni show ?thesis
    by (auto simp: credit_inv_def credit_once_idle)
qed

lemma credit_many_any_time:
  "users (snd (credit_many sch n c w)) = users w
   \<or> users (snd (credit_many sch n c w)) = users (credit_once c w)"
proof -
  from credit_inv_run[of c w sch n] consider
      "snd (credit_many sch n c w) = w"
    | "earning_insertable c w" "insert_earning c w = Inr (True, snd (credit_many sch n c w))"
    | "snd (credit_many sch n c w) = credit_once c w"
    unfolding credit_inv_def by blast
  then show ?thesis
  proof cases
    case 2
    from insert_earning_new[OF 2(1)] 2(2) show ?thesis by auto
  qed simp_all
qed

lemma credit_in_payout:
  "exec payout_step gw 2 ((i, EP_InsertEarning c), w) = ((i, EP_Returned), credit_once c w)"
proof (cases "earning_insertable c w")
  case False
  then have "referral_credit_step () (c, CR_Insert) w = ((c, CR_Done), w)"
    by (rule credit_step_idle)
  then have "payout_step gw (i, EP_InsertEarning c) w = ((i, EP_Returned), w)"
    by (auto split: sum.splits bool.splits prod.splits)
  with False show ?thesis by (simp add: numeral_2_eq_2 credit_once_idle)
next
  case True
  from insert_earning_new[OF True] obtain w1 where ie: "insert_earning c w = Inr (True, w1)"
    by blast
  show ?thesis
    by (simp add: numeral_2_eq_2 ie credit_once_won[OF ie] split: sum.splits)
qed

lemma credit_in_release:
  "exec release_step gw 2 ((t, MR_InsertEarning l c), w)
     = (if earning_insertable c w then ((t, MR_CountRemaining l), credit_once c w)
        else exec release_step gw 1 ((t, MR_CountRemaining l), w))"
proof (cases "earning_insertable c w")
  case False
  then have "referral_credit_step () (c, CR_Insert) w = ((c, CR_Done), w)"
    by (rule credit_step_idle)
  then have "release_step gw (t, MR_InsertEarning l c) w = ((t, MR_CountRemaining l), w)"
    by (auto split: sum.splits bool.splits prod.splits)
  with False show ?thesis by (simp add: numeral_2_eq_2)
next
  case True
  from insert_earning_new[OF True] obtain w1 where ie: "insert_earning c w = Inr (True, w1)"
    by blast
  show ?thesis
    using True by (simp add: numeral_2_eq_2 ie credit_once_won[OF ie] split: sum.splits)
qed

lemma credit_once_fresh:
  assumes ins: "earning_insertable c w"
  shows "referral_earnings (credit_once c w) = referral_earnings w @
           [\<lparr>re_referrer_userid = cr_referrer_userid c,
             re_referred_userid = cr_referred_userid c,
             re_invoice_number = cr_invoice_number c,
             re_invoice_amount = cr_invoice_amount c,
             re_earned_amount = cr_earned_amount c\<rparr>]"
    and "users (credit_once c w)
           = (if in_int4 (cr_earned_amount c)
                 \<and> list_all (\<lambda>u. usr_id u = cr_referrer_userid c
                                  \<longrightarrow> in_int4 (usr_referral_balance u + cr_earned_amount c)) (users w)
              then map (\<lambda>u. if usr_id u = cr_referrer_userid c
                             then u\<lparr>usr_referral_balance :=
                                      usr_referral_balance u + cr_earned_amount c\<rparr>
                             else u) (users w)
              else users w)"
proof -
  from insert_earning_new[OF ins] obtain w1 where ie: "insert_earning c w = Inr (True, w1)"
    and u1: "users w1 = users w"
    and r1: "referral_earnings w1 = referral_earnings w @
               [\<lparr>re_referrer_userid = cr_referrer_userid c,
                 re_referred_userid = cr_referred_userid c,
                 re_invoice_number = cr_invoice_number c,
                 re_invoice_amount = cr_invoice_amount c,
                 re_earned_amount = cr_earned_amount c\<rparr>]"
    by blast
  obtain p' w' where st: "referral_credit_step () (c, CR_Update) w1 = (p', w')"
    by (metis surj_pair)
  from credit_step_update[OF st] r1 credit_once_won[OF ie] st
  show "referral_earnings (credit_once c w) = referral_earnings w @
           [\<lparr>re_referrer_userid = cr_referrer_userid c,
             re_referred_userid = cr_referred_userid c,
             re_invoice_number = cr_invoice_number c,
             re_invoice_amount = cr_invoice_amount c,
             re_earned_amount = cr_earned_amount c\<rparr>]"
    by simp
  show "users (credit_once c w)
           = (if in_int4 (cr_earned_amount c)
                 \<and> list_all (\<lambda>u. usr_id u = cr_referrer_userid c
                                  \<longrightarrow> in_int4 (usr_referral_balance u + cr_earned_amount c)) (users w)
              then map (\<lambda>u. if usr_id u = cr_referrer_userid c
                             then u\<lparr>usr_referral_balance :=
                                      usr_referral_balance u + cr_earned_amount c\<rparr>
                             else u) (users w)
              else users w)"
    unfolding credit_once_won[OF ie]
    by (auto simp: credit_balance_def u1 list_ex_iff list_all_iff)
qed

text \<open>
  C6, as stated, fails where the balance update raises. With the referrer's balance at
  2147483647 and a share of 500, the earnings row is inserted, the update raises
  (integer out of range), the \<open>catch\<close> logs it and the payout returns; a second run
  finds the earnings row and does nothing. After two runs, one after the other or
  interleaved, the balance is what it was: the share was credited zero times, while the
  transfer of 98000 to the seller went out and the earning of 500 is on record.
\<close>

theorem referral_credit_lost_at_limit:
  "map usr_referral_balance (users limit_world) = [0, 2147483647]
   \<and> \<not> has_earning demo_credit limit_world
   \<and> cr_earned_amount demo_credit = 500
   \<and> map usr_referral_balance
         (users (credit_once demo_credit (credit_once demo_credit limit_world)))
       = [0, 2147483647]
   \<and> usr_referral_balance
         (users (credit_once demo_credit (credit_once demo_credit limit_world)) ! 1)
       \<noteq> usr_referral_balance (users limit_world ! 1) + cr_earned_amount demo_credit
   \<and> map usr_referral_balance
         (users (snd (credit_many [(0, ()), (1, ()), (0, ())] 2 demo_credit limit_world)))
       = [0, 2147483647]
   \<and> map re_earned_amount
         (referral_earnings (credit_once demo_credit (credit_once demo_credit limit_world)))
       = [500]
   \<and> fst (executePayout gw_up 7 limit_world) = EP_Returned
   \<and> map tr_amount (withdraw_calls (snd (executePayout gw_up 7 limit_world))) = [98000]
   \<and> map re_earned_amount (referral_earnings (snd (executePayout gw_up 7 limit_world))) = [500]
   \<and> map usr_referral_balance (users (snd (executePayout gw_up 7 limit_world)))
       = [0, 2147483647]"
proof -
  have ins: "earning_insertable demo_credit limit_world"
    by (simp add: earning_insertable_def has_earning_def demo_credit_def limit_world_def
          demo_world_def)
  have once: "credit_once demo_credit limit_world
                = limit_world\<lparr>referral_earnings :=
                    [\<lparr>re_referrer_userid = 2, re_referred_userid = 1,
                      re_invoice_number = ''INV-7'', re_invoice_amount = 100000,
                      re_earned_amount = 500\<rparr>]\<rparr>"
    by (simp add: credit_once_def numeral_2_eq_2 insert_earning_def credit_balance_def in_int4_def
          demo_credit_def limit_world_def demo_world_def)
  have twice: "credit_once demo_credit (credit_once demo_credit limit_world)
                 = credit_once demo_credit limit_world"
    by (rule credit_once_idem)
  have many: "users (snd (credit_many [(0, ()), (1, ()), (0, ())] 2 demo_credit limit_world))
                = users limit_world"
    by (simp add: credit_many_def numeral_2_eq_2 insert_earning_def credit_balance_def in_int4_def
          demo_credit_def limit_world_def demo_world_def)
  have bal: "map usr_referral_balance (users limit_world) = [0, 2147483647]"
    by (simp add: limit_world_def demo_world_def)
  have pay: "executePayout gw_up 7 limit_world
               = (EP_Returned,
                  limit_world\<lparr>
                    confirmation_codes :=
                      [\<lparr>cc_code = ''ABCD2345'', cc_code_id = 7, cc_verification_token = ''tok7'',
                        cc_userid = 1, cc_is_used = True\<rparr>],
                    withdraw_calls :=
                      [\<lparr>tr_amount = 98000, tr_to = ''237670000001'',
                        tr_external_reference = ''INV-7''\<rparr>],
                    payouts :=
                      [\<lparr>po_userid = 1, po_amount = 98000, po_method = ''Mobile Money'',
                        po_status = ''paid'', po_invoice_id = 7,
                        po_invoice_number = ''INV-7''\<rparr>],
                    invoices :=
                      [\<lparr>inv_id = 7, inv_invoicenumber = ''INV-7'', inv_userid = 1,
                        inv_amount = 100000, inv_status = ''completed''\<rparr>,
                       \<lparr>inv_id = 8, inv_invoicenumber = ''INV-8'', inv_userid = 1,
                        inv_amount = 60000, inv_status = ''paid''\<rparr>,
                       \<lparr>inv_id = 9, inv_invoicenumber = ''INV-9'', inv_userid = 1,
                        inv_amount = 50000, inv_status = ''pending''\<rparr>],
                    referral_earnings :=
                      [\<lparr>re_referrer_userid = 2, re_referred_userid = 1,
                        re_invoice_number = ''INV-7'', re_invoice_amount = 100000,
                        re_earned_amount = 500\<rparr>]\<rparr>)"
    by (simp add: executePayout_def exec_numeral claim_code_def Let_def compute_fees_def
          TOTAL_FEE_RATE_def REFERRAL_FEE_RATE_def payout_credit_def insert_earning_def
          credit_balance_def in_int4_def gw_up_def limit_world_def demo_world_def)
  show ?thesis
    unfolding twice many pay
    by (simp add: once bal) (simp add: limit_world_def demo_world_def demo_credit_def has_earning_def)
qed

text \<open>
  C6, amended. Running the referral-credit block twice for one invoice or milestone
  identifier, one run after the other or interleaved, credits the referrer at most once:
  the earnings insert ignores a conflict on the identifier, and the balance update runs
  only in the request whose insert returned a row. Once all \<open>n\<close> requests have finished,
  under any schedule, the world is the one a single run leaves; at no moment has the
  balance moved by more than one share. A single run on an identifier without an
  earnings row, the referrer and the referred seller being users, adds one earnings row;
  it adds the share to the referrer's balance when the share and the new balance fit the
  \<open>INTEGER\<close> column, and leaves every balance as it was when they do not. A run that
  cannot insert (the identifier is recorded, or a user is missing) changes nothing. The
  block is the last two statements of \<open>executePayout\<close> and of the milestone release.
\<close>

theorem referral_credit_exactly_once:
  "(list_all (\<lambda>p. snd p = CR_Done) (fst (credit_many sch n c w)) \<and> 0 < n
      \<longrightarrow> snd (credit_many sch n c w) = credit_once c w)
   \<and> (users (snd (credit_many sch n c w)) = users w
        \<or> users (snd (credit_many sch n c w)) = users (credit_once c w))
   \<and> credit_once c (credit_once c w) = credit_once c w
   \<and> (earning_insertable c w
        \<longrightarrow> length (filter (\<lambda>r. re_invoice_number r = cr_invoice_number c)
                       (referral_earnings (credit_once c w))) = 1)
   \<and> (earning_insertable c w \<and> in_int4 (cr_earned_amount c)
        \<and> list_all (\<lambda>u. usr_id u = cr_referrer_userid c
                          \<longrightarrow> in_int4 (usr_referral_balance u + cr_earned_amount c)) (users w)
        \<longrightarrow> users (credit_once c w)
              = map (\<lambda>u. if usr_id u = cr_referrer_userid c
                         then u\<lparr>usr_referral_balance := usr_referral_balance u + cr_earned_amount c\<rparr>
                         else u) (users w))
   \<and> (earning_insertable c w
        \<and> \<not> (in_int4 (cr_earned_amount c)
              \<and> list_all (\<lambda>u. usr_id u = cr_referrer_userid c
                               \<longrightarrow> in_int4 (usr_referral_balance u + cr_earned_amount c)) (users w))
        \<longrightarrow> users (credit_once c w) = users w)
   \<and> (\<not> earning_insertable c w \<longrightarrow> credit_once c w = w)
   \<and> exec payout_step gw 2 ((i, EP_InsertEarning c), w) = ((i, EP_Returned), credit_once c w)
   \<and> exec release_step gw 2 ((t, MR_InsertEarning l c), w)
       = (if earning_insertable c w then ((t, MR_CountRemaining l), credit_once c w)
          else exec release_step gw 1 ((t, MR_CountRemaining l), w))"
proof -
  have rows: "length (filter (\<lambda>r. re_invoice_number r = cr_invoice_number c)
                       (referral_earnings (credit_once c w))) = 1"
    if a: "earning_insertable c w"
  proof -
    from a have "filter (\<lambda>r. re_invoice_number r = cr_invoice_number c) (referral_earnings w) = []"
      by (auto simp: earning_insertable_def has_earning_def list_ex_iff filter_empty_conv)
    then show ?thesis by (simp add: credit_once_fresh(1)[OF a])
  qed
  have fits: "users (credit_once c w)
              = map (\<lambda>u. if usr_id u = cr_referrer_userid c
                         then u\<lparr>usr_referral_balance := usr_referral_balance u + cr_earned_amount c\<rparr>
                         else u) (users w)"
    if "earning_insertable c w \<and> in_int4 (cr_earned_amount c)
        \<and> list_all (\<lambda>u. usr_id u = cr_referrer_userid c
                          \<longrightarrow> in_int4 (usr_referral_balance u + cr_earned_amount c)) (users w)"
    using that credit_once_fresh(2)[of c w] by simp
  have lost: "users (credit_once c w) = users w"
    if "earning_insertable c w
        \<and> \<not> (in_int4 (cr_earned_amount c)
              \<and> list_all (\<lambda>u. usr_id u = cr_referrer_userid c
                               \<longrightarrow> in_int4 (usr_referral_balance u + cr_earned_amount c)) (users w))"
    using that credit_once_fresh(2)[of c w] by presburger
  show ?thesis
    apply (intro conjI impI)
            apply (rule credit_many_finished; simp)
           apply (rule credit_many_any_time)
          apply (rule credit_once_idem)
         apply (erule rows)
        apply (erule fits)
       apply (erule lost)
      apply (erule credit_once_idle)
     apply (rule credit_in_payout)
    apply (rule credit_in_release)
    done
qed

theorem referral_credit_exactly_once_witness:
  "list_all (\<lambda>p. snd p = CR_Done)
     (fst (credit_many [(0, ()), (1, ()), (0, ())] 2 demo_credit demo_world))
   \<and> (0::nat) < 2
   \<and> earning_insertable demo_credit demo_world
   \<and> in_int4 (cr_earned_amount demo_credit)
   \<and> list_all (\<lambda>u. usr_id u = cr_referrer_userid demo_credit
                    \<longrightarrow> in_int4 (usr_referral_balance u + cr_earned_amount demo_credit))
        (users demo_world)
   \<and> snd (credit_many [(0, ()), (1, ()), (0, ())] 2 demo_credit demo_world)
       = credit_once demo_credit demo_world
   \<and> map usr_referral_balance (users (credit_once demo_credit demo_world)) = [0, 4500]
   \<and> length (filter (\<lambda>r. re_invoice_number r = cr_invoice_number demo_credit)
               (referral_earnings (credit_once demo_credit demo_world))) = 1
   \<and> earning_insertable demo_credit limit_world
   \<and> \<not> (in_int4 (cr_earned_amount demo_credit)
         \<and> list_all (\<lambda>u. usr_id u = cr_referrer_userid demo_credit
                          \<longrightarrow> in_int4 (usr_referral_balance u + cr_earned_amount demo_credit))
              (users limit_world))
   \<and> users (credit_once demo_credit limit_world) = users limit_world
   \<and> \<not> earning_insertable demo_credit (credit_once demo_credit demo_world)
   \<and> credit_once demo_credit (credit_once demo_credit demo_world)
       = credit_once demo_credit demo_world"
proof -
  have fin: "list_all (\<lambda>p. snd p = CR_Done)
     (fst (credit_many [(0, ()), (1, ()), (0, ())] 2 demo_credit demo_world))"
    by (simp add: credit_many_def numeral_2_eq_2 insert_earning_def credit_balance_def in_int4_def
          demo_credit_def demo_world_def)
  have new: "earning_insertable demo_credit demo_world"
    by (simp add: earning_insertable_def has_earning_def demo_credit_def demo_world_def)
  have fit: "in_int4 (cr_earned_amount demo_credit)
     \<and> list_all (\<lambda>u. usr_id u = cr_referrer_userid demo_credit
                    \<longrightarrow> in_int4 (usr_referral_balance u + cr_earned_amount demo_credit))
        (users demo_world)"
    by (simp add: in_int4_def demo_credit_def demo_world_def)
  have new': "earning_insertable demo_credit limit_world"
    by (simp add: earning_insertable_def has_earning_def demo_credit_def limit_world_def
          demo_world_def)
  have nofit: "\<not> (in_int4 (cr_earned_amount demo_credit)
         \<and> list_all (\<lambda>u. usr_id u = cr_referrer_userid demo_credit
                          \<longrightarrow> in_int4 (usr_referral_balance u + cr_earned_amount demo_credit))
              (users limit_world))"
    by (simp add: in_int4_def demo_credit_def limit_world_def demo_world_def)
  have old: "\<not> earning_insertable demo_credit (credit_once demo_credit demo_world)"
    using credit_once_has[OF new] by (simp add: earning_insertable_def)
  have bal: "map usr_referral_balance
               (map (\<lambda>u. if usr_id u = cr_referrer_userid demo_credit
                      then u\<lparr>usr_referral_balance := usr_referral_balance u + cr_earned_amount demo_credit\<rparr>
                      else u) (users demo_world)) = [0, 4500]"
    by (simp add: demo_credit_def demo_world_def)
  note t1 = referral_credit_exactly_once[of "[(0, ()), (1, ()), (0, ())]" 2 demo_credit demo_world]
  note t2 = referral_credit_exactly_once[of "[]" 0 demo_credit limit_world]
  note t3 = referral_credit_exactly_once[of "[]" 0 demo_credit "credit_once demo_credit demo_world"]
  from t1 fin have c1: "snd (credit_many [(0, ()), (1, ()), (0, ())] 2 demo_credit demo_world)
       = credit_once demo_credit demo_world" by simp
  from t1 new fit bal have c2: "map usr_referral_balance (users (credit_once demo_credit demo_world)) = [0, 4500]"
    by simp
  from t1 new have c3: "length (filter (\<lambda>r. re_invoice_number r = cr_invoice_number demo_credit)
               (referral_earnings (credit_once demo_credit demo_world))) = 1" by blast
  from t2 new' nofit have c4: "users (credit_once demo_credit limit_world) = users limit_world"
    by blast
  from t3 old have c5: "credit_once demo_credit (credit_once demo_credit demo_world)
       = credit_once demo_credit demo_world" by blast
  from fin new fit c1 c2 c3 new' nofit c4 old c5 show ?thesis by simp
qed

subsection \<open>Release routes\<close>

lemma show_nat_7: "show_nat 7 = ''7''"
  by (simp add: show_nat.simps)

text \<open>
  C8. The two confirmation pages are read-only: for any store and any token, the GET of
  the link-based payout page and the GET of the milestone release page return the store
  as they found it, the log of transfer requests included. The POST is what executes the
  claim: on the sample store it flips the confirmation row, or releases the milestone.
\<close>

theorem confirmation_pages_read_only:
  "snd (verify_payout_get token ident w) = w
   \<and> snd (release_milestone_get token w) = w
   \<and> map cc_is_used (confirmation_codes demo_world) = [False]
   \<and> map cc_is_used (confirmation_codes (snd (verify_payout_post gw_up ''tok7'' ''7'' demo_world))) = [True]
   \<and> map ms_status (invoice_milestones demo_world) = [''completed'', ''pending'']
   \<and> map ms_status (invoice_milestones (snd (release_milestone_post gw_up ''rel1'' demo_world)))
       = [''released'', ''pending'']"
proof -
  have "snd (verify_payout_get token ident w) = w"
    by (simp add: verify_payout_get_def split: option.splits)
  moreover have "snd (release_milestone_get token w) = w"
    by (simp add: release_milestone_get_def split: option.splits)
  moreover have "map cc_is_used (confirmation_codes demo_world) = [False]"
    "map ms_status (invoice_milestones demo_world) = [''completed'', ''pending'']"
    by (simp_all add: demo_world_def)
  moreover have "map cc_is_used (confirmation_codes (snd (verify_payout_post gw_up ''tok7'' ''7'' demo_world))) = [True]"
    by (simp add: verify_payout_post_def executePayoutLink_def demo_world_def gw_up_def
          exec_numeral show_nat_7 claim_code_def compute_fees_def TOTAL_FEE_RATE_def
          REFERRAL_FEE_RATE_def Let_def payout_credit_def insert_earning_def credit_balance_def in_int4_def)
  moreover have "map ms_status (invoice_milestones (snd (release_milestone_post gw_up ''rel1'' demo_world)))
       = [''released'', ''pending'']"
    by (simp add: release_milestone_post_def demo_world_def gw_up_def exec_numeral
        lock_milestone_def compute_fees_def TOTAL_FEE_RATE_def REFERRAL_FEE_RATE_def Let_def
        release_credit_def insert_earning_def credit_balance_def in_int4_def)
  ultimately show ?thesis by blast
qed

text \<open>
  C9, as the spec states it, fails: the answer of \<open>POST /release-funds\<close> tells an unknown
  invoice number from a known one. On the sample store the same wrong code is answered 404
  "Invoice INV-404 does not exist." for the unknown number and 401 "The code you entered is
  incorrect" for invoice INV-7.
\<close>

theorem release_by_code_reveals_invoice:
  "fst (release_funds gw_up ''WRONG123'' ''INV-404'' demo_world) = no_such_invoice ''INV-404''
   \<and> fst (release_funds gw_up ''WRONG123'' ''INV-7'' demo_world) = wrong_code
   \<and> fst (release_funds gw_up ''WRONG123'' ''INV-404'' demo_world)
       \<noteq> fst (release_funds gw_up ''WRONG123'' ''INV-7'' demo_world)"
  by (simp add: release_funds_def demo_world_def no_such_invoice_def wrong_code_def)

text \<open>
  C9, amended. A release by code that is rejected leaves the store and the log of
  transfers as they were, but the rejection is specific: the answer is the 404 "Invoice N
  does not exist." exactly when no invoice has the number; for an invoice that exists, is
  not completed, is paid and has an unused code, a wrong code is answered 401 "The code
  you entered is incorrect".
\<close>

theorem release_by_code_rejections:
  assumes "code \<noteq> []" and "invoiceNumber \<noteq> []"
  shows "(fst (release_funds gw code invoiceNumber w) = no_such_invoice invoiceNumber
            \<longleftrightarrow> find (\<lambda>r. inv_invoicenumber r = invoiceNumber) (invoices w) = None)
     \<and> (\<forall>invoice payment codeRow.
            find (\<lambda>r. inv_invoicenumber r = invoiceNumber) (invoices w) = Some invoice
            \<and> inv_status invoice \<noteq> ''completed''
            \<and> find (\<lambda>p. pay_invoiceid p = inv_id invoice) (payments w) = Some payment
            \<and> pay_status payment = ''paid''
            \<and> find (\<lambda>c. cc_code_id c = inv_id invoice) (confirmation_codes w) = Some codeRow
            \<and> \<not> cc_is_used codeRow \<and> cc_code codeRow \<noteq> code
            \<longrightarrow> release_funds gw code invoiceNumber w = (wrong_code, w))
     \<and> (http_status (fst (release_funds gw code invoiceNumber w)) \<in> {400, 401, 404}
            \<longrightarrow> snd (release_funds gw code invoiceNumber w) = w)"
proof (intro conjI allI impI)
  show "fst (release_funds gw code invoiceNumber w) = no_such_invoice invoiceNumber
          \<longleftrightarrow> find (\<lambda>r. inv_invoicenumber r = invoiceNumber) (invoices w) = None"
    using assms
    by (auto simp: release_funds_def no_such_invoice_def
             split: option.splits prod.splits payout_state.splits)
next
  fix invoice payment codeRow
  assume "find (\<lambda>r. inv_invoicenumber r = invoiceNumber) (invoices w) = Some invoice
            \<and> inv_status invoice \<noteq> ''completed''
            \<and> find (\<lambda>p. pay_invoiceid p = inv_id invoice) (payments w) = Some payment
            \<and> pay_status payment = ''paid''
            \<and> find (\<lambda>c. cc_code_id c = inv_id invoice) (confirmation_codes w) = Some codeRow
            \<and> \<not> cc_is_used codeRow \<and> cc_code codeRow \<noteq> code"
  with assms show "release_funds gw code invoiceNumber w = (wrong_code, w)"
    by (simp add: release_funds_def wrong_code_def)
next
  assume "http_status (fst (release_funds gw code invoiceNumber w)) \<in> {400, 401, 404}"
  then show "snd (release_funds gw code invoiceNumber w) = w"
    by (auto simp: release_funds_def split: if_splits option.splits prod.splits payout_state.splits)
qed

theorem release_by_code_rejections_witness:
  "''WRONG123'' \<noteq> [] \<and> ''INV-7'' \<noteq> []
   \<and> find (\<lambda>r. inv_invoicenumber r = ''INV-7'') (invoices demo_world) \<noteq> None
   \<and> fst (release_funds gw_up ''WRONG123'' ''INV-7'' demo_world) \<noteq> no_such_invoice ''INV-7''
   \<and> http_status (fst (release_funds gw_up ''WRONG123'' ''INV-7'' demo_world)) \<in> {400, 401, 404}
   \<and> snd (release_funds gw_up ''WRONG123'' ''INV-7'' demo_world) = demo_world"
proof -
  have a: "''WRONG123'' \<noteq> []" "''INV-7'' \<noteq> []" by simp_all
  have f: "find (\<lambda>r. inv_invoicenumber r = ''INV-7'') (invoices demo_world) \<noteq> None"
    by (simp add: demo_world_def)
  have s: "http_status (fst (release_funds gw_up ''WRONG123'' ''INV-7'' demo_world)) \<in> {400, 401, 404}"
    by (simp add: release_funds_def demo_world_def)
  note t = release_by_code_rejections[OF a, of gw_up demo_world]
  from t f have n: "fst (release_funds gw_up ''WRONG123'' ''INV-7'' demo_world) \<noteq> no_such_invoice ''INV-7''"
    by blast
  from t s have u: "snd (release_funds gw_up ''WRONG123'' ''INV-7'' demo_world) = demo_world"
    by blast
  from a f n s u show ?thesis by blast
qed

subsection \<open>Marking a milestone complete\<close>

lemma find_some_ex: "find P xs \<noteq> None \<longleftrightarrow> list_ex P xs"
  by (auto simp: find_None_iff list_ex_iff)

lemma store_ok_advance:
  assumes ok: "milestone_store_ok w"
    and g: "set (guests w) \<subseteq> set (guests w')"
    and i: "map inv_id (invoices w') = map inv_id (invoices w)"
    and m: "invoice_milestones w' = map f (invoice_milestones w)"
    and f: "\<And>x. x \<in> set (invoice_milestones w) \<Longrightarrow>
              ms_id (f x) = ms_id x \<and> ms_invoice_id (f x) = ms_invoice_id x
              \<and> ms_invoice_number (f x) = ms_invoice_number x
              \<and> ms_milestone_number (f x) = ms_milestone_number x
              \<and> (ms_status (f x) = ''completed'' \<or> ms_status (f x) = ''released''
                   \<longrightarrow> ms_status x = ''completed'' \<or> ms_status x = ''released''
                       \<or> (\<exists>g \<in> set (guests w'). gs_invoicenumber g = ms_invoice_number x))"
  shows "milestone_store_ok w'"
proof -
  have fk: "ms_id (f x) = ms_id x" "ms_invoice_id (f x) = ms_invoice_id x"
      "ms_invoice_number (f x) = ms_invoice_number x"
      "ms_milestone_number (f x) = ms_milestone_number x"
    if "x \<in> set (invoice_milestones w)" for x
    using f[OF that] by simp_all
  have fs: "ms_status x = ''completed'' \<or> ms_status x = ''released''
             \<or> (\<exists>g \<in> set (guests w'). gs_invoicenumber g = ms_invoice_number x)"
    if "x \<in> set (invoice_milestones w)"
       "ms_status (f x) = ''completed'' \<or> ms_status (f x) = ''released''" for x
    using f[OF that(1)] that(2) by blast
  have ids: "map ms_id (map f (invoice_milestones w)) = map ms_id (invoice_milestones w)"
    by (simp add: fk(1))
  have inv: "inv_id ` set (invoices w') = inv_id ` set (invoices w)"
    using arg_cong[OF i, of set] by simp
  from ok have d: "distinct (map ms_id (invoice_milestones w))"
    by (simp add: milestone_store_ok_def milestones_numbered_def)
  from ok have c1: "list_all (\<lambda>m. ms_milestone_number m > 1 \<longrightarrow>
                    list_ex (\<lambda>m'. ms_invoice_id m' = ms_invoice_id m
                                  \<and> ms_milestone_number m' < ms_milestone_number m)
                            (invoice_milestones w)) (invoice_milestones w)"
    and c2: "list_all (\<lambda>m. list_all (\<lambda>m'. ms_invoice_id m' = ms_invoice_id m
                                       \<longrightarrow> ms_invoice_number m' = ms_invoice_number m)
                             (invoice_milestones w)) (invoice_milestones w)"
    and c3: "list_all (\<lambda>m. list_ex (\<lambda>r. inv_id r = ms_invoice_id m) (invoices w))
                  (invoice_milestones w)"
    and c4: "list_all (\<lambda>m. ms_status m = ''completed'' \<or> ms_status m = ''released'' \<longrightarrow>
                   list_ex (\<lambda>g. gs_invoicenumber g = ms_invoice_number m) (guests w))
              (invoice_milestones w)"
    by (simp_all add: milestone_store_ok_def milestones_numbered_def buyers_known_def)
  have n1: "\<exists>y \<in> set (invoice_milestones w). ms_invoice_id y = ms_invoice_id x
              \<and> ms_milestone_number y < ms_milestone_number x"
    if "x \<in> set (invoice_milestones w)" "ms_milestone_number x > 1" for x
    using c1 that unfolding list_all_iff list_ex_iff by blast
  have n2: "ms_invoice_number y = ms_invoice_number x"
    if "x \<in> set (invoice_milestones w)" "y \<in> set (invoice_milestones w)"
       "ms_invoice_id y = ms_invoice_id x" for x y
    using c2 that unfolding list_all_iff by blast
  have n3: "ms_invoice_id x \<in> inv_id ` set (invoices w)"
    if "x \<in> set (invoice_milestones w)" for x
    using c3 that unfolding list_all_iff list_ex_iff by force
  have b: "\<exists>g \<in> set (guests w). gs_invoicenumber g = ms_invoice_number x"
    if "x \<in> set (invoice_milestones w)" "ms_status x = ''completed'' \<or> ms_status x = ''released''" for x
    using c4 that unfolding list_all_iff list_ex_iff by blast
  have "distinct (map ms_id (invoice_milestones w'))"
    unfolding m ids by (rule d)
  moreover have "list_all (\<lambda>m. ms_milestone_number m > 1 \<longrightarrow>
                    list_ex (\<lambda>m'. ms_invoice_id m' = ms_invoice_id m
                                  \<and> ms_milestone_number m' < ms_milestone_number m)
                            (invoice_milestones w')) (invoice_milestones w')"
    unfolding m list_all_iff list_ex_iff
  proof (intro ballI impI)
    fix y assume y: "y \<in> set (map f (invoice_milestones w))" and gt: "1 < ms_milestone_number y"
    then obtain x where x: "x \<in> set (invoice_milestones w)" "y = f x" by auto
    with gt fk(4)[OF x(1)] have "1 < ms_milestone_number x" by simp
    from n1[OF x(1) this] obtain z where z: "z \<in> set (invoice_milestones w)"
      "ms_invoice_id z = ms_invoice_id x" "ms_milestone_number z < ms_milestone_number x" by blast
    with fk[OF z(1)] fk[OF x(1)] x(2)
    show "\<exists>m' \<in> set (map f (invoice_milestones w)).
            ms_invoice_id m' = ms_invoice_id y \<and> ms_milestone_number m' < ms_milestone_number y"
      by (intro bexI[of _ "f z"]) simp_all
  qed
  moreover have "list_all (\<lambda>m. list_all (\<lambda>m'. ms_invoice_id m' = ms_invoice_id m
                                       \<longrightarrow> ms_invoice_number m' = ms_invoice_number m)
                             (invoice_milestones w')) (invoice_milestones w')"
    unfolding m list_all_iff
  proof (intro ballI impI)
    fix y z assume "y \<in> set (map f (invoice_milestones w))" "z \<in> set (map f (invoice_milestones w))"
      and e: "ms_invoice_id z = ms_invoice_id y"
    then obtain x x' where x: "x \<in> set (invoice_milestones w)" "y = f x"
      and x': "x' \<in> set (invoice_milestones w)" "z = f x'" by auto
    with e fk(2)[OF x(1)] fk(2)[OF x'(1)] have "ms_invoice_id x' = ms_invoice_id x" by simp
    from n2[OF x(1) x'(1) this] fk(3)[OF x(1)] fk(3)[OF x'(1)] x(2) x'(2)
    show "ms_invoice_number z = ms_invoice_number y" by simp
  qed
  moreover have "list_all (\<lambda>m. list_ex (\<lambda>r. inv_id r = ms_invoice_id m) (invoices w'))
                  (invoice_milestones w')"
    unfolding m list_all_iff list_ex_iff
  proof (intro ballI)
    fix y assume "y \<in> set (map f (invoice_milestones w))"
    then obtain x where x: "x \<in> set (invoice_milestones w)" "y = f x" by auto
    from n3[OF x(1)] inv have "ms_invoice_id x \<in> inv_id ` set (invoices w')" by simp
    with fk(2)[OF x(1)] x(2)
    show "\<exists>r \<in> set (invoices w'). inv_id r = ms_invoice_id y" by auto
  qed
  moreover have "buyers_known w'"
    unfolding buyers_known_def m list_all_iff list_ex_iff
  proof (intro ballI impI)
    fix y assume "y \<in> set (map f (invoice_milestones w))"
      and s: "ms_status y = ''completed'' \<or> ms_status y = ''released''"
    then obtain x where x: "x \<in> set (invoice_milestones w)" "y = f x" by auto
    from fs[OF x(1)] s x(2)
    consider "ms_status x = ''completed'' \<or> ms_status x = ''released''"
      | "\<exists>g \<in> set (guests w'). gs_invoicenumber g = ms_invoice_number x" by blast
    then show "\<exists>g \<in> set (guests w'). gs_invoicenumber g = ms_invoice_number y"
    proof cases
      case 1
      from b[OF x(1) 1] g fk(3)[OF x(1)] x(2) show ?thesis by auto
    next
      case 2
      with fk(3)[OF x(1)] x(2) show ?thesis by simp
    qed
  qed
  ultimately show ?thesis by (simp add: milestone_store_ok_def milestones_numbered_def)
qed

lemma store_ok_same:
  assumes "milestone_store_ok w" "guests w' = guests w"
    "map inv_id (invoices w') = map inv_id (invoices w)"
    "invoice_milestones w' = invoice_milestones w"
  shows "milestone_store_ok w'"
  using store_ok_advance[OF assms(1), of w' id] assms(2-4) by simp


lemma map_inv_id_status:
  "map inv_id (map (\<lambda>r. if P r then r\<lparr>inv_status := s\<rparr> else r) xs) = map inv_id xs"
  by (induction xs) simp_all

lemma distinct_same_id:
  assumes "distinct (map ms_id xs)" "x \<in> set xs" "y \<in> set xs" "ms_id x = ms_id y"
  shows "x = y"
  using assms by (auto simp: distinct_map inj_on_def)

lemma find_in_set: "find P xs = Some x \<Longrightarrow> x \<in> set xs \<and> P x"
  by (auto simp: find_Some_iff)

text \<open>
  The two routes that write milestone rows keep the store well formed: marking complete,
  and every statement of the release route (so any interleaving of release requests).
\<close>

lemma milestone_complete_keeps:
  assumes ok: "milestone_store_ok w"
  shows "milestone_store_ok (snd (milestone_complete releaseToken milestone_id w))"
proof -
  let ?f = "\<lambda>m. if ms_id m = milestone_id
                  then m\<lparr>ms_status := ''completed'', ms_release_token := Some releaseToken\<rparr>
                  else m"
  have "snd (milestone_complete releaseToken milestone_id w) = w
      \<or> (\<exists>milestone guest.
            find (\<lambda>m. ms_id m = milestone_id) (invoice_milestones w) = Some milestone
            \<and> find (\<lambda>g. gs_invoicenumber g = ms_invoice_number milestone) (guests w) = Some guest
            \<and> snd (milestone_complete releaseToken milestone_id w)
                = w\<lparr>invoice_milestones := map ?f (invoice_milestones w)\<rparr>)"
    by (auto simp: milestone_complete_def Let_def split: option.splits)
  then consider (same) "snd (milestone_complete releaseToken milestone_id w) = w"
    | (upd) milestone guest where
        "find (\<lambda>m. ms_id m = milestone_id) (invoice_milestones w) = Some milestone"
        "find (\<lambda>g. gs_invoicenumber g = ms_invoice_number milestone) (guests w) = Some guest"
        "snd (milestone_complete releaseToken milestone_id w)
           = w\<lparr>invoice_milestones := map ?f (invoice_milestones w)\<rparr>"
    by blast
  then show ?thesis
  proof cases
    case same
    with ok show ?thesis by simp
  next
    case upd
    from ok have d: "distinct (map ms_id (invoice_milestones w))"
      by (simp add: milestone_store_ok_def milestones_numbered_def)
    from find_in_set[OF upd(1)] have m: "milestone \<in> set (invoice_milestones w)"
      "ms_id milestone = milestone_id" by simp_all
    from find_in_set[OF upd(2)] have g: "guest \<in> set (guests w)"
      "gs_invoicenumber guest = ms_invoice_number milestone" by simp_all
    show ?thesis
      unfolding upd(3)
    proof (rule store_ok_advance[OF ok, where f = ?f])
      fix x assume x: "x \<in> set (invoice_milestones w)"
      have "\<exists>g \<in> set (guests w). gs_invoicenumber g = ms_invoice_number x"
        if "ms_id x = milestone_id"
        using distinct_same_id[OF d x m(1)] that m(2) g by auto
      then show "ms_id (?f x) = ms_id x \<and> ms_invoice_id (?f x) = ms_invoice_id x
              \<and> ms_invoice_number (?f x) = ms_invoice_number x
              \<and> ms_milestone_number (?f x) = ms_milestone_number x
              \<and> (ms_status (?f x) = ''completed'' \<or> ms_status (?f x) = ''released''
                   \<longrightarrow> ms_status x = ''completed'' \<or> ms_status x = ''released''
                       \<or> (\<exists>g \<in> set (guests (w\<lparr>invoice_milestones := map ?f (invoice_milestones w)\<rparr>)).
                             gs_invoicenumber g = ms_invoice_number x))"
        by simp
    qed simp_all
  qed
qed

lemma release_step_rows:
  "release_step gw (t, st) w = (p', w') \<Longrightarrow>
     guests w' = guests w \<and> map inv_id (invoices w') = map inv_id (invoices w)
     \<and> (invoice_milestones w' = invoice_milestones w
         \<or> (\<exists>k. invoice_milestones w'
                  = map (\<lambda>m. if ms_id m = k \<and> ms_status m = ''completed''
                              then m\<lparr>ms_status := ''released'', ms_release_token := None\<rparr>
                              else m) (invoice_milestones w)))"
proof (cases st)
  case (MR_Lock m i u)
  assume "release_step gw (t, st) w = (p', w')"
  with MR_Lock show ?thesis
    by (auto simp: lock_milestone_def split: if_splits)
next
  case (MR_InsertEarning l c)
  assume "release_step gw (t, st) w = (p', w')"
  with MR_InsertEarning show ?thesis
    by (auto simp: insert_earning_def split: if_splits sum.splits prod.splits bool.splits)
next
  case (MR_CreditBalance l c)
  assume "release_step gw (t, st) w = (p', w')"
  with MR_CreditBalance show ?thesis
    by (auto simp: credit_balance_def split: if_splits sum.splits)
next
  case (MR_MarkCompleted l)
  assume "release_step gw (t, st) w = (p', w')"
  with MR_MarkCompleted show ?thesis
    by (auto simp: map_inv_id_status)
qed (auto simp: Let_def split: option.splits if_splits)

lemma release_step_keeps:
  assumes ok: "milestone_store_ok w" and st: "release_step gw p w = (p', w')"
  shows "milestone_store_ok w'"
proof -
  obtain t s where p: "p = (t, s)" by (cases p)
  from release_step_rows[OF st[unfolded p]]
  have g: "guests w' = guests w" and i: "map inv_id (invoices w') = map inv_id (invoices w)"
    and m: "invoice_milestones w' = invoice_milestones w
         \<or> (\<exists>k. invoice_milestones w'
                  = map (\<lambda>m. if ms_id m = k \<and> ms_status m = ''completed''
                              then m\<lparr>ms_status := ''released'', ms_release_token := None\<rparr>
                              else m) (invoice_milestones w))"
    by simp_all
  from m show ?thesis
  proof
    assume "invoice_milestones w' = invoice_milestones w"
    with ok g i show ?thesis by (rule store_ok_same)
  next
    assume "\<exists>k. invoice_milestones w'
                  = map (\<lambda>m. if ms_id m = k \<and> ms_status m = ''completed''
                              then m\<lparr>ms_status := ''released'', ms_release_token := None\<rparr>
                              else m) (invoice_milestones w)"
    then obtain k where k: "invoice_milestones w'
                  = map (\<lambda>m. if ms_id m = k \<and> ms_status m = ''completed''
                              then m\<lparr>ms_status := ''released'', ms_release_token := None\<rparr>
                              else m) (invoice_milestones w)" ..
    show ?thesis
      by (rule store_ok_advance[OF ok _ i k]) (simp_all add: g)
  qed
qed

lemma release_many_keeps:
  assumes "milestone_store_ok w"
  shows "milestone_store_ok (snd (release_many sch tokens w))"
proof -
  have "milestone_store_ok (snd (run release_step sch (map (\<lambda>t. (t, MR_Find)) tokens, w)))"
    by (rule run_invariant[where I = "\<lambda>ps w. milestone_store_ok w", OF assms])
       (rule release_step_keeps)
  then show ?thesis by (simp add: release_many_def)
qed

text \<open>
  C7. For a milestone numbered above 1, marking it complete is refused with status 400
  and no change (no status change, no token) whenever a lower-numbered milestone of its
  invoice is not released; when the milestone is pending the refusal is the ordering
  message. Once all lower-numbered milestones are released and the milestone is pending,
  marking it complete succeeds: status 200, and the row gets status \<open>completed\<close> and the
  new release token. The store is one the routes can have left: a lower-numbered
  milestone exists and was released, so the buyer's guest row, found when that milestone
  was marked complete, is there.
\<close>

theorem complete_in_order:
  assumes "milestone_store_ok w"
    and "find (\<lambda>m. ms_id m = milestone_id) (invoice_milestones w) = Some milestone"
    and "ms_milestone_number milestone > 1"
  shows "(unreleased_before (ms_invoice_id milestone) (ms_milestone_number milestone) w \<noteq> []
            \<longrightarrow> http_status (fst (milestone_complete releaseToken milestone_id w)) = 400
                \<and> snd (milestone_complete releaseToken milestone_id w) = w)
     \<and> (unreleased_before (ms_invoice_id milestone) (ms_milestone_number milestone) w \<noteq> []
          \<and> ms_status milestone = ''pending''
            \<longrightarrow> body (fst (milestone_complete releaseToken milestone_id w))
                  = ''Previous milestones must be released before marking this one complete.'')
     \<and> (unreleased_before (ms_invoice_id milestone) (ms_milestone_number milestone) w = []
          \<and> ms_status milestone = ''pending''
            \<longrightarrow> http_status (fst (milestone_complete releaseToken milestone_id w)) = 200
                \<and> invoice_milestones (snd (milestone_complete releaseToken milestone_id w))
                    = map (\<lambda>m. if ms_id m = milestone_id
                                then m\<lparr>ms_status := ''completed'',
                                       ms_release_token := Some releaseToken\<rparr>
                                else m) (invoice_milestones w))"
proof -
  note ok = assms(1) and fm = assms(2) and gt = assms(3)
  have refuse: "http_status (fst (milestone_complete releaseToken milestone_id w)) = 400
                \<and> snd (milestone_complete releaseToken milestone_id w) = w"
    if "unreleased_before (ms_invoice_id milestone) (ms_milestone_number milestone) w \<noteq> []"
    using that fm gt
    by (auto simp: milestone_complete_def unreleased_before_def Let_def split: option.splits)
  have message: "body (fst (milestone_complete releaseToken milestone_id w))
                  = ''Previous milestones must be released before marking this one complete.''"
    if "unreleased_before (ms_invoice_id milestone) (ms_milestone_number milestone) w \<noteq> []
          \<and> ms_status milestone = ''pending''"
    using that fm gt
    by (auto simp: milestone_complete_def unreleased_before_def Let_def split: option.splits)
  have accept: "http_status (fst (milestone_complete releaseToken milestone_id w)) = 200
                \<and> invoice_milestones (snd (milestone_complete releaseToken milestone_id w))
                    = map (\<lambda>m. if ms_id m = milestone_id
                                then m\<lparr>ms_status := ''completed'',
                                       ms_release_token := Some releaseToken\<rparr>
                                else m) (invoice_milestones w)"
    if a: "unreleased_before (ms_invoice_id milestone) (ms_milestone_number milestone) w = []
          \<and> ms_status milestone = ''pending''"
  proof -
    from find_in_set[OF fm] have m: "milestone \<in> set (invoice_milestones w)" by simp
    from ok have c1: "list_all (\<lambda>m. ms_milestone_number m > 1 \<longrightarrow>
                    list_ex (\<lambda>m'. ms_invoice_id m' = ms_invoice_id m
                                  \<and> ms_milestone_number m' < ms_milestone_number m)
                            (invoice_milestones w)) (invoice_milestones w)"
      and c2: "list_all (\<lambda>m. list_all (\<lambda>m'. ms_invoice_id m' = ms_invoice_id m
                                       \<longrightarrow> ms_invoice_number m' = ms_invoice_number m)
                             (invoice_milestones w)) (invoice_milestones w)"
      and c3: "list_all (\<lambda>m. list_ex (\<lambda>r. inv_id r = ms_invoice_id m) (invoices w))
                  (invoice_milestones w)"
      and c4: "list_all (\<lambda>m. ms_status m = ''completed'' \<or> ms_status m = ''released'' \<longrightarrow>
                   list_ex (\<lambda>g. gs_invoicenumber g = ms_invoice_number m) (guests w))
              (invoice_milestones w)"
      by (simp_all add: milestone_store_ok_def milestones_numbered_def buyers_known_def)
    from c1 m gt obtain lower where l: "lower \<in> set (invoice_milestones w)"
      "ms_invoice_id lower = ms_invoice_id milestone"
      "ms_milestone_number lower < ms_milestone_number milestone"
      unfolding list_all_iff list_ex_iff by blast
    from a l have "ms_status lower = ''released''"
      by (auto simp: unreleased_before_def filter_empty_conv)
    with c4 l(1) have "list_ex (\<lambda>g. gs_invoicenumber g = ms_invoice_number lower) (guests w)"
      unfolding list_all_iff by blast
    moreover from c2 m l(1,2) have "ms_invoice_number lower = ms_invoice_number milestone"
      unfolding list_all_iff by blast
    ultimately have "list_ex (\<lambda>g. gs_invoicenumber g = ms_invoice_number milestone) (guests w)"
      by simp
    then have "find (\<lambda>g. gs_invoicenumber g = ms_invoice_number milestone) (guests w) \<noteq> None"
      unfolding find_some_ex .
    then obtain guest where
      g: "find (\<lambda>g. gs_invoicenumber g = ms_invoice_number milestone) (guests w) = Some guest"
      by blast
    from c3 m have "find (\<lambda>r. inv_id r = ms_invoice_id milestone) (invoices w) \<noteq> None"
      unfolding list_all_iff find_some_ex by blast
    then obtain invoice where
      i: "find (\<lambda>r. inv_id r = ms_invoice_id milestone) (invoices w) = Some invoice"
      by blast
    from a have "filter (\<lambda>m. ms_invoice_id m = ms_invoice_id milestone
                             \<and> ms_milestone_number m < ms_milestone_number milestone
                             \<and> ms_status m \<noteq> ''released'') (invoice_milestones w) = []"
      by (simp add: unreleased_before_def)
    with a fm g i show ?thesis
      by (simp add: milestone_complete_def Let_def)
  qed
  from refuse message accept show ?thesis by blast
qed

theorem complete_in_order_witness:
  "milestone_store_ok buyer_world
   \<and> find (\<lambda>m. ms_id m = 2) (invoice_milestones buyer_world) \<noteq> None
   \<and> unreleased_before 8 2 buyer_world \<noteq> []
   \<and> milestone_complete ''r2'' 2 buyer_world
       = (\<lparr>http_status = 400,
           body = ''Previous milestones must be released before marking this one complete.''\<rparr>,
          buyer_world)
   \<and> milestone_store_ok released_world
   \<and> unreleased_before 8 2 released_world = []
   \<and> http_status (fst (milestone_complete ''r2'' 2 released_world)) = 200
   \<and> map ms_status (invoice_milestones (snd (milestone_complete ''r2'' 2 released_world)))
       = [''released'', ''completed'']
   \<and> map ms_release_token (invoice_milestones (snd (milestone_complete ''r2'' 2 released_world)))
       = [None, Some ''r2'']"
proof -
  let ?m2 = "\<lparr>ms_id = 2, ms_invoice_id = 8, ms_invoice_number = ''INV-8'', ms_milestone_number = 2,
              ms_label = ''Build'', ms_amount = 40000, ms_status = ''pending'',
              ms_release_token = None\<rparr>"
  have ok1: "milestone_store_ok buyer_world"
    by (simp add: milestone_store_ok_def milestones_numbered_def buyers_known_def
          buyer_world_def demo_world_def)
  have rows: "invoice_milestones released_world
       = [\<lparr>ms_id = 1, ms_invoice_id = 8, ms_invoice_number = ''INV-8'', ms_milestone_number = 1,
           ms_label = ''Design'', ms_amount = 20000, ms_status = ''released'',
           ms_release_token = None\<rparr>, ?m2]"
    by (simp add: released_world_def release_milestone_post_def exec_numeral lock_milestone_def
          Let_def compute_fees_def TOTAL_FEE_RATE_def REFERRAL_FEE_RATE_def release_credit_def
          insert_earning_def credit_balance_def in_int4_def gw_up_def buyer_world_def
          demo_world_def show_nat.simps)
  have ok2: "milestone_store_ok released_world"
    unfolding released_world_def release_milestone_post_def
    using exec_invariant[where I = "\<lambda>p w. milestone_store_ok w" and step = release_step
            and e = gw_up and p = "(''rel1'', MR_Find)" and w = buyer_world and n = 12, OF ok1]
      release_step_keeps
    by (auto simp: split_beta prod_eq_iff)
  have f1: "find (\<lambda>m. ms_id m = 2) (invoice_milestones buyer_world) = Some ?m2"
    by (simp add: buyer_world_def demo_world_def)
  have f2: "find (\<lambda>m. ms_id m = 2) (invoice_milestones released_world) = Some ?m2"
    by (simp add: rows)
  have n: "ms_milestone_number ?m2 > 1" by simp
  have u1: "unreleased_before 8 2 buyer_world \<noteq> []"
    by (simp add: unreleased_before_def buyer_world_def demo_world_def)
  have u2: "unreleased_before 8 2 released_world = []"
    by (simp add: unreleased_before_def rows)
  note t1 = complete_in_order[OF ok1 f1 n, of "''r2''"]
  note t2 = complete_in_order[OF ok2 f2 n, of "''r2''"]
  from t1 u1 have r1: "http_status (fst (milestone_complete ''r2'' 2 buyer_world)) = 400"
    "snd (milestone_complete ''r2'' 2 buyer_world) = buyer_world"
    "body (fst (milestone_complete ''r2'' 2 buyer_world))
       = ''Previous milestones must be released before marking this one complete.''"
    by simp_all
  then have e1: "milestone_complete ''r2'' 2 buyer_world
       = (\<lparr>http_status = 400,
           body = ''Previous milestones must be released before marking this one complete.''\<rparr>,
          buyer_world)"
    by (cases "milestone_complete ''r2'' 2 buyer_world") auto
  from t2 u2 have r2: "http_status (fst (milestone_complete ''r2'' 2 released_world)) = 200"
    "invoice_milestones (snd (milestone_complete ''r2'' 2 released_world))
       = map (\<lambda>m. if ms_id m = 2 then m\<lparr>ms_status := ''completed'', ms_release_token := Some ''r2''\<rparr>
                   else m) (invoice_milestones released_world)"
    by simp_all
  have r3: "map ms_status (invoice_milestones (snd (milestone_complete ''r2'' 2 released_world)))
       = [''released'', ''completed'']"
    "map ms_release_token (invoice_milestones (snd (milestone_complete ''r2'' 2 released_world)))
       = [None, Some ''r2'']"
    unfolding r2(2) by (simp_all add: rows)
  from ok1 f1 u1 e1 ok2 u2 r2(1) r3 show ?thesis by simp
qed

subsection \<open>Processing a successful payment\<close>

lemma psp_step_fst: "psp_step e p w = (p', w') \<Longrightarrow> fst p' = fst p"
proof -
  obtain u s where p: "p = (u, s)" by (cases p)
  assume "psp_step e p w = (p', w')"
  with p show ?thesis
    by (cases s) (auto split: if_splits option.splits)
qed

lemma psp_step_claim:
  assumes "psp_step e (u, PP_Claim) w = ((u', st'), w')"
  shows "(pp_claimed st' \<longleftrightarrow> unprocessed u w) \<and> \<not> pp_marked st' \<and> \<not> pp_minted st'
     \<and> (\<forall>k. unprocessed k w' \<longleftrightarrow> k \<noteq> u \<and> unprocessed k w)
     \<and> confirmation_codes w' = confirmation_codes w"
  using assms by (auto simp: unprocessed_def split: if_splits)

lemma psp_step_other:
  assumes st: "psp_step e (u, st) w = ((u', st'), w')" and nc: "st \<noteq> PP_Claim"
  shows "processed_payments w' = processed_payments w
     \<and> (pp_claimed st' \<longleftrightarrow> pp_claimed st)
     \<and> length (confirmation_codes w') + (if pp_minted st then 1 else 0)
         = length (confirmation_codes w) + (if pp_minted st' then 1 else 0)"
proof (cases st)
  case PP_Claim
  with nc show ?thesis by simp
next
  case (PP_InsertChat p i)
  with st show ?thesis by (auto split: if_splits)
qed (use st in \<open>auto split: if_splits option.splits\<close>)

lemma psp_claim_effect:
  assumes "psp_step e p w = (p', w')"
  shows "claim_effect pp_holds unprocessed p w p' w'"
proof -
  obtain u s where p: "p = (u, s)" by (cases p)
  obtain u' s' where p': "p' = (u', s')" by (cases p')
  from assms p p' have step: "psp_step e (u, s) w = ((u', s'), w')" by simp
  have u': "u' = u" using psp_step_fst[OF assms] p p' by simp
  show ?thesis
  proof (cases "s = PP_Claim")
    case True
    note c = psp_step_claim[OF step[unfolded True]]
    from c have cl: "pp_claimed s' \<longleftrightarrow> unprocessed u w" by blast
    from c have un: "\<forall>k. unprocessed k w' = (k \<noteq> u \<and> unprocessed k w)" by blast
    have "\<forall>k. \<not> pp_holds k p" using p True by (simp add: pp_holds_def)
    moreover have "\<forall>k. pp_holds k p' = (k = u \<and> unprocessed u w)"
      using p' u' cl by (auto simp: pp_holds_def)
    ultimately show ?thesis unfolding claim_effect_def using un by blast
  next
    case False
    note c = psp_step_other[OF step False]
    from c have "processed_payments w' = processed_payments w" by blast
    then have "\<forall>k. unprocessed k w' = unprocessed k w" by (simp add: unprocessed_def)
    moreover from c have "\<forall>k. pp_holds k p' = pp_holds k p"
      using p p' u' by (simp add: pp_holds_def)
    ultimately show ?thesis unfolding claim_effect_def by blast
  qed
qed

lemma psp_counter_effect:
  assumes "psp_step e p w = (p', w')"
  shows "counter_effect (\<lambda>w. length (confirmation_codes w)) (\<lambda>p. pp_minted (snd p)) p w p' w'"
proof -
  obtain u s where p: "p = (u, s)" by (cases p)
  obtain u' s' where p': "p' = (u', s')" by (cases p')
  from assms p p' have step: "psp_step e (u, s) w = ((u', s'), w')" by simp
  show ?thesis
  proof (cases "s = PP_Claim")
    case True
    from psp_step_claim[OF step[unfolded True]] True p p' show ?thesis
      by (simp add: counter_effect_def)
  next
    case False
    from psp_step_other[OF step False] p p' show ?thesis
      by (simp add: counter_effect_def)
  qed
qed

lemma psp_inv_run:
  "psp_inv w0 (fst (process_many sch uuids w0)) (snd (process_many sch uuids w0))"
  unfolding process_many_def
proof (rule run_invariant[where I = "psp_inv w0"])
  have "filter (\<lambda>p. pp_minted (snd p)) (map (\<lambda>u. (u, PP_Claim)) uuids) = []"
    "\<And>k. filter (pp_holds k) (map (\<lambda>u. (u, PP_Claim)) uuids) = []"
    by (simp_all add: filter_empty_conv pp_holds_def)
  then show "psp_inv w0 (map (\<lambda>u. (u, PP_Claim)) uuids) w0"
    by (simp add: psp_inv_def unique_inv_def)
next
  fix j e ps w p' w'
  assume inv: "psp_inv w0 ps w" and j: "j < length ps"
    and st: "psp_step e (ps ! j) w = (p', w')"
  show "psp_inv w0 (ps[j := p']) w'"
    unfolding psp_inv_def
    using unique_inv_step[OF _ j psp_claim_effect[OF st]]
      counter_step[OF _ j psp_counter_effect[OF st]]
      inv[unfolded psp_inv_def]
    by blast
qed

lemma pp_minted_marked: "pp_minted st \<Longrightarrow> pp_marked st"
  by (cases st) auto

lemma pp_marked_claimed: "pp_marked st \<Longrightarrow> pp_claimed st"
  by (cases st) auto

lemma process_many_same:
  "list_all (\<lambda>p. fst p = u) (fst (process_many sch (replicate n u) w))"
  unfolding process_many_def
proof (rule run_invariant[where I = "\<lambda>ps w. list_all (\<lambda>p. fst p = u) ps"])
  show "list_all (\<lambda>p. fst p = u) (map (\<lambda>u. (u, PP_Claim)) (replicate n u))"
    by (simp add: list_all_iff)
next
  fix j e ps w p' w'
  assume a: "list_all (\<lambda>p. fst p = u) ps" "j < length ps" "psp_step e (ps ! j) w = (p', w')"
  then have "fst (ps ! j) = u" by (simp add: list_all_length)
  with psp_step_fst[OF a(3)] have "fst p' = u" by simp
  with a(1) show "list_all (\<lambda>p. fst p = u) (ps[j := p'])"
    by (auto simp: list_all_iff dest: set_update_subset_insert[THEN subsetD])
qed

lemma process_many_once:
  "length (filter (\<lambda>p. pp_claimed (snd p)) (fst (process_many sch (replicate n u) w))) \<le> 1
   \<and> length (filter (\<lambda>p. pp_marked (snd p)) (fst (process_many sch (replicate n u) w))) \<le> 1
   \<and> length (confirmation_codes (snd (process_many sch (replicate n u) w)))
        \<le> length (confirmation_codes w) + 1"
proof -
  let ?ps = "fst (process_many sch (replicate n u) w)"
  let ?w = "snd (process_many sch (replicate n u) w)"
  have inv: "psp_inv w ?ps ?w" by (rule psp_inv_run)
  have "filter (\<lambda>p. pp_claimed (snd p)) ?ps = filter (pp_holds u) ?ps"
    using process_many_same[of u sch n w]
    by (intro filter_cong refl) (auto simp: pp_holds_def list_all_iff)
  with inv have one: "length (filter (\<lambda>p. pp_claimed (snd p)) ?ps) \<le> 1"
    by (simp add: psp_inv_def unique_inv_def)
  have "length (filter (\<lambda>p. pp_marked (snd p)) ?ps) \<le> length (filter (\<lambda>p. pp_claimed (snd p)) ?ps)"
    by (rule length_filter_mono) (rule pp_marked_claimed)
  with one have mk: "length (filter (\<lambda>p. pp_marked (snd p)) ?ps) \<le> 1" by simp
  have "length (filter (\<lambda>p. pp_minted (snd p)) ?ps) \<le> length (filter (\<lambda>p. pp_marked (snd p)) ?ps)"
    by (rule length_filter_mono) (rule pp_minted_marked)
  with mk have "length (filter (\<lambda>p. pp_minted (snd p)) ?ps) \<le> 1" by simp
  with one mk inv show ?thesis by (simp add: psp_inv_def)
qed

lemma psp_rejects:
  assumes "u \<in> set (processed_payments w)"
  shows "processSuccessfulPayment e u w = (PP_Returned PX_AlreadyClaimed, w)"
proof -
  have "exec psp_step e 9 ((u, PP_Claim), w) = exec psp_step e 8 ((u, PP_Returned PX_AlreadyClaimed), w)"
    using assms by (simp add: exec_numeral)
  also have "\<dots> = ((u, PP_Returned PX_AlreadyClaimed), w)"
    by (rule exec_fixed) simp
  finally show ?thesis by (simp add: processSuccessfulPayment_def)
qed

lemma psp_consumes: "u \<in> set (processed_payments (snd (processSuccessfulPayment e u w)))"
proof -
  define I where "I = (\<lambda>(p :: string \<times> psp_state) (w' :: world). fst p = u \<and> snd p \<noteq> PP_Claim \<and> u \<in> set (processed_payments w'))"
  have first: "I (fst (psp_step e (u, PP_Claim) w)) (snd (psp_step e (u, PP_Claim) w))"
    by (simp add: I_def)
  have keep: "I (fst (psp_step e p w')) (snd (psp_step e p w'))" if "I p w'" for p w'
  proof -
    from that have a: "fst p = u" "snd p \<noteq> PP_Claim" and m: "u \<in> set (processed_payments w')"
      by (auto simp: I_def)
    define s where "s = snd p"
    have p: "p = (u, s)" "s \<noteq> PP_Claim" using a by (simp_all add: s_def prod_eq_iff)
    obtain u2 s2 w2 where s2: "psp_step e (u, s) w' = ((u2, s2), w2)" by (metis surj_pair)
    from psp_step_other[OF s2 p(2)] have "processed_payments w2 = processed_payments w'" by blast
    moreover have "u2 = u" using psp_step_fst[OF s2] by simp
    moreover have "s2 \<noteq> PP_Claim" using s2 p(2) by (cases s) (auto split: if_splits option.splits)
    ultimately show ?thesis using s2 p m by (simp add: I_def)
  qed
  have "I (fst (exec psp_step e 8 (psp_step e (u, PP_Claim) w)))
          (snd (exec psp_step e 8 (psp_step e (u, PP_Claim) w)))"
    using exec_invariant[where I = I and step = psp_step and e = e and n = 8
        and p = "fst (psp_step e (u, PP_Claim) w)" and w = "snd (psp_step e (u, PP_Claim) w)", OF first keep]
    by simp
  moreover have "exec psp_step e 9 ((u, PP_Claim), w) = exec psp_step e 8 (psp_step e (u, PP_Claim) w)"
    by (simp only: exec_numeral pred_numeral_simps BitM.simps)
  ultimately show ?thesis
    by (auto simp: processSuccessfulPayment_def I_def split: prod.splits)
qed

lemma psp_again:
  "processSuccessfulPayment e' u (snd (processSuccessfulPayment e u w))
     = (PP_Returned PX_AlreadyClaimed, snd (processSuccessfulPayment e u w))"
  by (rule psp_rejects[OF psp_consumes])

lemma find_map_upd:
  assumes "\<And>r. P (g r) = P r"
  shows "find P (map (\<lambda>r. if P r then g r else r) xs) = map_option g (find P xs)"
  using assms by (induction xs) auto

lemma psp_fresh:
  assumes new: "u \<notin> set (processed_payments w)"
    and pay: "find (\<lambda>p. pay_providerpaymentid p = u) (payments w) = Some payment"
    and nocode: "filter (\<lambda>c. cc_code_id c = pay_invoiceid payment) (confirmation_codes w) = []"
    and inv: "find (\<lambda>r. inv_id r = pay_invoiceid payment) (invoices w) = Some invoice"
    and fresh: "\<not> code_collides (rnd_code e) w"
  shows "fst (processSuccessfulPayment e u w) = PP_Returned PX_Done
     \<and> processed_payments (snd (processSuccessfulPayment e u w)) = processed_payments w @ [u]
     \<and> confirmation_codes (snd (processSuccessfulPayment e u w))
         = confirmation_codes w @
             [\<lparr>cc_code = rnd_code e, cc_code_id = pay_invoiceid payment,
               cc_verification_token = rnd_verification_token e,
               cc_userid = inv_userid invoice, cc_is_used = False\<rparr>]
     \<and> invoices (snd (processSuccessfulPayment e u w))
         = map (\<lambda>r. if inv_id r = pay_invoiceid payment then r\<lparr>inv_status := ''paid''\<rparr> else r)
               (invoices w)
     \<and> payments (snd (processSuccessfulPayment e u w))
         = map (\<lambda>p. if pay_providerpaymentid p = u then p\<lparr>pay_status := ''paid''\<rparr> else p)
               (payments w)"
proof -
  have f: "find (\<lambda>r. inv_id r = pay_invoiceid payment)
             (map (\<lambda>r. if inv_id r = pay_invoiceid payment then r\<lparr>inv_status := ''paid''\<rparr> else r)
                  (invoices w)) = Some (invoice\<lparr>inv_status := ''paid''\<rparr>)"
    using find_map_upd[where P = "\<lambda>r. inv_id r = pay_invoiceid payment"
        and g = "\<lambda>r. r\<lparr>inv_status := ''paid''\<rparr>" and xs = "invoices w"] inv
    by simp
  show ?thesis
    using new pay nocode fresh
    by (simp add: processSuccessfulPayment_def exec_numeral f code_collides_def)
qed

text \<open>
  C3. Calling \<open>processSuccessfulPayment\<close> twice for one payment reference, one call after
  the other or interleaved, processes the payment at most once. Under any schedule no
  reference is claimed by two requests, so of \<open>n\<close> requests for one reference at most one
  runs the update of the invoice to \<open>paid\<close>, and at most one confirmation row is added;
  the rows added are counted by the requests that minted one. A request whose insert into
  \<open>processed_payments\<close> affects no row returns \<open>already_done\<close> at once and writes
  nothing, and that is what any call after a first one does. For a reference that is new,
  whose payment and invoice rows exist and whose invoice has no confirmation row yet, the
  first call returns \<open>done\<close> having marked payment and invoice paid and added exactly one
  confirmation row.
\<close>

theorem payment_processed_once:
  "(\<forall>k. length (filter (pp_holds k) (fst (process_many sch uuids w))) \<le> 1)
   \<and> length (confirmation_codes (snd (process_many sch uuids w)))
       = length (confirmation_codes w)
         + length (filter (\<lambda>p. pp_minted (snd p)) (fst (process_many sch uuids w)))
   \<and> (pp_minted st \<longrightarrow> pp_marked st) \<and> (pp_marked st \<longrightarrow> pp_claimed st)
   \<and> length (filter (\<lambda>p. pp_claimed (snd p)) (fst (process_many sch (replicate n u) w))) \<le> 1
   \<and> length (filter (\<lambda>p. pp_marked (snd p)) (fst (process_many sch (replicate n u) w))) \<le> 1
   \<and> length (confirmation_codes (snd (process_many sch (replicate n u) w)))
        \<le> length (confirmation_codes w) + 1
   \<and> (u \<in> set (processed_payments w)
        \<longrightarrow> processSuccessfulPayment e u w = (PP_Returned PX_AlreadyClaimed, w))
   \<and> psp_result PX_AlreadyClaimed = ''already_done''
   \<and> processSuccessfulPayment e' u (snd (processSuccessfulPayment e u w))
       = (PP_Returned PX_AlreadyClaimed, snd (processSuccessfulPayment e u w))
   \<and> (u \<notin> set (processed_payments w)
        \<and> find (\<lambda>p. pay_providerpaymentid p = u) (payments w) = Some payment
        \<and> filter (\<lambda>c. cc_code_id c = pay_invoiceid payment) (confirmation_codes w) = []
        \<and> find (\<lambda>r. inv_id r = pay_invoiceid payment) (invoices w) = Some invoice
        \<and> \<not> code_collides (rnd_code e) w
        \<longrightarrow> fst (processSuccessfulPayment e u w) = PP_Returned PX_Done
            \<and> psp_result PX_Done = ''done''
            \<and> processed_payments (snd (processSuccessfulPayment e u w)) = processed_payments w @ [u]
            \<and> confirmation_codes (snd (processSuccessfulPayment e u w))
                = confirmation_codes w @
                    [\<lparr>cc_code = rnd_code e, cc_code_id = pay_invoiceid payment,
                      cc_verification_token = rnd_verification_token e,
                      cc_userid = inv_userid invoice, cc_is_used = False\<rparr>]
            \<and> invoices (snd (processSuccessfulPayment e u w))
                = map (\<lambda>r. if inv_id r = pay_invoiceid payment then r\<lparr>inv_status := ''paid''\<rparr> else r)
                      (invoices w)
            \<and> payments (snd (processSuccessfulPayment e u w))
                = map (\<lambda>p. if pay_providerpaymentid p = u then p\<lparr>pay_status := ''paid''\<rparr> else p)
                      (payments w))"
proof -
  have units: "(\<forall>k. length (filter (pp_holds k) (fst (process_many sch uuids w))) \<le> 1)
   \<and> length (confirmation_codes (snd (process_many sch uuids w)))
       = length (confirmation_codes w)
         + length (filter (\<lambda>p. pp_minted (snd p)) (fst (process_many sch uuids w)))"
    using psp_inv_run[of w sch uuids] by (simp add: psp_inv_def unique_inv_def)
  have mm: "pp_minted st \<longrightarrow> pp_marked st" and mc: "pp_marked st \<longrightarrow> pp_claimed st"
    using pp_minted_marked[of st] pp_marked_claimed[of st] by blast+
  have rej: "u \<in> set (processed_payments w)
        \<longrightarrow> processSuccessfulPayment e u w = (PP_Returned PX_AlreadyClaimed, w)"
    using psp_rejects[of u w e] by blast
  have res: "psp_result PX_AlreadyClaimed = ''already_done''" "psp_result PX_Done = ''done''"
    by simp_all
  note fresh = psp_fresh[of u w payment invoice e]
  show ?thesis
    apply (intro conjI)
              apply (rule units[THEN conjunct1])
             apply (rule units[THEN conjunct2])
            apply (rule mm)
           apply (rule mc)
          apply (rule process_many_once[of sch n u w, THEN conjunct1])
         apply (rule process_many_once[of sch n u w, THEN conjunct2, THEN conjunct1])
        apply (rule process_many_once[of sch n u w, THEN conjunct2, THEN conjunct2])
       apply (rule rej)
      apply (rule res(1))
     apply (rule psp_again)
    using fresh res(2) apply blast
    done
qed

theorem payment_processed_once_witness:
  "pp_minted (PP_Returned PX_Done) \<and> pp_marked (PP_Returned PX_Done)
   \<and> ''uuid-7'' \<in> set (processed_payments demo_world)
   \<and> processSuccessfulPayment demo_random ''uuid-7'' demo_world
       = (PP_Returned PX_AlreadyClaimed, demo_world)
   \<and> ''uuid-9'' \<notin> set (processed_payments demo_world)
   \<and> \<not> code_collides (rnd_code demo_random) demo_world
   \<and> fst (processSuccessfulPayment demo_random ''uuid-9'' demo_world) = PP_Returned PX_Done
   \<and> map cc_code_id (confirmation_codes (snd (processSuccessfulPayment demo_random ''uuid-9'' demo_world)))
       = [7, 9]
   \<and> map inv_status (invoices (snd (processSuccessfulPayment demo_random ''uuid-9'' demo_world)))
       = [''paid'', ''paid'', ''paid'']"
proof -
  let ?p = "\<lparr>pay_invoiceid = 9, pay_providerpaymentid = ''uuid-9'', pay_status = ''pending''\<rparr>"
  let ?i = "\<lparr>inv_id = 9, inv_invoicenumber = ''INV-9'', inv_userid = 1,
             inv_amount = 50000, inv_status = ''pending''\<rparr>"
  have old: "''uuid-7'' \<in> set (processed_payments demo_world)"
    by (simp add: demo_world_def)
  have new: "''uuid-9'' \<notin> set (processed_payments demo_world)"
    by (simp add: demo_world_def)
  have pay: "find (\<lambda>p. pay_providerpaymentid p = ''uuid-9'') (payments demo_world) = Some ?p"
    by (simp add: demo_world_def)
  have nocode: "filter (\<lambda>c. cc_code_id c = pay_invoiceid ?p) (confirmation_codes demo_world) = []"
    by (simp add: demo_world_def)
  have inv: "find (\<lambda>r. inv_id r = pay_invoiceid ?p) (invoices demo_world) = Some ?i"
    by (simp add: demo_world_def)
  have fresh: "\<not> code_collides (rnd_code demo_random) demo_world"
    by (simp add: code_collides_def demo_random_def demo_world_def)
  note t7 = payment_processed_once[where st = "PP_Returned PX_Done" and u = "''uuid-7''"
      and w = demo_world and e = demo_random]
  note t9 = payment_processed_once[where st = "PP_Returned PX_Done" and u = "''uuid-9''"
      and w = demo_world and e = demo_random and payment = ?p and invoice = ?i]
  from t7 old have r7: "processSuccessfulPayment demo_random ''uuid-7'' demo_world
       = (PP_Returned PX_AlreadyClaimed, demo_world)"
    by blast
  from t9 new pay nocode inv fresh
  have r9: "fst (processSuccessfulPayment demo_random ''uuid-9'' demo_world) = PP_Returned PX_Done"
    and c9: "confirmation_codes (snd (processSuccessfulPayment demo_random ''uuid-9'' demo_world))
                = confirmation_codes demo_world @
                    [\<lparr>cc_code = rnd_code demo_random, cc_code_id = pay_invoiceid ?p,
                      cc_verification_token = rnd_verification_token demo_random,
                      cc_userid = inv_userid ?i, cc_is_used = False\<rparr>]"
    and i9: "invoices (snd (processSuccessfulPayment demo_random ''uuid-9'' demo_world))
                = map (\<lambda>r. if inv_id r = pay_invoiceid ?p then r\<lparr>inv_status := ''paid''\<rparr> else r)
                      (invoices demo_world)"
    by blast+
  have m: "map cc_code_id (confirmation_codes (snd (processSuccessfulPayment demo_random ''uuid-9'' demo_world)))
       = [7, 9]"
    unfolding c9 by (simp add: demo_world_def)
  have s: "map inv_status (invoices (snd (processSuccessfulPayment demo_random ''uuid-9'' demo_world)))
       = [''paid'', ''paid'', ''paid'']"
    unfolding i9 by (simp add: demo_world_def)
  from old r7 new fresh r9 m s show ?thesis by simp
qed

subsection \<open>Dispute resolution\<close>



lemma run_step_0:
  "run step ((0, e) # sch) (p # ps, w) = (case step e p w of (p', w') \<Rightarrow> run step sch (p' # ps, w'))"
  by simp

lemma run_step_1:
  "run step ((Suc 0, e) # sch) (p # q # ps, w)
     = (case step e q w of (q', w') \<Rightarrow> run step sch (p # q' # ps, w'))"
  by simp

text \<open>
  C4 does not hold of the code. The route reads the dispute, checks \<open>status = 'open'\<close> in
  the handler, sends the transfer, and only then runs \<open>UPDATE disputes SET status = ...
  WHERE admin_token = $1\<close>, with no condition on the current status. Under the schedule
  above both requests pass the check; each sends a transfer of 98000 and records a Payout.
\<close>

theorem dispute_resolved_twice:
  "map snd (fst (resolve_many resolve_race [(''adm7'', Seller), (''adm7'', Seller)] demo_world))
     = [DR_Sent released_to_seller, DR_Sent released_to_seller]
   \<and> map tr_amount (withdraw_calls
         (snd (resolve_many resolve_race [(''adm7'', Seller), (''adm7'', Seller)] demo_world)))
       = [98000, 98000]
   \<and> map po_amount (payouts
         (snd (resolve_many resolve_race [(''adm7'', Seller), (''adm7'', Seller)] demo_world)))
       = [98000, 98000]
   \<and> map usr_referral_balance (users
         (snd (resolve_many resolve_race [(''adm7'', Seller), (''adm7'', Seller)] demo_world)))
       = [0, 4500]"
  by (simp add: resolve_many_def resolve_race_def run_step_0 run_step_1 del: run.simps(2)
        add: demo_world_def gw_up_def dispute_fees_def DISPUTE_TOTAL_FEE_RATE_def
        DISPUTE_REFERRAL_FEE_RATE_def Let_def dispute_credit_def insert_earning_def
        credit_balance_def in_int4_def released_to_seller_def)

subsection \<open>The fee split on the payout paths\<close>

lemma exec_add: "exec step e (m + n) cfg = exec step e n (exec step e m cfg)"
proof (induction m arbitrary: cfg)
  case 0
  then show ?case by simp
next
  case (Suc m)
  then show ?case by (cases cfg) simp
qed

lemma earning_insertable_cong:
  "users w' = users w \<Longrightarrow> referral_earnings w' = referral_earnings w \<Longrightarrow>
     earning_insertable c w' = earning_insertable c w"
  by (simp add: earning_insertable_def has_earning_def)

lemma credit_once_effect:
  assumes u: "users w' = users w" and r: "referral_earnings w' = referral_earnings w"
    and ins: "earning_insertable c w"
    and fits: "in_int4 (cr_earned_amount c)"
      "list_all (\<lambda>u. usr_id u = cr_referrer_userid c
                      \<longrightarrow> in_int4 (usr_referral_balance u + cr_earned_amount c)) (users w)"
  shows "referral_earnings (credit_once c w') = referral_earnings w @
           [\<lparr>re_referrer_userid = cr_referrer_userid c,
             re_referred_userid = cr_referred_userid c,
             re_invoice_number = cr_invoice_number c,
             re_invoice_amount = cr_invoice_amount c,
             re_earned_amount = cr_earned_amount c\<rparr>]"
    and "users (credit_once c w')
           = map (\<lambda>u. if usr_id u = cr_referrer_userid c
                       then u\<lparr>usr_referral_balance :=
                                usr_referral_balance u + cr_earned_amount c\<rparr>
                       else u) (users w)"
proof -
  from ins have ins': "earning_insertable c w'"
    by (simp add: earning_insertable_cong[OF u r])
  from credit_once_fresh(1)[OF ins'] r
  show "referral_earnings (credit_once c w') = referral_earnings w @
           [\<lparr>re_referrer_userid = cr_referrer_userid c,
             re_referred_userid = cr_referred_userid c,
             re_invoice_number = cr_invoice_number c,
             re_invoice_amount = cr_invoice_amount c,
             re_earned_amount = cr_earned_amount c\<rparr>]"
    by simp
  from credit_once_fresh(2)[OF ins'] u fits
  show "users (credit_once c w')
           = map (\<lambda>u. if usr_id u = cr_referrer_userid c
                       then u\<lparr>usr_referral_balance :=
                                usr_referral_balance u + cr_earned_amount c\<rparr>
                       else u) (users w)"
    by simp
qed

lemma claim_code_other:
  "invoices (snd (claim_code i w)) = invoices w"
  "users (snd (claim_code i w)) = users w"
  "referral_earnings (snd (claim_code i w)) = referral_earnings w"
  by (simp_all add: claim_code_def)

text \<open>
  \<open>executePayout\<close> on an unused code, with the invoice and the seller found and the rail
  accepting: the first eight statements.
\<close>

lemma executePayout_eight:
  assumes u: "unused_code i w"
    and fi: "find (\<lambda>r. inv_id r = i) (invoices w) = Some invoiceRow"
    and fs: "find (\<lambda>u. usr_id u = inv_userid invoiceRow) (users w) = Some seller"
    and gw: "auth_ok gw" "withdraw_ok gw"
  shows "exec payout_step gw 4 ((i, EP_Claim), w)
           = ((i, EP_Token \<lparr>ep_invoiceRow = invoiceRow, ep_invoiceUser = seller,
                            ep_referrerId = usr_referred_by seller,
                            ep_fee = compute_fees (inv_amount invoiceRow)
                                       (usr_referred_by seller \<noteq> None)\<rparr>),
              snd (claim_code i w))"
    and "\<exists>w8. exec payout_step gw 8 ((i, EP_Claim), w)
           = ((i, case usr_referred_by seller of
                    None \<Rightarrow> EP_Returned
                  | Some referrer \<Rightarrow>
                      if referralEarning (compute_fees (inv_amount invoiceRow) True) > 0
                      then EP_InsertEarning
                             \<lparr>cr_referrer_userid = referrer,
                              cr_referred_userid = inv_userid invoiceRow,
                              cr_invoice_number = inv_invoicenumber invoiceRow,
                              cr_invoice_amount = inv_amount invoiceRow,
                              cr_earned_amount =
                                referralEarning (compute_fees (inv_amount invoiceRow) True)\<rparr>
                      else EP_Returned), w8)
         \<and> users w8 = users w \<and> referral_earnings w8 = referral_earnings w
         \<and> withdraw_calls w8 = withdraw_calls w @
              [\<lparr>tr_amount = sellerReceives (compute_fees (inv_amount invoiceRow)
                                              (usr_referred_by seller \<noteq> None)),
                tr_to = usr_phone seller,
                tr_external_reference = inv_invoicenumber invoiceRow\<rparr>]
         \<and> payouts w8 = payouts w @
              [\<lparr>po_userid = inv_userid invoiceRow,
                po_amount = sellerReceives (compute_fees (inv_amount invoiceRow)
                                              (usr_referred_by seller \<noteq> None)),
                po_method = ''Mobile Money'', po_status = ''paid'',
                po_invoice_id = i,
                po_invoice_number = inv_invoicenumber invoiceRow\<rparr>]"
proof -
  obtain rows w1 where c: "claim_code i w = (rows, w1)" by (cases "claim_code i w")
  from u claim_code_rows[of i w] c have ne: "rows \<noteq> []" by simp
  from claim_code_other[of i w] claim_code_frame[of i w] c
  have w1: "invoices w1 = invoices w" "users w1 = users w"
    "referral_earnings w1 = referral_earnings w"
    "withdraw_calls w1 = withdraw_calls w" "payouts w1 = payouts w" by simp_all
  show "exec payout_step gw 4 ((i, EP_Claim), w)
           = ((i, EP_Token \<lparr>ep_invoiceRow = invoiceRow, ep_invoiceUser = seller,
                            ep_referrerId = usr_referred_by seller,
                            ep_fee = compute_fees (inv_amount invoiceRow)
                                       (usr_referred_by seller \<noteq> None)\<rparr>),
              snd (claim_code i w))"
    using ne by (simp add: exec_numeral c w1 fi fs Let_def)
  show "\<exists>w8. exec payout_step gw 8 ((i, EP_Claim), w)
           = ((i, case usr_referred_by seller of
                    None \<Rightarrow> EP_Returned
                  | Some referrer \<Rightarrow>
                      if referralEarning (compute_fees (inv_amount invoiceRow) True) > 0
                      then EP_InsertEarning
                             \<lparr>cr_referrer_userid = referrer,
                              cr_referred_userid = inv_userid invoiceRow,
                              cr_invoice_number = inv_invoicenumber invoiceRow,
                              cr_invoice_amount = inv_amount invoiceRow,
                              cr_earned_amount =
                                referralEarning (compute_fees (inv_amount invoiceRow) True)\<rparr>
                      else EP_Returned), w8)
         \<and> users w8 = users w \<and> referral_earnings w8 = referral_earnings w
         \<and> withdraw_calls w8 = withdraw_calls w @
              [\<lparr>tr_amount = sellerReceives (compute_fees (inv_amount invoiceRow)
                                              (usr_referred_by seller \<noteq> None)),
                tr_to = usr_phone seller,
                tr_external_reference = inv_invoicenumber invoiceRow\<rparr>]
         \<and> payouts w8 = payouts w @
              [\<lparr>po_userid = inv_userid invoiceRow,
                po_amount = sellerReceives (compute_fees (inv_amount invoiceRow)
                                              (usr_referred_by seller \<noteq> None)),
                po_method = ''Mobile Money'', po_status = ''paid'',
                po_invoice_id = i,
                po_invoice_number = inv_invoicenumber invoiceRow\<rparr>]"
    using ne gw
    by (cases "usr_referred_by seller")
       (simp_all add: exec_numeral c w1 fi fs Let_def payout_credit_def)
qed


lemma credit_once_frame:
  "withdraw_calls (credit_once c w) = withdraw_calls w"
  "payouts (credit_once c w) = payouts w"
  "invoices (credit_once c w) = invoices w"
  "invoice_milestones (credit_once c w) = invoice_milestones w"
  by (simp_all add: credit_once_def numeral_2_eq_2 insert_earning_def credit_balance_def)

lemma find_list_ex: "find P xs = Some x \<Longrightarrow> list_ex P xs"
  using find_in_set[of P xs x] by (auto simp: list_ex_iff)

lemma compute_fees_floor:
  "sellerReceives (compute_fees g b) = g - \<lfloor>real_of_int g * 0.02\<rfloor>"
  "referralEarning (compute_fees g True) = \<lfloor>real_of_int g * 0.005\<rfloor>"
  "sellerReceives (dispute_fees g b) = g - \<lfloor>real_of_int g * 0.02\<rfloor>"
  "referralEarning (dispute_fees g True) = \<lfloor>real_of_int g * 0.005\<rfloor>"
  by (simp_all add: compute_fees_def dispute_fees_def TOTAL_FEE_RATE_def REFERRAL_FEE_RATE_def
        DISPUTE_TOTAL_FEE_RATE_def DISPUTE_REFERRAL_FEE_RATE_def Let_def)

lemma executePayout_split:
  assumes u: "unused_code i w"
    and fi: "find (\<lambda>r. inv_id r = i) (invoices w) = Some invoiceRow"
    and fs: "find (\<lambda>u. usr_id u = inv_userid invoiceRow) (users w) = Some seller"
    and gw: "auth_ok gw" "withdraw_ok gw"
  shows "fst (executePayout gw i w) = EP_Returned
     \<and> withdraw_calls (snd (executePayout gw i w)) = withdraw_calls w @
          [\<lparr>tr_amount = inv_amount invoiceRow - \<lfloor>real_of_int (inv_amount invoiceRow) * 0.02\<rfloor>,
            tr_to = usr_phone seller,
            tr_external_reference = inv_invoicenumber invoiceRow\<rparr>]
     \<and> payouts (snd (executePayout gw i w)) = payouts w @
          [\<lparr>po_userid = inv_userid invoiceRow,
            po_amount = inv_amount invoiceRow - \<lfloor>real_of_int (inv_amount invoiceRow) * 0.02\<rfloor>,
            po_method = ''Mobile Money'', po_status = ''paid'',
            po_invoice_id = i,
            po_invoice_number = inv_invoicenumber invoiceRow\<rparr>]
     \<and> (usr_referred_by seller = None
          \<longrightarrow> referral_earnings (snd (executePayout gw i w)) = referral_earnings w
              \<and> users (snd (executePayout gw i w)) = users w)
     \<and> (usr_referred_by seller = Some referrer
          \<and> 0 < \<lfloor>real_of_int (inv_amount invoiceRow) * 0.005\<rfloor>
          \<and> \<not> list_ex (\<lambda>r. re_invoice_number r = inv_invoicenumber invoiceRow) (referral_earnings w)
          \<and> list_ex (\<lambda>u. usr_id u = referrer) (users w)
          \<and> in_int4 \<lfloor>real_of_int (inv_amount invoiceRow) * 0.005\<rfloor>
          \<and> list_all (\<lambda>u. usr_id u = referrer \<longrightarrow>
                           in_int4 (usr_referral_balance u
                                    + \<lfloor>real_of_int (inv_amount invoiceRow) * 0.005\<rfloor>)) (users w)
          \<longrightarrow> referral_earnings (snd (executePayout gw i w)) = referral_earnings w @
                [\<lparr>re_referrer_userid = referrer,
                  re_referred_userid = inv_userid invoiceRow,
                  re_invoice_number = inv_invoicenumber invoiceRow,
                  re_invoice_amount = inv_amount invoiceRow,
                  re_earned_amount = \<lfloor>real_of_int (inv_amount invoiceRow) * 0.005\<rfloor>\<rparr>]
              \<and> users (snd (executePayout gw i w))
                  = map (\<lambda>u. if usr_id u = referrer
                             then u\<lparr>usr_referral_balance :=
                                      usr_referral_balance u
                                      + \<lfloor>real_of_int (inv_amount invoiceRow) * 0.005\<rfloor>\<rparr>
                             else u) (users w))"
proof -
  let ?g = "inv_amount invoiceRow"
  let ?c = "\<lambda>referrer. \<lparr>cr_referrer_userid = referrer,
                         cr_referred_userid = inv_userid invoiceRow,
                         cr_invoice_number = inv_invoicenumber invoiceRow,
                         cr_invoice_amount = ?g,
                         cr_earned_amount = referralEarning (compute_fees ?g True)\<rparr>"
  from executePayout_eight(2)[OF u fi fs gw] obtain w8 where
    e8: "exec payout_step gw 8 ((i, EP_Claim), w)
           = ((i, case usr_referred_by seller of
                    None \<Rightarrow> EP_Returned
                  | Some referrer \<Rightarrow>
                      if referralEarning (compute_fees ?g True) > 0
                      then EP_InsertEarning (?c referrer)
                      else EP_Returned), w8)"
    and w8: "users w8 = users w" "referral_earnings w8 = referral_earnings w"
      "withdraw_calls w8 = withdraw_calls w @
              [\<lparr>tr_amount = sellerReceives (compute_fees ?g (usr_referred_by seller \<noteq> None)),
                tr_to = usr_phone seller,
                tr_external_reference = inv_invoicenumber invoiceRow\<rparr>]"
      "payouts w8 = payouts w @
              [\<lparr>po_userid = inv_userid invoiceRow,
                po_amount = sellerReceives (compute_fees ?g (usr_referred_by seller \<noteq> None)),
                po_method = ''Mobile Money'', po_status = ''paid'',
                po_invoice_id = i,
                po_invoice_number = inv_invoicenumber invoiceRow\<rparr>]"
    by blast
  have ten: "exec payout_step gw 10 ((i, EP_Claim), w)
               = exec payout_step gw 2 (exec payout_step gw 8 ((i, EP_Claim), w))"
    using exec_add[of payout_step gw 8 2 "((i, EP_Claim), w)"] by simp
  consider (plain) "exec payout_step gw 10 ((i, EP_Claim), w) = ((i, EP_Returned), w8)"
      "usr_referred_by seller = None \<or> \<not> 0 < referralEarning (compute_fees ?g True)"
    | (credit) referrer where "usr_referred_by seller = Some referrer"
      "0 < referralEarning (compute_fees ?g True)"
      "exec payout_step gw 10 ((i, EP_Claim), w) = ((i, EP_Returned), credit_once (?c referrer) w8)"
  proof (cases "usr_referred_by seller")
    case None
    with e8 ten have "exec payout_step gw 10 ((i, EP_Claim), w) = ((i, EP_Returned), w8)"
      by (simp add: numeral_2_eq_2)
    with None show ?thesis by (rule_tac plain) simp_all
  next
    case (Some r)
    show ?thesis
    proof (cases "0 < referralEarning (compute_fees ?g True)")
      case True
      with e8 ten Some credit_in_payout[of gw i "?c r" w8]
      have "exec payout_step gw 10 ((i, EP_Claim), w) = ((i, EP_Returned), credit_once (?c r) w8)"
        by simp
      with Some True show ?thesis by (rule_tac credit) simp_all
    next
      case False
      with e8 ten Some have "exec payout_step gw 10 ((i, EP_Claim), w) = ((i, EP_Returned), w8)"
        by (simp add: numeral_2_eq_2)
      with False show ?thesis by (rule_tac plain) simp_all
    qed
  qed
  then show ?thesis
  proof cases
    case plain
    then show ?thesis
      by (auto simp: executePayout_def w8 compute_fees_floor)
  next
    case (credit r)
    have "referral_earnings (credit_once (?c r) w8) = referral_earnings w @
           [\<lparr>re_referrer_userid = r, re_referred_userid = inv_userid invoiceRow,
             re_invoice_number = inv_invoicenumber invoiceRow, re_invoice_amount = ?g,
             re_earned_amount = \<lfloor>real_of_int ?g * 0.005\<rfloor>\<rparr>]
         \<and> users (credit_once (?c r) w8)
             = map (\<lambda>u. if usr_id u = r
                        then u\<lparr>usr_referral_balance :=
                                 usr_referral_balance u + \<lfloor>real_of_int ?g * 0.005\<rfloor>\<rparr>
                        else u) (users w)"
      if "\<not> list_ex (\<lambda>r. re_invoice_number r = inv_invoicenumber invoiceRow) (referral_earnings w)"
        "list_ex (\<lambda>u. usr_id u = r) (users w)"
        "in_int4 \<lfloor>real_of_int ?g * 0.005\<rfloor>"
        "list_all (\<lambda>u. usr_id u = r \<longrightarrow>
                      in_int4 (usr_referral_balance u + \<lfloor>real_of_int ?g * 0.005\<rfloor>)) (users w)"
    proof -
      have ins: "earning_insertable (?c r) w"
        using that(1,2) find_list_ex[OF fs]
        by (simp add: earning_insertable_def has_earning_def)
      from credit_once_effect[OF w8(1,2) ins] that(3,4) show ?thesis
        by (simp add: compute_fees_floor)
    qed
    with credit show ?thesis
      by (auto simp: executePayout_def credit_once_frame w8 compute_fees_floor)
  qed
qed

lemma lock_milestone_other:
  "invoices (snd (lock_milestone k w)) = invoices w"
  "users (snd (lock_milestone k w)) = users w"
  "referral_earnings (snd (lock_milestone k w)) = referral_earnings w"
  by (simp_all add: lock_milestone_def)

lemma release_tail:
  "\<exists>r w''. exec release_step gw (Suc (Suc n)) ((t, MR_CountRemaining l), w')
              = ((t, MR_Sent (Some (mr_milestone l)) (RO_Released r)), w'')
          \<and> users w'' = users w' \<and> referral_earnings w'' = referral_earnings w'
          \<and> withdraw_calls w'' = withdraw_calls w' \<and> payouts w'' = payouts w'"
proof (cases "length (filter (\<lambda>m. ms_invoice_id m = ms_invoice_id (mr_milestone l)
                                \<and> ms_status m \<noteq> ''released'') (invoice_milestones w')) = 0")
  case True
  then show ?thesis by (simp add: Let_def exec_fixed)
next
  case False
  then show ?thesis by (simp add: Let_def exec_fixed)
qed

lemma release_credit_tail:
  "\<exists>r w''. exec release_step gw 4 ((t, MR_InsertEarning l c), w')
              = ((t, MR_Sent (Some (mr_milestone l)) (RO_Released r)), w'')
          \<and> users w'' = users (credit_once c w')
          \<and> referral_earnings w'' = referral_earnings (credit_once c w')
          \<and> withdraw_calls w'' = withdraw_calls w' \<and> payouts w'' = payouts w'"
proof (cases "earning_insertable c w'")
  case True
  have "exec release_step gw 4 ((t, MR_InsertEarning l c), w')
          = exec release_step gw 2 (exec release_step gw 2 ((t, MR_InsertEarning l c), w'))"
    using exec_add[of release_step gw 2 2] by simp
  with True credit_in_release[of gw t l c w']
  have "exec release_step gw 4 ((t, MR_InsertEarning l c), w')
          = exec release_step gw (Suc (Suc 0)) ((t, MR_CountRemaining l), credit_once c w')"
    by (simp add: numeral_2_eq_2)
  with release_tail[of gw 0 t l "credit_once c w'"] show ?thesis
    by (simp add: credit_once_frame)
next
  case False
  then have "referral_credit_step () (c, CR_Insert) w' = ((c, CR_Done), w')"
    by (rule credit_step_idle)
  then have "release_step gw (t, MR_InsertEarning l c) w' = ((t, MR_CountRemaining l), w')"
    by (auto split: sum.splits bool.splits prod.splits)
  then have "exec release_step gw 4 ((t, MR_InsertEarning l c), w')
          = exec release_step gw (Suc (Suc 1)) ((t, MR_CountRemaining l), w')"
    using exec_numeral[of release_step gw "num.Bit0 (num.Bit0 num.One)" "(t, MR_InsertEarning l c)" w']
    by (simp add: numeral_3_eq_3 del: release_step.simps exec.simps)
  with release_tail[of gw 1 t l w'] False show ?thesis
    by (simp add: credit_once_idle)
qed

lemma release_eight:
  assumes fm: "find (\<lambda>m. ms_release_token m = Some token) (invoice_milestones w) = Some milestone"
    and sc: "ms_status milestone = ''completed''"
    and fi: "find (\<lambda>r. inv_id r = ms_invoice_id milestone) (invoices w) = Some invoice"
    and fs: "find (\<lambda>u. usr_id u = inv_userid invoice) (users w) = Some seller"
    and gw: "auth_ok gw" "withdraw_ok gw"
  shows "\<exists>w8. exec release_step gw 8 ((token, MR_Find), w)
           = ((token,
               case usr_referred_by seller of
                 None \<Rightarrow>
                   MR_CountRemaining
                     \<lparr>mr_milestone = milestone, mr_invoice = invoice, mr_seller = seller,
                      mr_referrerIdMs = usr_referred_by seller,
                      mr_fee = compute_fees (ms_amount milestone) (usr_referred_by seller \<noteq> None)\<rparr>
               | Some referrer \<Rightarrow>
                   if referralEarning (compute_fees (ms_amount milestone) True) > 0
                   then MR_InsertEarning
                          \<lparr>mr_milestone = milestone, mr_invoice = invoice, mr_seller = seller,
                           mr_referrerIdMs = usr_referred_by seller,
                           mr_fee = compute_fees (ms_amount milestone) (usr_referred_by seller \<noteq> None)\<rparr>
                          \<lparr>cr_referrer_userid = referrer,
                           cr_referred_userid = inv_userid invoice,
                           cr_invoice_number =
                             inv_invoicenumber invoice @ ''-ms'' @ show_nat (ms_id milestone),
                           cr_invoice_amount = ms_amount milestone,
                           cr_earned_amount =
                             referralEarning (compute_fees (ms_amount milestone) True)\<rparr>
                   else MR_CountRemaining
                          \<lparr>mr_milestone = milestone, mr_invoice = invoice, mr_seller = seller,
                           mr_referrerIdMs = usr_referred_by seller,
                           mr_fee = compute_fees (ms_amount milestone) (usr_referred_by seller \<noteq> None)\<rparr>),
              w8)
         \<and> users w8 = users w \<and> referral_earnings w8 = referral_earnings w
         \<and> withdraw_calls w8 = withdraw_calls w @
              [\<lparr>tr_amount = sellerReceives (compute_fees (ms_amount milestone)
                                              (usr_referred_by seller \<noteq> None)),
                tr_to = usr_phone seller,
                tr_external_reference = ''milestone-'' @ show_nat (ms_id milestone)\<rparr>]
         \<and> payouts w8 = payouts w @
              [\<lparr>po_userid = inv_userid invoice,
                po_amount = sellerReceives (compute_fees (ms_amount milestone)
                                              (usr_referred_by seller \<noteq> None)),
                po_method = ''Mobile Money'', po_status = ''paid'',
                po_invoice_id = inv_id invoice,
                po_invoice_number = inv_invoicenumber invoice\<rparr>]"
proof -
  obtain rows w1 where c: "lock_milestone (ms_id milestone) w = (rows, w1)"
    by (cases "lock_milestone (ms_id milestone) w")
  from find_in_set[OF fm] sc have "completed_row (ms_id milestone) w"
    by (auto simp: completed_row_def list_ex_iff)
  with lock_milestone_rows[of "ms_id milestone" w] c have ne: "rows \<noteq> []" by simp
  from lock_milestone_other[of "ms_id milestone" w] lock_milestone_frame[of "ms_id milestone" w] c
  have w1: "invoices w1 = invoices w" "users w1 = users w"
    "referral_earnings w1 = referral_earnings w"
    "withdraw_calls w1 = withdraw_calls w" "payouts w1 = payouts w" by simp_all
  show ?thesis
    using ne gw sc
    by (cases "usr_referred_by seller")
       (simp_all add: exec_numeral c w1 fm fi fs Let_def release_credit_def)
qed

lemma release_split:
  assumes fm: "find (\<lambda>m. ms_release_token m = Some token) (invoice_milestones w) = Some milestone"
    and sc: "ms_status milestone = ''completed''"
    and fi: "find (\<lambda>r. inv_id r = ms_invoice_id milestone) (invoices w) = Some invoice"
    and fs: "find (\<lambda>u. usr_id u = inv_userid invoice) (users w) = Some seller"
    and gw: "auth_ok gw" "withdraw_ok gw"
  shows "(\<exists>remaining. fst (release_milestone_post gw token w)
                        = MR_Sent (Some milestone) (RO_Released remaining))
     \<and> withdraw_calls (snd (release_milestone_post gw token w)) = withdraw_calls w @
          [\<lparr>tr_amount = ms_amount milestone - \<lfloor>real_of_int (ms_amount milestone) * 0.02\<rfloor>,
            tr_to = usr_phone seller,
            tr_external_reference = ''milestone-'' @ show_nat (ms_id milestone)\<rparr>]
     \<and> payouts (snd (release_milestone_post gw token w)) = payouts w @
          [\<lparr>po_userid = inv_userid invoice,
            po_amount = ms_amount milestone - \<lfloor>real_of_int (ms_amount milestone) * 0.02\<rfloor>,
            po_method = ''Mobile Money'', po_status = ''paid'',
            po_invoice_id = inv_id invoice,
            po_invoice_number = inv_invoicenumber invoice\<rparr>]
     \<and> (usr_referred_by seller = None
          \<longrightarrow> referral_earnings (snd (release_milestone_post gw token w)) = referral_earnings w
              \<and> users (snd (release_milestone_post gw token w)) = users w)
     \<and> (usr_referred_by seller = Some referrer
          \<and> 0 < \<lfloor>real_of_int (ms_amount milestone) * 0.005\<rfloor>
          \<and> \<not> list_ex (\<lambda>r. re_invoice_number r
                              = inv_invoicenumber invoice @ ''-ms'' @ show_nat (ms_id milestone))
                       (referral_earnings w)
          \<and> list_ex (\<lambda>u. usr_id u = referrer) (users w)
          \<and> in_int4 \<lfloor>real_of_int (ms_amount milestone) * 0.005\<rfloor>
          \<and> list_all (\<lambda>u. usr_id u = referrer \<longrightarrow>
                           in_int4 (usr_referral_balance u
                                    + \<lfloor>real_of_int (ms_amount milestone) * 0.005\<rfloor>)) (users w)
          \<longrightarrow> referral_earnings (snd (release_milestone_post gw token w)) = referral_earnings w @
                [\<lparr>re_referrer_userid = referrer,
                  re_referred_userid = inv_userid invoice,
                  re_invoice_number =
                    inv_invoicenumber invoice @ ''-ms'' @ show_nat (ms_id milestone),
                  re_invoice_amount = ms_amount milestone,
                  re_earned_amount = \<lfloor>real_of_int (ms_amount milestone) * 0.005\<rfloor>\<rparr>]
              \<and> users (snd (release_milestone_post gw token w))
                  = map (\<lambda>u. if usr_id u = referrer
                             then u\<lparr>usr_referral_balance :=
                                      usr_referral_balance u
                                      + \<lfloor>real_of_int (ms_amount milestone) * 0.005\<rfloor>\<rparr>
                             else u) (users w))"
proof -
  let ?g = "ms_amount milestone"
  let ?l = "\<lparr>mr_milestone = milestone, mr_invoice = invoice, mr_seller = seller,
             mr_referrerIdMs = usr_referred_by seller,
             mr_fee = compute_fees ?g (usr_referred_by seller \<noteq> None)\<rparr>"
  let ?c = "\<lambda>referrer. \<lparr>cr_referrer_userid = referrer,
                         cr_referred_userid = inv_userid invoice,
                         cr_invoice_number =
                           inv_invoicenumber invoice @ ''-ms'' @ show_nat (ms_id milestone),
                         cr_invoice_amount = ?g,
                         cr_earned_amount = referralEarning (compute_fees ?g True)\<rparr>"
  from release_eight[OF fm sc fi fs gw] obtain w8 where
    e8: "exec release_step gw 8 ((token, MR_Find), w)
           = ((token,
               case usr_referred_by seller of
                 None \<Rightarrow> MR_CountRemaining ?l
               | Some referrer \<Rightarrow>
                   if referralEarning (compute_fees ?g True) > 0
                   then MR_InsertEarning ?l (?c referrer)
                   else MR_CountRemaining ?l), w8)"
    and w8: "users w8 = users w" "referral_earnings w8 = referral_earnings w"
      "withdraw_calls w8 = withdraw_calls w @
              [\<lparr>tr_amount = sellerReceives (compute_fees ?g (usr_referred_by seller \<noteq> None)),
                tr_to = usr_phone seller,
                tr_external_reference = ''milestone-'' @ show_nat (ms_id milestone)\<rparr>]"
      "payouts w8 = payouts w @
              [\<lparr>po_userid = inv_userid invoice,
                po_amount = sellerReceives (compute_fees ?g (usr_referred_by seller \<noteq> None)),
                po_method = ''Mobile Money'', po_status = ''paid'',
                po_invoice_id = inv_id invoice,
                po_invoice_number = inv_invoicenumber invoice\<rparr>]"
    by blast
  have twelve: "exec release_step gw 12 ((token, MR_Find), w)
               = exec release_step gw 4 (exec release_step gw 8 ((token, MR_Find), w))"
    using exec_add[of release_step gw 8 4 "((token, MR_Find), w)"] by simp
  have four: "(4::nat) = Suc (Suc 2)" by simp
  consider (plain) r w12 where
      "exec release_step gw 12 ((token, MR_Find), w)
         = ((token, MR_Sent (Some milestone) (RO_Released r)), w12)"
      "users w12 = users w8" "referral_earnings w12 = referral_earnings w8"
      "withdraw_calls w12 = withdraw_calls w8" "payouts w12 = payouts w8"
      "usr_referred_by seller = None \<or> \<not> 0 < referralEarning (compute_fees ?g True)"
    | (credit) referrer r w12 where "usr_referred_by seller = Some referrer"
      "0 < referralEarning (compute_fees ?g True)"
      "exec release_step gw 12 ((token, MR_Find), w)
         = ((token, MR_Sent (Some milestone) (RO_Released r)), w12)"
      "users w12 = users (credit_once (?c referrer) w8)"
      "referral_earnings w12 = referral_earnings (credit_once (?c referrer) w8)"
      "withdraw_calls w12 = withdraw_calls w8" "payouts w12 = payouts w8"
  proof (cases "usr_referred_by seller = None \<or> \<not> 0 < referralEarning (compute_fees ?g True)")
    case True
    then have "exec release_step gw 12 ((token, MR_Find), w)
                 = exec release_step gw (Suc (Suc 2)) ((token, MR_CountRemaining ?l), w8)"
      unfolding twelve e8 four by (auto split: option.splits)
    with release_tail[of gw 2 token ?l w8] True show ?thesis
      by (auto intro: plain)
  next
    case False
    then obtain referrer where r: "usr_referred_by seller = Some referrer"
      "0 < referralEarning (compute_fees ?g True)" by auto
    then have "exec release_step gw 12 ((token, MR_Find), w)
                 = exec release_step gw 4 ((token, MR_InsertEarning ?l (?c referrer)), w8)"
      unfolding twelve e8 by simp
    with release_credit_tail[of gw token ?l "?c referrer" w8] r show ?thesis
      by (auto intro: credit)
  qed
  then show ?thesis
  proof cases
    case plain
    then show ?thesis
      by (auto simp: release_milestone_post_def w8 compute_fees_floor)
  next
    case (credit r remaining w12)
    have "referral_earnings (credit_once (?c r) w8) = referral_earnings w @
           [\<lparr>re_referrer_userid = r, re_referred_userid = inv_userid invoice,
             re_invoice_number = inv_invoicenumber invoice @ ''-ms'' @ show_nat (ms_id milestone),
             re_invoice_amount = ?g,
             re_earned_amount = \<lfloor>real_of_int ?g * 0.005\<rfloor>\<rparr>]
         \<and> users (credit_once (?c r) w8)
             = map (\<lambda>u. if usr_id u = r
                        then u\<lparr>usr_referral_balance :=
                                 usr_referral_balance u + \<lfloor>real_of_int ?g * 0.005\<rfloor>\<rparr>
                        else u) (users w)"
      if "\<not> list_ex (\<lambda>r. re_invoice_number r
                              = inv_invoicenumber invoice @ ''-ms'' @ show_nat (ms_id milestone))
                       (referral_earnings w)"
        "list_ex (\<lambda>u. usr_id u = r) (users w)"
        "in_int4 \<lfloor>real_of_int ?g * 0.005\<rfloor>"
        "list_all (\<lambda>u. usr_id u = r \<longrightarrow>
                      in_int4 (usr_referral_balance u + \<lfloor>real_of_int ?g * 0.005\<rfloor>)) (users w)"
    proof -
      have ins: "earning_insertable (?c r) w"
        using that(1,2) find_list_ex[OF fs]
        by (simp add: earning_insertable_def has_earning_def)
      from credit_once_effect[OF w8(1,2) ins] that(3,4) show ?thesis
        by (simp add: compute_fees_floor)
    qed
    with credit show ?thesis
      by (auto simp: release_milestone_post_def w8 compute_fees_floor)
  qed
qed

lemma credit_in_resolve:
  "exec resolve_step gw 2 (((a, d), DR_S_InsertEarning c), w)
     = (((a, d), DR_Sent released_to_seller), credit_once c w)"
proof (cases "earning_insertable c w")
  case False
  then have "referral_credit_step () (c, CR_Insert) w = ((c, CR_Done), w)"
    by (rule credit_step_idle)
  then have "resolve_step gw ((a, d), DR_S_InsertEarning c) w
               = (((a, d), DR_Sent released_to_seller), w)"
    by (auto split: sum.splits bool.splits prod.splits)
  with False show ?thesis by (simp add: numeral_2_eq_2 credit_once_idle)
next
  case True
  from insert_earning_new[OF True] obtain w1 where ie: "insert_earning c w = Inr (True, w1)"
    by blast
  show ?thesis
    by (simp add: numeral_2_eq_2 ie credit_once_won[OF ie] split: sum.splits)
qed

lemma resolve_nine:
  assumes fd: "find (\<lambda>d. dp_admin_token d = admin_token) (disputes w) = Some dispute"
    and op: "dp_status dispute = ''open''"
    and fi: "find (\<lambda>r. inv_invoicenumber r = dp_invoicenumber dispute) (invoices w) = Some invoice"
    and fs: "find (\<lambda>u. usr_id u = inv_userid invoice) (users w) = Some seller"
    and gw: "auth_ok gw" "withdraw_ok gw"
  shows "\<exists>w9. exec resolve_step gw 9 (((admin_token, Seller), DR_Find), w)
           = (((admin_token, Seller),
               case usr_referred_by seller of
                 None \<Rightarrow> DR_Sent released_to_seller
               | Some referrer \<Rightarrow>
                   if referralEarning (dispute_fees (inv_amount invoice) True) > 0
                   then DR_S_InsertEarning
                          \<lparr>cr_referrer_userid = referrer,
                           cr_referred_userid = inv_userid invoice,
                           cr_invoice_number = inv_invoicenumber invoice,
                           cr_invoice_amount = inv_amount invoice,
                           cr_earned_amount =
                             referralEarning (dispute_fees (inv_amount invoice) True)\<rparr>
                   else DR_Sent released_to_seller), w9)
         \<and> users w9 = users w \<and> referral_earnings w9 = referral_earnings w
         \<and> withdraw_calls w9 = withdraw_calls w @
              [\<lparr>tr_amount = sellerReceives (dispute_fees (inv_amount invoice)
                                              (usr_referred_by seller \<noteq> None)),
                tr_to = usr_phone seller,
                tr_external_reference = inv_invoicenumber invoice\<rparr>]
         \<and> payouts w9 = payouts w @
              [\<lparr>po_userid = inv_userid invoice,
                po_amount = sellerReceives (dispute_fees (inv_amount invoice)
                                              (usr_referred_by seller \<noteq> None)),
                po_method = ''Mobile Money'', po_status = ''paid'',
                po_invoice_id = inv_id invoice,
                po_invoice_number = inv_invoicenumber invoice\<rparr>]"
  using gw op
  by (cases "usr_referred_by seller")
     (simp_all add: exec_numeral fd fi fs Let_def dispute_credit_def)

lemma resolve_split:
  assumes fd: "find (\<lambda>d. dp_admin_token d = admin_token) (disputes w) = Some dispute"
    and op: "dp_status dispute = ''open''"
    and fi: "find (\<lambda>r. inv_invoicenumber r = dp_invoicenumber dispute) (invoices w) = Some invoice"
    and fs: "find (\<lambda>u. usr_id u = inv_userid invoice) (users w) = Some seller"
    and gw: "auth_ok gw" "withdraw_ok gw"
  shows "fst (resolve_dispute gw admin_token Seller w) = DR_Sent released_to_seller
     \<and> withdraw_calls (snd (resolve_dispute gw admin_token Seller w)) = withdraw_calls w @
          [\<lparr>tr_amount = inv_amount invoice - \<lfloor>real_of_int (inv_amount invoice) * 0.02\<rfloor>,
            tr_to = usr_phone seller,
            tr_external_reference = inv_invoicenumber invoice\<rparr>]
     \<and> payouts (snd (resolve_dispute gw admin_token Seller w)) = payouts w @
          [\<lparr>po_userid = inv_userid invoice,
            po_amount = inv_amount invoice - \<lfloor>real_of_int (inv_amount invoice) * 0.02\<rfloor>,
            po_method = ''Mobile Money'', po_status = ''paid'',
            po_invoice_id = inv_id invoice,
            po_invoice_number = inv_invoicenumber invoice\<rparr>]
     \<and> (usr_referred_by seller = None
          \<longrightarrow> referral_earnings (snd (resolve_dispute gw admin_token Seller w)) = referral_earnings w
              \<and> users (snd (resolve_dispute gw admin_token Seller w)) = users w)
     \<and> (usr_referred_by seller = Some referrer
          \<and> 0 < \<lfloor>real_of_int (inv_amount invoice) * 0.005\<rfloor>
          \<and> \<not> list_ex (\<lambda>r. re_invoice_number r = inv_invoicenumber invoice) (referral_earnings w)
          \<and> list_ex (\<lambda>u. usr_id u = referrer) (users w)
          \<and> in_int4 \<lfloor>real_of_int (inv_amount invoice) * 0.005\<rfloor>
          \<and> list_all (\<lambda>u. usr_id u = referrer \<longrightarrow>
                           in_int4 (usr_referral_balance u
                                    + \<lfloor>real_of_int (inv_amount invoice) * 0.005\<rfloor>)) (users w)
          \<longrightarrow> referral_earnings (snd (resolve_dispute gw admin_token Seller w)) = referral_earnings w @
                [\<lparr>re_referrer_userid = referrer,
                  re_referred_userid = inv_userid invoice,
                  re_invoice_number = inv_invoicenumber invoice,
                  re_invoice_amount = inv_amount invoice,
                  re_earned_amount = \<lfloor>real_of_int (inv_amount invoice) * 0.005\<rfloor>\<rparr>]
              \<and> users (snd (resolve_dispute gw admin_token Seller w))
                  = map (\<lambda>u. if usr_id u = referrer
                             then u\<lparr>usr_referral_balance :=
                                      usr_referral_balance u
                                      + \<lfloor>real_of_int (inv_amount invoice) * 0.005\<rfloor>\<rparr>
                             else u) (users w))"
proof -
  let ?g = "inv_amount invoice"
  let ?c = "\<lambda>referrer. \<lparr>cr_referrer_userid = referrer,
                         cr_referred_userid = inv_userid invoice,
                         cr_invoice_number = inv_invoicenumber invoice,
                         cr_invoice_amount = ?g,
                         cr_earned_amount = referralEarning (dispute_fees ?g True)\<rparr>"
  from resolve_nine[OF fd op fi fs gw] obtain w9 where
    e9: "exec resolve_step gw 9 (((admin_token, Seller), DR_Find), w)
           = (((admin_token, Seller),
               case usr_referred_by seller of
                 None \<Rightarrow> DR_Sent released_to_seller
               | Some referrer \<Rightarrow>
                   if referralEarning (dispute_fees ?g True) > 0
                   then DR_S_InsertEarning (?c referrer)
                   else DR_Sent released_to_seller), w9)"
    and w9: "users w9 = users w" "referral_earnings w9 = referral_earnings w"
      "withdraw_calls w9 = withdraw_calls w @
              [\<lparr>tr_amount = sellerReceives (dispute_fees ?g (usr_referred_by seller \<noteq> None)),
                tr_to = usr_phone seller,
                tr_external_reference = inv_invoicenumber invoice\<rparr>]"
      "payouts w9 = payouts w @
              [\<lparr>po_userid = inv_userid invoice,
                po_amount = sellerReceives (dispute_fees ?g (usr_referred_by seller \<noteq> None)),
                po_method = ''Mobile Money'', po_status = ''paid'',
                po_invoice_id = inv_id invoice,
                po_invoice_number = inv_invoicenumber invoice\<rparr>]"
    by blast
  have eleven: "exec resolve_step gw 11 (((admin_token, Seller), DR_Find), w)
               = exec resolve_step gw 2 (exec resolve_step gw 9 (((admin_token, Seller), DR_Find), w))"
    using exec_add[of resolve_step gw 9 2 "(((admin_token, Seller), DR_Find), w)"] by simp
  consider (plain) "exec resolve_step gw 11 (((admin_token, Seller), DR_Find), w)
                      = (((admin_token, Seller), DR_Sent released_to_seller), w9)"
      "usr_referred_by seller = None \<or> \<not> 0 < referralEarning (dispute_fees ?g True)"
    | (credit) referrer where "usr_referred_by seller = Some referrer"
      "0 < referralEarning (dispute_fees ?g True)"
      "exec resolve_step gw 11 (((admin_token, Seller), DR_Find), w)
         = (((admin_token, Seller), DR_Sent released_to_seller), credit_once (?c referrer) w9)"
  proof (cases "usr_referred_by seller = None \<or> \<not> 0 < referralEarning (dispute_fees ?g True)")
    case True
    then have "exec resolve_step gw 11 (((admin_token, Seller), DR_Find), w)
                 = (((admin_token, Seller), DR_Sent released_to_seller), w9)"
      unfolding eleven e9 by (auto simp: numeral_2_eq_2 split: option.splits)
    with True show ?thesis by (rule_tac plain) simp_all
  next
    case False
    then obtain referrer where r: "usr_referred_by seller = Some referrer"
      "0 < referralEarning (dispute_fees ?g True)" by auto
    then have "exec resolve_step gw 11 (((admin_token, Seller), DR_Find), w)
         = (((admin_token, Seller), DR_Sent released_to_seller), credit_once (?c referrer) w9)"
      unfolding eleven e9 using credit_in_resolve[of gw admin_token Seller "?c referrer" w9]
      by simp
    with r show ?thesis by (rule_tac credit) simp_all
  qed
  then show ?thesis
  proof cases
    case plain
    then show ?thesis
      by (auto simp: resolve_dispute_def w9 compute_fees_floor)
  next
    case (credit r)
    have "referral_earnings (credit_once (?c r) w9) = referral_earnings w @
           [\<lparr>re_referrer_userid = r, re_referred_userid = inv_userid invoice,
             re_invoice_number = inv_invoicenumber invoice, re_invoice_amount = ?g,
             re_earned_amount = \<lfloor>real_of_int ?g * 0.005\<rfloor>\<rparr>]
         \<and> users (credit_once (?c r) w9)
             = map (\<lambda>u. if usr_id u = r
                        then u\<lparr>usr_referral_balance :=
                                 usr_referral_balance u + \<lfloor>real_of_int ?g * 0.005\<rfloor>\<rparr>
                        else u) (users w)"
      if "\<not> list_ex (\<lambda>r. re_invoice_number r = inv_invoicenumber invoice) (referral_earnings w)"
        "list_ex (\<lambda>u. usr_id u = r) (users w)"
        "in_int4 \<lfloor>real_of_int ?g * 0.005\<rfloor>"
        "list_all (\<lambda>u. usr_id u = r \<longrightarrow>
                      in_int4 (usr_referral_balance u + \<lfloor>real_of_int ?g * 0.005\<rfloor>)) (users w)"
    proof -
      have ins: "earning_insertable (?c r) w"
        using that(1,2) find_list_ex[OF fs]
        by (simp add: earning_insertable_def has_earning_def)
      from credit_once_effect[OF w9(1,2) ins] that(3,4) show ?thesis
        by (simp add: compute_fees_floor)
    qed
    with credit show ?thesis
      by (auto simp: resolve_dispute_def credit_once_frame w9 compute_fees_floor)
  qed
qed

lemma release_five:
  assumes fm: "find (\<lambda>m. ms_release_token m = Some token) (invoice_milestones w) = Some milestone"
    and sc: "ms_status milestone = ''completed''"
    and fi: "find (\<lambda>r. inv_id r = ms_invoice_id milestone) (invoices w) = Some invoice"
    and fs: "find (\<lambda>u. usr_id u = inv_userid invoice) (users w) = Some seller"
  shows "exec release_step gw 5 ((token, MR_Find), w)
           = ((token, MR_Token \<lparr>mr_milestone = milestone, mr_invoice = invoice, mr_seller = seller,
                                 mr_referrerIdMs = usr_referred_by seller,
                                 mr_fee = compute_fees (ms_amount milestone)
                                            (usr_referred_by seller \<noteq> None)\<rparr>),
              snd (lock_milestone (ms_id milestone) w))"
proof -
  obtain rows w1 where c: "lock_milestone (ms_id milestone) w = (rows, w1)"
    by (cases "lock_milestone (ms_id milestone) w")
  from find_in_set[OF fm] sc have "completed_row (ms_id milestone) w"
    by (auto simp: completed_row_def list_ex_iff)
  with lock_milestone_rows[of "ms_id milestone" w] c have ne: "rows \<noteq> []" by simp
  from lock_milestone_other[of "ms_id milestone" w] c
  have w1: "invoices w1 = invoices w" "users w1 = users w" by simp_all
  show ?thesis
    using ne sc by (simp add: exec_numeral c w1 fm fi fs Let_def)
qed

lemma resolve_five:
  assumes fd: "find (\<lambda>d. dp_admin_token d = admin_token) (disputes w) = Some dispute"
    and op: "dp_status dispute = ''open''"
    and fi: "find (\<lambda>r. inv_invoicenumber r = dp_invoicenumber dispute) (invoices w) = Some invoice"
    and fs: "find (\<lambda>u. usr_id u = inv_userid invoice) (users w) = Some seller"
    and gw: "auth_ok gw"
  shows "exec resolve_step gw 5 (((admin_token, Seller), DR_Find), w)
           = (((admin_token, Seller),
               DR_S_Withdraw \<lparr>ds_invoice = invoice, ds_seller = seller,
                              ds_referrerIdD = usr_referred_by seller,
                              ds_fee = dispute_fees (inv_amount invoice)
                                         (usr_referred_by seller \<noteq> None)\<rparr>), w)"
  using gw op by (simp add: exec_numeral fd fi fs Let_def)

lemma fees_formula:
  "compute_fees g b
     = \<lparr>totalFee = \<lfloor>real_of_int g * 0.02\<rfloor>,
        referralEarning = (if b then \<lfloor>real_of_int g * 0.005\<rfloor> else 0),
        fonlokNet = \<lfloor>real_of_int g * 0.02\<rfloor> - (if b then \<lfloor>real_of_int g * 0.005\<rfloor> else 0),
        sellerReceives = g - \<lfloor>real_of_int g * 0.02\<rfloor>\<rparr>"
  "dispute_fees g b
     = \<lparr>totalFee = \<lfloor>real_of_int g * 0.02\<rfloor>,
        referralEarning = (if b then \<lfloor>real_of_int g * 0.005\<rfloor> else 0),
        fonlokNet = \<lfloor>real_of_int g * 0.02\<rfloor> - (if b then \<lfloor>real_of_int g * 0.005\<rfloor> else 0),
        sellerReceives = g - \<lfloor>real_of_int g * 0.02\<rfloor>\<rparr>"
  by (simp_all add: compute_fees_def dispute_fees_def TOTAL_FEE_RATE_def REFERRAL_FEE_RATE_def
        DISPUTE_TOTAL_FEE_RATE_def DISPUTE_REFERRAL_FEE_RATE_def Let_def)

text \<open>
  C2. For every gross amount each seller-payout path (payout by code, payout by link,
  milestone release, and the seller branch of dispute resolution) takes
  \<open>totalFee = floor (gross * 0.02)\<close>; with a referrer \<open>referralShare = floor (gross *
  0.005)\<close> and the platform keeps \<open>totalFee - referralShare\<close>, without one the platform
  keeps \<open>totalFee\<close> and the referral share is 0; the seller receives \<open>gross - totalFee\<close>
  either way. These are the numbers the path holds when it reaches the rail, and on a
  run that goes through they are what it moves: the transfer sent to the rail and the
  Payout row carry \<open>gross - totalFee\<close>; without a referrer no earning is recorded and no
  balance moves; with a referrer (a positive share, no earning on record yet, a balance
  that stays within its column) the earning recorded and the amount added to the
  referrer's balance are \<open>floor (gross * 0.005)\<close>. At gross 100000 the split is
  98000 / 500 / 1500 with a referrer and 98000 / 0 / 2000 without.
\<close>

theorem fee_split_seller_paths:
  "compute_fees gross hasReferral
     = \<lparr>totalFee = \<lfloor>real_of_int gross * 0.02\<rfloor>,
        referralEarning = (if hasReferral then \<lfloor>real_of_int gross * 0.005\<rfloor> else 0),
        fonlokNet = \<lfloor>real_of_int gross * 0.02\<rfloor>
                    - (if hasReferral then \<lfloor>real_of_int gross * 0.005\<rfloor> else 0),
        sellerReceives = gross - \<lfloor>real_of_int gross * 0.02\<rfloor>\<rparr>
   \<and> dispute_fees gross hasReferral = compute_fees gross hasReferral
   \<and> compute_fees 100000 True
       = \<lparr>totalFee = 2000, referralEarning = 500, fonlokNet = 1500, sellerReceives = 98000\<rparr>
   \<and> compute_fees 100000 False
       = \<lparr>totalFee = 2000, referralEarning = 0, fonlokNet = 2000, sellerReceives = 98000\<rparr>
   \<and> executePayoutLink gw i w = executePayout gw i w
   \<and> (unused_code i w
       \<and> find (\<lambda>r. inv_id r = i) (invoices w) = Some invoiceRow
       \<and> find (\<lambda>u. usr_id u = inv_userid invoiceRow) (users w) = Some invoiceUser
       \<and> auth_ok gw \<and> withdraw_ok gw
       \<longrightarrow> exec payout_step gw 4 ((i, EP_Claim), w)
             = ((i, EP_Token \<lparr>ep_invoiceRow = invoiceRow, ep_invoiceUser = invoiceUser,
                              ep_referrerId = usr_referred_by invoiceUser,
                              ep_fee = compute_fees (inv_amount invoiceRow)
                                         (usr_referred_by invoiceUser \<noteq> None)\<rparr>),
                snd (claim_code i w))
         \<and> fst (executePayout gw i w) = EP_Returned
         \<and> withdraw_calls (snd (executePayout gw i w)) = withdraw_calls w @
              [\<lparr>tr_amount = inv_amount invoiceRow - \<lfloor>real_of_int (inv_amount invoiceRow) * 0.02\<rfloor>,
                tr_to = usr_phone invoiceUser,
                tr_external_reference = inv_invoicenumber invoiceRow\<rparr>]
         \<and> payouts (snd (executePayout gw i w)) = payouts w @
              [\<lparr>po_userid = inv_userid invoiceRow,
                po_amount = inv_amount invoiceRow - \<lfloor>real_of_int (inv_amount invoiceRow) * 0.02\<rfloor>,
                po_method = ''Mobile Money'', po_status = ''paid'',
                po_invoice_id = i,
                po_invoice_number = inv_invoicenumber invoiceRow\<rparr>]
         \<and> (usr_referred_by invoiceUser = None
              \<longrightarrow> referral_earnings (snd (executePayout gw i w)) = referral_earnings w
                  \<and> users (snd (executePayout gw i w)) = users w)
         \<and> (usr_referred_by invoiceUser = Some referrerId
              \<and> 0 < \<lfloor>real_of_int (inv_amount invoiceRow) * 0.005\<rfloor>
              \<and> \<not> list_ex (\<lambda>r. re_invoice_number r = inv_invoicenumber invoiceRow)
                           (referral_earnings w)
              \<and> list_ex (\<lambda>u. usr_id u = referrerId) (users w)
              \<and> in_int4 \<lfloor>real_of_int (inv_amount invoiceRow) * 0.005\<rfloor>
              \<and> list_all (\<lambda>u. usr_id u = referrerId \<longrightarrow>
                               in_int4 (usr_referral_balance u
                                        + \<lfloor>real_of_int (inv_amount invoiceRow) * 0.005\<rfloor>))
                          (users w)
              \<longrightarrow> referral_earnings (snd (executePayout gw i w)) = referral_earnings w @
                    [\<lparr>re_referrer_userid = referrerId,
                      re_referred_userid = inv_userid invoiceRow,
                      re_invoice_number = inv_invoicenumber invoiceRow,
                      re_invoice_amount = inv_amount invoiceRow,
                      re_earned_amount = \<lfloor>real_of_int (inv_amount invoiceRow) * 0.005\<rfloor>\<rparr>]
                  \<and> users (snd (executePayout gw i w))
                      = map (\<lambda>u. if usr_id u = referrerId
                                 then u\<lparr>usr_referral_balance :=
                                          usr_referral_balance u
                                          + \<lfloor>real_of_int (inv_amount invoiceRow) * 0.005\<rfloor>\<rparr>
                                 else u) (users w)))
   \<and> (find (\<lambda>m. ms_release_token m = Some token) (invoice_milestones w) = Some milestone
       \<and> ms_status milestone = ''completed''
       \<and> find (\<lambda>r. inv_id r = ms_invoice_id milestone) (invoices w) = Some invoice
       \<and> find (\<lambda>u. usr_id u = inv_userid invoice) (users w) = Some seller
       \<and> auth_ok gw \<and> withdraw_ok gw
       \<longrightarrow> exec release_step gw 5 ((token, MR_Find), w)
             = ((token, MR_Token \<lparr>mr_milestone = milestone, mr_invoice = invoice,
                                   mr_seller = seller,
                                   mr_referrerIdMs = usr_referred_by seller,
                                   mr_fee = compute_fees (ms_amount milestone)
                                              (usr_referred_by seller \<noteq> None)\<rparr>),
                snd (lock_milestone (ms_id milestone) w))
         \<and> (\<exists>remaining. fst (release_milestone_post gw token w)
                            = MR_Sent (Some milestone) (RO_Released remaining))
         \<and> withdraw_calls (snd (release_milestone_post gw token w)) = withdraw_calls w @
              [\<lparr>tr_amount = ms_amount milestone - \<lfloor>real_of_int (ms_amount milestone) * 0.02\<rfloor>,
                tr_to = usr_phone seller,
                tr_external_reference = ''milestone-'' @ show_nat (ms_id milestone)\<rparr>]
         \<and> payouts (snd (release_milestone_post gw token w)) = payouts w @
              [\<lparr>po_userid = inv_userid invoice,
                po_amount = ms_amount milestone - \<lfloor>real_of_int (ms_amount milestone) * 0.02\<rfloor>,
                po_method = ''Mobile Money'', po_status = ''paid'',
                po_invoice_id = inv_id invoice,
                po_invoice_number = inv_invoicenumber invoice\<rparr>]
         \<and> (usr_referred_by seller = None
              \<longrightarrow> referral_earnings (snd (release_milestone_post gw token w)) = referral_earnings w
                  \<and> users (snd (release_milestone_post gw token w)) = users w)
         \<and> (usr_referred_by seller = Some referrerIdMs
              \<and> 0 < \<lfloor>real_of_int (ms_amount milestone) * 0.005\<rfloor>
              \<and> \<not> list_ex (\<lambda>r. re_invoice_number r
                                  = inv_invoicenumber invoice @ ''-ms'' @ show_nat (ms_id milestone))
                           (referral_earnings w)
              \<and> list_ex (\<lambda>u. usr_id u = referrerIdMs) (users w)
              \<and> in_int4 \<lfloor>real_of_int (ms_amount milestone) * 0.005\<rfloor>
              \<and> list_all (\<lambda>u. usr_id u = referrerIdMs \<longrightarrow>
                               in_int4 (usr_referral_balance u
                                        + \<lfloor>real_of_int (ms_amount milestone) * 0.005\<rfloor>))
                          (users w)
              \<longrightarrow> referral_earnings (snd (release_milestone_post gw token w)) = referral_earnings w @
                    [\<lparr>re_referrer_userid = referrerIdMs,
                      re_referred_userid = inv_userid invoice,
                      re_invoice_number =
                        inv_invoicenumber invoice @ ''-ms'' @ show_nat (ms_id milestone),
                      re_invoice_amount = ms_amount milestone,
                      re_earned_amount = \<lfloor>real_of_int (ms_amount milestone) * 0.005\<rfloor>\<rparr>]
                  \<and> users (snd (release_milestone_post gw token w))
                      = map (\<lambda>u. if usr_id u = referrerIdMs
                                 then u\<lparr>usr_referral_balance :=
                                          usr_referral_balance u
                                          + \<lfloor>real_of_int (ms_amount milestone) * 0.005\<rfloor>\<rparr>
                                 else u) (users w)))
   \<and> (find (\<lambda>d. dp_admin_token d = admin_token) (disputes w) = Some dispute
       \<and> dp_status dispute = ''open''
       \<and> find (\<lambda>r. inv_invoicenumber r = dp_invoicenumber dispute) (invoices w) = Some invoiceD
       \<and> find (\<lambda>u. usr_id u = inv_userid invoiceD) (users w) = Some sellerD
       \<and> auth_ok gw \<and> withdraw_ok gw
       \<longrightarrow> exec resolve_step gw 5 (((admin_token, Seller), DR_Find), w)
             = (((admin_token, Seller),
                 DR_S_Withdraw \<lparr>ds_invoice = invoiceD, ds_seller = sellerD,
                                ds_referrerIdD = usr_referred_by sellerD,
                                ds_fee = dispute_fees (inv_amount invoiceD)
                                           (usr_referred_by sellerD \<noteq> None)\<rparr>), w)
         \<and> fst (resolve_dispute gw admin_token Seller w) = DR_Sent released_to_seller
         \<and> withdraw_calls (snd (resolve_dispute gw admin_token Seller w)) = withdraw_calls w @
              [\<lparr>tr_amount = inv_amount invoiceD - \<lfloor>real_of_int (inv_amount invoiceD) * 0.02\<rfloor>,
                tr_to = usr_phone sellerD,
                tr_external_reference = inv_invoicenumber invoiceD\<rparr>]
         \<and> payouts (snd (resolve_dispute gw admin_token Seller w)) = payouts w @
              [\<lparr>po_userid = inv_userid invoiceD,
                po_amount = inv_amount invoiceD - \<lfloor>real_of_int (inv_amount invoiceD) * 0.02\<rfloor>,
                po_method = ''Mobile Money'', po_status = ''paid'',
                po_invoice_id = inv_id invoiceD,
                po_invoice_number = inv_invoicenumber invoiceD\<rparr>]
         \<and> (usr_referred_by sellerD = None
              \<longrightarrow> referral_earnings (snd (resolve_dispute gw admin_token Seller w))
                    = referral_earnings w
                  \<and> users (snd (resolve_dispute gw admin_token Seller w)) = users w)
         \<and> (usr_referred_by sellerD = Some referrerIdD
              \<and> 0 < \<lfloor>real_of_int (inv_amount invoiceD) * 0.005\<rfloor>
              \<and> \<not> list_ex (\<lambda>r. re_invoice_number r = inv_invoicenumber invoiceD)
                           (referral_earnings w)
              \<and> list_ex (\<lambda>u. usr_id u = referrerIdD) (users w)
              \<and> in_int4 \<lfloor>real_of_int (inv_amount invoiceD) * 0.005\<rfloor>
              \<and> list_all (\<lambda>u. usr_id u = referrerIdD \<longrightarrow>
                               in_int4 (usr_referral_balance u
                                        + \<lfloor>real_of_int (inv_amount invoiceD) * 0.005\<rfloor>))
                          (users w)
              \<longrightarrow> referral_earnings (snd (resolve_dispute gw admin_token Seller w))
                    = referral_earnings w @
                      [\<lparr>re_referrer_userid = referrerIdD,
                        re_referred_userid = inv_userid invoiceD,
                        re_invoice_number = inv_invoicenumber invoiceD,
                        re_invoice_amount = inv_amount invoiceD,
                        re_earned_amount = \<lfloor>real_of_int (inv_amount invoiceD) * 0.005\<rfloor>\<rparr>]
                  \<and> users (snd (resolve_dispute gw admin_token Seller w))
                      = map (\<lambda>u. if usr_id u = referrerIdD
                                 then u\<lparr>usr_referral_balance :=
                                          usr_referral_balance u
                                          + \<lfloor>real_of_int (inv_amount invoiceD) * 0.005\<rfloor>\<rparr>
                                 else u) (users w)))"
proof (intro conjI)
  show "compute_fees gross hasReferral
     = \<lparr>totalFee = \<lfloor>real_of_int gross * 0.02\<rfloor>,
        referralEarning = (if hasReferral then \<lfloor>real_of_int gross * 0.005\<rfloor> else 0),
        fonlokNet = \<lfloor>real_of_int gross * 0.02\<rfloor>
                    - (if hasReferral then \<lfloor>real_of_int gross * 0.005\<rfloor> else 0),
        sellerReceives = gross - \<lfloor>real_of_int gross * 0.02\<rfloor>\<rparr>"
    by (rule fees_formula(1))
  show "dispute_fees gross hasReferral = compute_fees gross hasReferral"
    by (simp only: fees_formula)
  show "compute_fees 100000 True
       = \<lparr>totalFee = 2000, referralEarning = 500, fonlokNet = 1500, sellerReceives = 98000\<rparr>"
    by (simp add: fees_formula)
  show "compute_fees 100000 False
       = \<lparr>totalFee = 2000, referralEarning = 0, fonlokNet = 2000, sellerReceives = 98000\<rparr>"
    by (simp add: fees_formula)
  show "executePayoutLink gw i w = executePayout gw i w"
    by (simp add: executePayoutLink_def executePayout_def)
  show "unused_code i w
       \<and> find (\<lambda>r. inv_id r = i) (invoices w) = Some invoiceRow
       \<and> find (\<lambda>u. usr_id u = inv_userid invoiceRow) (users w) = Some invoiceUser
       \<and> auth_ok gw \<and> withdraw_ok gw
       \<longrightarrow> exec payout_step gw 4 ((i, EP_Claim), w)
             = ((i, EP_Token \<lparr>ep_invoiceRow = invoiceRow, ep_invoiceUser = invoiceUser,
                              ep_referrerId = usr_referred_by invoiceUser,
                              ep_fee = compute_fees (inv_amount invoiceRow)
                                         (usr_referred_by invoiceUser \<noteq> None)\<rparr>),
                snd (claim_code i w))
         \<and> fst (executePayout gw i w) = EP_Returned
         \<and> withdraw_calls (snd (executePayout gw i w)) = withdraw_calls w @
              [\<lparr>tr_amount = inv_amount invoiceRow - \<lfloor>real_of_int (inv_amount invoiceRow) * 0.02\<rfloor>,
                tr_to = usr_phone invoiceUser,
                tr_external_reference = inv_invoicenumber invoiceRow\<rparr>]
         \<and> payouts (snd (executePayout gw i w)) = payouts w @
              [\<lparr>po_userid = inv_userid invoiceRow,
                po_amount = inv_amount invoiceRow - \<lfloor>real_of_int (inv_amount invoiceRow) * 0.02\<rfloor>,
                po_method = ''Mobile Money'', po_status = ''paid'',
                po_invoice_id = i,
                po_invoice_number = inv_invoicenumber invoiceRow\<rparr>]
         \<and> (usr_referred_by invoiceUser = None
              \<longrightarrow> referral_earnings (snd (executePayout gw i w)) = referral_earnings w
                  \<and> users (snd (executePayout gw i w)) = users w)
         \<and> (usr_referred_by invoiceUser = Some referrerId
              \<and> 0 < \<lfloor>real_of_int (inv_amount invoiceRow) * 0.005\<rfloor>
              \<and> \<not> list_ex (\<lambda>r. re_invoice_number r = inv_invoicenumber invoiceRow)
                           (referral_earnings w)
              \<and> list_ex (\<lambda>u. usr_id u = referrerId) (users w)
              \<and> in_int4 \<lfloor>real_of_int (inv_amount invoiceRow) * 0.005\<rfloor>
              \<and> list_all (\<lambda>u. usr_id u = referrerId \<longrightarrow>
                               in_int4 (usr_referral_balance u
                                        + \<lfloor>real_of_int (inv_amount invoiceRow) * 0.005\<rfloor>))
                          (users w)
              \<longrightarrow> referral_earnings (snd (executePayout gw i w)) = referral_earnings w @
                    [\<lparr>re_referrer_userid = referrerId,
                      re_referred_userid = inv_userid invoiceRow,
                      re_invoice_number = inv_invoicenumber invoiceRow,
                      re_invoice_amount = inv_amount invoiceRow,
                      re_earned_amount = \<lfloor>real_of_int (inv_amount invoiceRow) * 0.005\<rfloor>\<rparr>]
                  \<and> users (snd (executePayout gw i w))
                      = map (\<lambda>u. if usr_id u = referrerId
                                 then u\<lparr>usr_referral_balance :=
                                          usr_referral_balance u
                                          + \<lfloor>real_of_int (inv_amount invoiceRow) * 0.005\<rfloor>\<rparr>
                                 else u) (users w))"
  proof (rule impI, elim conjE, rule conjI)
    assume a: "unused_code i w" "find (\<lambda>r. inv_id r = i) (invoices w) = Some invoiceRow"
      "find (\<lambda>u. usr_id u = inv_userid invoiceRow) (users w) = Some invoiceUser"
      "auth_ok gw" "withdraw_ok gw"
    show "exec payout_step gw 4 ((i, EP_Claim), w)
             = ((i, EP_Token \<lparr>ep_invoiceRow = invoiceRow, ep_invoiceUser = invoiceUser,
                              ep_referrerId = usr_referred_by invoiceUser,
                              ep_fee = compute_fees (inv_amount invoiceRow)
                                         (usr_referred_by invoiceUser \<noteq> None)\<rparr>),
                snd (claim_code i w))"
      by (rule executePayout_eight(1)[OF a])
  qed (rule executePayout_split)
next
  show "find (\<lambda>m. ms_release_token m = Some token) (invoice_milestones w) = Some milestone
       \<and> ms_status milestone = ''completed''
       \<and> find (\<lambda>r. inv_id r = ms_invoice_id milestone) (invoices w) = Some invoice
       \<and> find (\<lambda>u. usr_id u = inv_userid invoice) (users w) = Some seller
       \<and> auth_ok gw \<and> withdraw_ok gw
       \<longrightarrow> exec release_step gw 5 ((token, MR_Find), w)
             = ((token, MR_Token \<lparr>mr_milestone = milestone, mr_invoice = invoice,
                                   mr_seller = seller,
                                   mr_referrerIdMs = usr_referred_by seller,
                                   mr_fee = compute_fees (ms_amount milestone)
                                              (usr_referred_by seller \<noteq> None)\<rparr>),
                snd (lock_milestone (ms_id milestone) w))
         \<and> (\<exists>remaining. fst (release_milestone_post gw token w)
                            = MR_Sent (Some milestone) (RO_Released remaining))
         \<and> withdraw_calls (snd (release_milestone_post gw token w)) = withdraw_calls w @
              [\<lparr>tr_amount = ms_amount milestone - \<lfloor>real_of_int (ms_amount milestone) * 0.02\<rfloor>,
                tr_to = usr_phone seller,
                tr_external_reference = ''milestone-'' @ show_nat (ms_id milestone)\<rparr>]
         \<and> payouts (snd (release_milestone_post gw token w)) = payouts w @
              [\<lparr>po_userid = inv_userid invoice,
                po_amount = ms_amount milestone - \<lfloor>real_of_int (ms_amount milestone) * 0.02\<rfloor>,
                po_method = ''Mobile Money'', po_status = ''paid'',
                po_invoice_id = inv_id invoice,
                po_invoice_number = inv_invoicenumber invoice\<rparr>]
         \<and> (usr_referred_by seller = None
              \<longrightarrow> referral_earnings (snd (release_milestone_post gw token w)) = referral_earnings w
                  \<and> users (snd (release_milestone_post gw token w)) = users w)
         \<and> (usr_referred_by seller = Some referrerIdMs
              \<and> 0 < \<lfloor>real_of_int (ms_amount milestone) * 0.005\<rfloor>
              \<and> \<not> list_ex (\<lambda>r. re_invoice_number r
                                  = inv_invoicenumber invoice @ ''-ms'' @ show_nat (ms_id milestone))
                           (referral_earnings w)
              \<and> list_ex (\<lambda>u. usr_id u = referrerIdMs) (users w)
              \<and> in_int4 \<lfloor>real_of_int (ms_amount milestone) * 0.005\<rfloor>
              \<and> list_all (\<lambda>u. usr_id u = referrerIdMs \<longrightarrow>
                               in_int4 (usr_referral_balance u
                                        + \<lfloor>real_of_int (ms_amount milestone) * 0.005\<rfloor>))
                          (users w)
              \<longrightarrow> referral_earnings (snd (release_milestone_post gw token w)) = referral_earnings w @
                    [\<lparr>re_referrer_userid = referrerIdMs,
                      re_referred_userid = inv_userid invoice,
                      re_invoice_number =
                        inv_invoicenumber invoice @ ''-ms'' @ show_nat (ms_id milestone),
                      re_invoice_amount = ms_amount milestone,
                      re_earned_amount = \<lfloor>real_of_int (ms_amount milestone) * 0.005\<rfloor>\<rparr>]
                  \<and> users (snd (release_milestone_post gw token w))
                      = map (\<lambda>u. if usr_id u = referrerIdMs
                                 then u\<lparr>usr_referral_balance :=
                                          usr_referral_balance u
                                          + \<lfloor>real_of_int (ms_amount milestone) * 0.005\<rfloor>\<rparr>
                                 else u) (users w))"
  proof (rule impI, elim conjE, rule conjI)
    assume a: "find (\<lambda>m. ms_release_token m = Some token) (invoice_milestones w) = Some milestone"
      "ms_status milestone = ''completed''"
      "find (\<lambda>r. inv_id r = ms_invoice_id milestone) (invoices w) = Some invoice"
      "find (\<lambda>u. usr_id u = inv_userid invoice) (users w) = Some seller"
    show "exec release_step gw 5 ((token, MR_Find), w)
             = ((token, MR_Token \<lparr>mr_milestone = milestone, mr_invoice = invoice,
                                   mr_seller = seller,
                                   mr_referrerIdMs = usr_referred_by seller,
                                   mr_fee = compute_fees (ms_amount milestone)
                                              (usr_referred_by seller \<noteq> None)\<rparr>),
                snd (lock_milestone (ms_id milestone) w))"
      by (rule release_five[OF a])
  qed (rule release_split)
next
  show "find (\<lambda>d. dp_admin_token d = admin_token) (disputes w) = Some dispute
       \<and> dp_status dispute = ''open''
       \<and> find (\<lambda>r. inv_invoicenumber r = dp_invoicenumber dispute) (invoices w) = Some invoiceD
       \<and> find (\<lambda>u. usr_id u = inv_userid invoiceD) (users w) = Some sellerD
       \<and> auth_ok gw \<and> withdraw_ok gw
       \<longrightarrow> exec resolve_step gw 5 (((admin_token, Seller), DR_Find), w)
             = (((admin_token, Seller),
                 DR_S_Withdraw \<lparr>ds_invoice = invoiceD, ds_seller = sellerD,
                                ds_referrerIdD = usr_referred_by sellerD,
                                ds_fee = dispute_fees (inv_amount invoiceD)
                                           (usr_referred_by sellerD \<noteq> None)\<rparr>), w)
         \<and> fst (resolve_dispute gw admin_token Seller w) = DR_Sent released_to_seller
         \<and> withdraw_calls (snd (resolve_dispute gw admin_token Seller w)) = withdraw_calls w @
              [\<lparr>tr_amount = inv_amount invoiceD - \<lfloor>real_of_int (inv_amount invoiceD) * 0.02\<rfloor>,
                tr_to = usr_phone sellerD,
                tr_external_reference = inv_invoicenumber invoiceD\<rparr>]
         \<and> payouts (snd (resolve_dispute gw admin_token Seller w)) = payouts w @
              [\<lparr>po_userid = inv_userid invoiceD,
                po_amount = inv_amount invoiceD - \<lfloor>real_of_int (inv_amount invoiceD) * 0.02\<rfloor>,
                po_method = ''Mobile Money'', po_status = ''paid'',
                po_invoice_id = inv_id invoiceD,
                po_invoice_number = inv_invoicenumber invoiceD\<rparr>]
         \<and> (usr_referred_by sellerD = None
              \<longrightarrow> referral_earnings (snd (resolve_dispute gw admin_token Seller w))
                    = referral_earnings w
                  \<and> users (snd (resolve_dispute gw admin_token Seller w)) = users w)
         \<and> (usr_referred_by sellerD = Some referrerIdD
              \<and> 0 < \<lfloor>real_of_int (inv_amount invoiceD) * 0.005\<rfloor>
              \<and> \<not> list_ex (\<lambda>r. re_invoice_number r = inv_invoicenumber invoiceD)
                           (referral_earnings w)
              \<and> list_ex (\<lambda>u. usr_id u = referrerIdD) (users w)
              \<and> in_int4 \<lfloor>real_of_int (inv_amount invoiceD) * 0.005\<rfloor>
              \<and> list_all (\<lambda>u. usr_id u = referrerIdD \<longrightarrow>
                               in_int4 (usr_referral_balance u
                                        + \<lfloor>real_of_int (inv_amount invoiceD) * 0.005\<rfloor>))
                          (users w)
              \<longrightarrow> referral_earnings (snd (resolve_dispute gw admin_token Seller w))
                    = referral_earnings w @
                      [\<lparr>re_referrer_userid = referrerIdD,
                        re_referred_userid = inv_userid invoiceD,
                        re_invoice_number = inv_invoicenumber invoiceD,
                        re_invoice_amount = inv_amount invoiceD,
                        re_earned_amount = \<lfloor>real_of_int (inv_amount invoiceD) * 0.005\<rfloor>\<rparr>]
                  \<and> users (snd (resolve_dispute gw admin_token Seller w))
                      = map (\<lambda>u. if usr_id u = referrerIdD
                                 then u\<lparr>usr_referral_balance :=
                                          usr_referral_balance u
                                          + \<lfloor>real_of_int (inv_amount invoiceD) * 0.005\<rfloor>\<rparr>
                                 else u) (users w))"
  proof (rule impI, elim conjE, rule conjI)
    assume a: "find (\<lambda>d. dp_admin_token d = admin_token) (disputes w) = Some dispute"
      "dp_status dispute = ''open''"
      "find (\<lambda>r. inv_invoicenumber r = dp_invoicenumber dispute) (invoices w) = Some invoiceD"
      "find (\<lambda>u. usr_id u = inv_userid invoiceD) (users w) = Some sellerD"
      "auth_ok gw"
    show "exec resolve_step gw 5 (((admin_token, Seller), DR_Find), w)
             = (((admin_token, Seller),
                 DR_S_Withdraw \<lparr>ds_invoice = invoiceD, ds_seller = sellerD,
                                ds_referrerIdD = usr_referred_by sellerD,
                                ds_fee = dispute_fees (inv_amount invoiceD)
                                           (usr_referred_by sellerD \<noteq> None)\<rparr>), w)"
      by (rule resolve_five[OF a])
  qed (rule resolve_split)
qed

theorem fee_split_seller_paths_witness:
  "unused_code 7 demo_world \<and> unused_code 7 plain_world
   \<and> auth_ok gw_up \<and> withdraw_ok gw_up
   \<and> map tr_amount (withdraw_calls (snd (executePayout gw_up 7 demo_world))) = [98000]
   \<and> map po_amount (payouts (snd (executePayout gw_up 7 demo_world))) = [98000]
   \<and> map re_earned_amount (referral_earnings (snd (executePayout gw_up 7 demo_world))) = [500]
   \<and> map usr_referral_balance (users (snd (executePayout gw_up 7 demo_world))) = [0, 4500]
   \<and> map tr_amount (withdraw_calls (snd (executePayout gw_up 7 plain_world))) = [98000]
   \<and> map po_amount (payouts (snd (executePayout gw_up 7 plain_world))) = [98000]
   \<and> referral_earnings (snd (executePayout gw_up 7 plain_world)) = []
   \<and> map usr_referral_balance (users (snd (executePayout gw_up 7 plain_world))) = [0, 4000]
   \<and> map tr_amount (withdraw_calls (snd (release_milestone_post gw_up ''rel1'' demo_world)))
       = [19600]
   \<and> map po_amount (payouts (snd (release_milestone_post gw_up ''rel1'' demo_world))) = [19600]
   \<and> map re_earned_amount
         (referral_earnings (snd (release_milestone_post gw_up ''rel1'' demo_world))) = [100]
   \<and> map usr_referral_balance (users (snd (release_milestone_post gw_up ''rel1'' demo_world)))
       = [0, 4100]
   \<and> map tr_amount (withdraw_calls (snd (release_milestone_post gw_up ''rel1'' plain_world)))
       = [19600]
   \<and> referral_earnings (snd (release_milestone_post gw_up ''rel1'' plain_world)) = []
   \<and> map usr_referral_balance (users (snd (release_milestone_post gw_up ''rel1'' plain_world)))
       = [0, 4000]
   \<and> map tr_amount (withdraw_calls (snd (resolve_dispute gw_up ''adm7'' Seller demo_world)))
       = [98000]
   \<and> map po_amount (payouts (snd (resolve_dispute gw_up ''adm7'' Seller demo_world))) = [98000]
   \<and> map re_earned_amount
         (referral_earnings (snd (resolve_dispute gw_up ''adm7'' Seller demo_world))) = [500]
   \<and> map usr_referral_balance (users (snd (resolve_dispute gw_up ''adm7'' Seller demo_world)))
       = [0, 4500]
   \<and> map tr_amount (withdraw_calls (snd (resolve_dispute gw_up ''adm7'' Seller plain_world)))
       = [98000]
   \<and> referral_earnings (snd (resolve_dispute gw_up ''adm7'' Seller plain_world)) = []
   \<and> map usr_referral_balance (users (snd (resolve_dispute gw_up ''adm7'' Seller plain_world)))
       = [0, 4000]"
proof -
  let ?inv7 = "\<lparr>inv_id = 7, inv_invoicenumber = ''INV-7'', inv_userid = 1,
                inv_amount = 100000, inv_status = ''paid''\<rparr>"
  let ?inv8 = "\<lparr>inv_id = 8, inv_invoicenumber = ''INV-8'', inv_userid = 1,
                inv_amount = 60000, inv_status = ''paid''\<rparr>"
  let ?u1 = "\<lparr>usr_id = 1, usr_phone = ''237670000001'', usr_referred_by = Some 2,
              usr_referral_balance = 0\<rparr>"
  let ?p1 = "\<lparr>usr_id = 1, usr_phone = ''237670000001'', usr_referred_by = None,
              usr_referral_balance = 0\<rparr>"
  let ?m1 = "\<lparr>ms_id = 1, ms_invoice_id = 8, ms_invoice_number = ''INV-8'', ms_milestone_number = 1,
              ms_label = ''Design'', ms_amount = 20000, ms_status = ''completed'',
              ms_release_token = Some ''rel1''\<rparr>"
  let ?d7 = "\<lparr>dp_invoicenumber = ''INV-7'', dp_admin_token = ''adm7'', dp_status = ''open''\<rparr>"
  note t = fee_split_seller_paths[where gw = gw_up and i = 7 and w = demo_world
      and invoiceRow = ?inv7 and invoiceUser = ?u1 and referrerId = 2
      and token = "''rel1''" and milestone = ?m1 and invoice = ?inv8 and seller = ?u1
      and referrerIdMs = 2
      and admin_token = "''adm7''" and dispute = ?d7 and invoiceD = ?inv7 and sellerD = ?u1
      and referrerIdD = 2]
  note p = fee_split_seller_paths[where gw = gw_up and i = 7 and w = plain_world
      and invoiceRow = ?inv7 and invoiceUser = ?p1
      and token = "''rel1''" and milestone = ?m1 and invoice = ?inv8 and seller = ?p1
      and admin_token = "''adm7''" and dispute = ?d7 and invoiceD = ?inv7 and sellerD = ?p1]
  note t1 = t[THEN conjunct2, THEN conjunct2, THEN conjunct2, THEN conjunct2, THEN conjunct2,
              THEN conjunct1]
  note t2 = t[THEN conjunct2, THEN conjunct2, THEN conjunct2, THEN conjunct2, THEN conjunct2,
              THEN conjunct2, THEN conjunct1]
  note t3 = t[THEN conjunct2, THEN conjunct2, THEN conjunct2, THEN conjunct2, THEN conjunct2,
              THEN conjunct2, THEN conjunct2]
  note p1 = p[THEN conjunct2, THEN conjunct2, THEN conjunct2, THEN conjunct2, THEN conjunct2,
              THEN conjunct1]
  note p2 = p[THEN conjunct2, THEN conjunct2, THEN conjunct2, THEN conjunct2, THEN conjunct2,
              THEN conjunct2, THEN conjunct1]
  note p3 = p[THEN conjunct2, THEN conjunct2, THEN conjunct2, THEN conjunct2, THEN conjunct2,
              THEN conjunct2, THEN conjunct2]
  have gw: "auth_ok gw_up" "withdraw_ok gw_up" by (simp_all add: gw_up_def)
  have u: "unused_code 7 demo_world" "unused_code 7 plain_world"
    by (simp_all add: unused_code_def plain_world_def demo_world_def)
  have d: "find (\<lambda>r. inv_id r = 7) (invoices demo_world) = Some ?inv7"
    "find (\<lambda>u. usr_id u = inv_userid ?inv7) (users demo_world) = Some ?u1"
    "find (\<lambda>m. ms_release_token m = Some ''rel1'') (invoice_milestones demo_world) = Some ?m1"
    "find (\<lambda>r. inv_id r = ms_invoice_id ?m1) (invoices demo_world) = Some ?inv8"
    "find (\<lambda>u. usr_id u = inv_userid ?inv8) (users demo_world) = Some ?u1"
    "find (\<lambda>d. dp_admin_token d = ''adm7'') (disputes demo_world) = Some ?d7"
    "find (\<lambda>r. inv_invoicenumber r = dp_invoicenumber ?d7) (invoices demo_world) = Some ?inv7"
    by (simp_all add: demo_world_def)
  have q: "find (\<lambda>r. inv_id r = 7) (invoices plain_world) = Some ?inv7"
    "find (\<lambda>u. usr_id u = inv_userid ?inv7) (users plain_world) = Some ?p1"
    "find (\<lambda>m. ms_release_token m = Some ''rel1'') (invoice_milestones plain_world) = Some ?m1"
    "find (\<lambda>r. inv_id r = ms_invoice_id ?m1) (invoices plain_world) = Some ?inv8"
    "find (\<lambda>u. usr_id u = inv_userid ?inv8) (users plain_world) = Some ?p1"
    "find (\<lambda>d. dp_admin_token d = ''adm7'') (disputes plain_world) = Some ?d7"
    "find (\<lambda>r. inv_invoicenumber r = dp_invoicenumber ?d7) (invoices plain_world) = Some ?inv7"
    by (simp_all add: plain_world_def demo_world_def)
  have s: "referral_earnings demo_world = []" "withdraw_calls demo_world = []"
    "payouts demo_world = []"
    "users demo_world = [?u1, \<lparr>usr_id = 2, usr_phone = ''237670000002'', usr_referred_by = None,
                                usr_referral_balance = 4000\<rparr>]"
    "referral_earnings plain_world = []" "withdraw_calls plain_world = []"
    "payouts plain_world = []"
    "users plain_world = [?p1, \<lparr>usr_id = 2, usr_phone = ''237670000002'', usr_referred_by = None,
                                 usr_referral_balance = 4000\<rparr>]"
    by (simp_all add: plain_world_def demo_world_def)
  from t1 u(1) d(1,2) gw
  have r1: "map tr_amount (withdraw_calls (snd (executePayout gw_up 7 demo_world))) = [98000]"
    "map po_amount (payouts (snd (executePayout gw_up 7 demo_world))) = [98000]"
    "map re_earned_amount (referral_earnings (snd (executePayout gw_up 7 demo_world))) = [500]"
    "map usr_referral_balance (users (snd (executePayout gw_up 7 demo_world))) = [0, 4500]"
    by (simp_all add: s in_int4_def)
  from p1 u(2) q(1,2) gw
  have r2: "map tr_amount (withdraw_calls (snd (executePayout gw_up 7 plain_world))) = [98000]"
    "map po_amount (payouts (snd (executePayout gw_up 7 plain_world))) = [98000]"
    "referral_earnings (snd (executePayout gw_up 7 plain_world)) = []"
    "map usr_referral_balance (users (snd (executePayout gw_up 7 plain_world))) = [0, 4000]"
    by (simp_all add: s)
  from t2 d(3,4,5) gw
  have r3: "map tr_amount (withdraw_calls (snd (release_milestone_post gw_up ''rel1'' demo_world)))
       = [19600]"
    "map po_amount (payouts (snd (release_milestone_post gw_up ''rel1'' demo_world))) = [19600]"
    "map re_earned_amount
         (referral_earnings (snd (release_milestone_post gw_up ''rel1'' demo_world))) = [100]"
    "map usr_referral_balance (users (snd (release_milestone_post gw_up ''rel1'' demo_world)))
       = [0, 4100]"
    by (simp_all add: s in_int4_def)
  from p2 q(3,4,5) gw
  have r4: "map tr_amount (withdraw_calls (snd (release_milestone_post gw_up ''rel1'' plain_world)))
       = [19600]"
    "referral_earnings (snd (release_milestone_post gw_up ''rel1'' plain_world)) = []"
    "map usr_referral_balance (users (snd (release_milestone_post gw_up ''rel1'' plain_world)))
       = [0, 4000]"
    by (simp_all add: s)
  from t3 d(6,7,2) gw
  have r5: "map tr_amount (withdraw_calls (snd (resolve_dispute gw_up ''adm7'' Seller demo_world)))
       = [98000]"
    "map po_amount (payouts (snd (resolve_dispute gw_up ''adm7'' Seller demo_world))) = [98000]"
    "map re_earned_amount
         (referral_earnings (snd (resolve_dispute gw_up ''adm7'' Seller demo_world))) = [500]"
    "map usr_referral_balance (users (snd (resolve_dispute gw_up ''adm7'' Seller demo_world)))
       = [0, 4500]"
    by (simp_all add: s in_int4_def)
  from p3 q(6,7,2) gw
  have r6: "map tr_amount (withdraw_calls (snd (resolve_dispute gw_up ''adm7'' Seller plain_world)))
       = [98000]"
    "referral_earnings (snd (resolve_dispute gw_up ''adm7'' Seller plain_world)) = []"
    "map usr_referral_balance (users (snd (resolve_dispute gw_up ''adm7'' Seller plain_world)))
       = [0, 4000]"
    by (simp_all add: s)
  from u gw r1 r2 r3 r4 r5 r6 show ?thesis by simp
qed

subsection \<open>Referral withdrawal\<close>

lemma withdraw_step_balances:
  assumes b: "balances_ok w" and a: "amount_checked p"
    and st: "withdraw_step gw p w = (p', w')"
  shows "balances_ok w' \<and> amount_checked p'"
proof -
  obtain u am m s where p: "p = ((u, am, m), s)" by (metis surj_pair)
  show ?thesis
  proof (cases s)
    case RW_Deduct
    with st p b show ?thesis
      by (auto simp: balances_ok_def amount_checked_def Let_def list_all_iff
               split: if_splits)
  next
    case RW_Recheck
    with st p b a show ?thesis
      by (auto simp: amount_checked_def split: if_splits option.splits)
  next
    case RW_InsertPending
    with st p b a show ?thesis
      by (auto simp: balances_ok_def amount_checked_def Let_def)
  next
    case (RW_Token x)
    with st p b a show ?thesis
      by (auto simp: amount_checked_def split: if_splits)
  next
    case (RW_Withdraw x)
    with st p b a show ?thesis
      by (auto simp: balances_ok_def amount_checked_def Let_def split: if_splits)
  next
    case (RW_MarkPaid x)
    with st p b a show ?thesis
      by (auto simp: balances_ok_def amount_checked_def)
  next
    case (RW_Restore x)
    with st p b a show ?thesis
      by (auto simp: balances_ok_def amount_checked_def MIN_WITHDRAWAL_AMOUNT_def list_all_iff)
  next
    case (RW_MarkFailed x)
    with st p b a show ?thesis
      by (auto simp: balances_ok_def amount_checked_def)
  next
    case (RW_Sent x)
    with st p b a show ?thesis
      by (auto simp: amount_checked_def)
  qed
qed

text \<open>
  The balance never goes negative, under any interleaving of any number of withdrawal
  requests and whatever the gateway answers.
\<close>

lemma withdraw_balance_nonneg:
  assumes "balances_ok w"
  shows "balances_ok (snd (withdraw_many sch reqs w))"
proof -
  have i0: "withdraw_inv (map (\<lambda>q. (q, RW_Deduct)) reqs) w"
    using assms by (simp add: withdraw_inv_def amount_checked_def list_all_iff)
  have "withdraw_inv (fst (run withdraw_step sch (map (\<lambda>q. (q, RW_Deduct)) reqs, w)))
                     (snd (run withdraw_step sch (map (\<lambda>q. (q, RW_Deduct)) reqs, w)))"
  proof (rule run_invariant[where I = withdraw_inv, OF i0])
    fix j e ps w p' w'
    assume i: "withdraw_inv ps w" and j: "j < length ps"
      and st: "withdraw_step e (ps ! j) w = (p', w')"
    from i j have "amount_checked (ps ! j)" by (simp add: withdraw_inv_def list_all_length)
    from withdraw_step_balances[OF _ this st] i
    have "balances_ok w'" "amount_checked p'" by (simp_all add: withdraw_inv_def)
    moreover from i have "list_all amount_checked ps" by (simp add: withdraw_inv_def)
    ultimately show "withdraw_inv (ps[j := p']) w'"
      by (auto simp: withdraw_inv_def list_all_iff dest: set_update_subset_insert[THEN subsetD])
  qed
  then show ?thesis by (simp add: withdraw_many_def withdraw_inv_def)
qed

lemma fold_max_ge: "(a :: nat) \<le> fold max xs a"
  by (induction xs arbitrary: a) (auto intro: order_trans[OF max.cobounded2])

lemma fold_max_mem: "(x :: nat) \<in> set xs \<Longrightarrow> x \<le> fold max xs a"
proof (induction xs arbitrary: a)
  case Nil
  then show ?case by simp
next
  case (Cons y ys)
  then show ?case
    by (auto intro: order_trans[OF max.cobounded1 fold_max_ge])
qed

lemma next_withdrawal_id_fresh:
  "r \<in> set (referral_withdrawals w) \<Longrightarrow> rw_id r \<noteq> next_withdrawal_id w"
  using fold_max_mem[of "rw_id r" "map rw_id (referral_withdrawals w)" 0]
  by (auto simp: next_withdrawal_id_def)

lemma map_fresh_id:
  "map (\<lambda>r. if rw_id r = next_withdrawal_id w then f r else r) (referral_withdrawals w)
     = referral_withdrawals w"
  by (rule map_idI) (simp add: next_withdrawal_id_fresh)

lemma deduct_restore:
  assumes "list_all (\<lambda>x. usr_id x = userId \<longrightarrow> amount \<le> usr_referral_balance x) us"
  shows "map ((\<lambda>u. if usr_id u = userId
                     then u\<lparr>usr_referral_balance := usr_referral_balance u + amount\<rparr> else u)
              \<circ> (\<lambda>u. if usr_id u = userId \<and> amount \<le> usr_referral_balance u \<and> \<not> False
                       then u\<lparr>usr_referral_balance := usr_referral_balance u - amount\<rparr> else u)) us
         = us"
  using assms by (intro map_idI) (auto simp: list_all_iff)

text \<open>
  A request that passes the checks and whose transfer the gateway refuses (at the token
  call or at the withdraw call) is answered 502; the balance of every user is what it was
  before the request, and the withdrawal row it inserted is marked \<open>failed\<close>.
\<close>

lemma withdraw_gateway_failure:
  assumes amt: "MIN_WITHDRAWAL_AMOUNT \<le> amount"
    and momo: "momo_valid (trim momo_number)"
    and ex: "list_ex (\<lambda>x. usr_id x = userId) (users w)"
    and bal: "list_all (\<lambda>x. usr_id x = userId \<longrightarrow> amount \<le> usr_referral_balance x) (users w)"
    and np: "\<not> has_pending userId w"
    and gw: "\<not> (auth_ok gw \<and> withdraw_ok gw)"
  shows "fst (withdraw gw userId amount momo_number w)
           = RW_Sent \<lparr>http_status = 502,
                      body = ''The payment gateway could not process your withdrawal. Your balance has been restored. Please try again later.''\<rparr>
         \<and> users (snd (withdraw gw userId amount momo_number w)) = users w
         \<and> referral_withdrawals (snd (withdraw gw userId amount momo_number w))
             = referral_withdrawals w @
               [\<lparr>rw_id = next_withdrawal_id w, rw_userid = userId, rw_amount = amount,
                 rw_momo_number = trim momo_number, rw_status = ''failed''\<rparr>]"
proof -
  from momo have m0: "momo_number \<noteq> []" by (auto simp: momo_valid_def trim_def)
  from amt have a0: "amount \<noteq> 0" "\<not> amount \<le> 0" "\<not> amount < MIN_WITHDRAWAL_AMOUNT"
    by (simp_all add: MIN_WITHDRAWAL_AMOUNT_def)
  from ex bal have ne: "filter (\<lambda>u. usr_id u = userId \<and> amount \<le> usr_referral_balance u) (users w) \<noteq> []"
    by (auto simp: list_ex_iff list_all_iff filter_empty_conv)
  define w1 where "w1 = w\<lparr>users :=
       map (\<lambda>u. if usr_id u = userId \<and> amount \<le> usr_referral_balance u \<and> \<not> False
                 then u\<lparr>usr_referral_balance := usr_referral_balance u - amount\<rparr>
                 else u) (users w)\<rparr>"
  have s1: "withdraw_step gw ((userId, amount, momo_number), RW_Deduct) w
              = (((userId, amount, momo_number), RW_InsertPending), w1)"
    using ne by (simp add: m0 a0 momo np Let_def w1_def)
  have n1: "next_withdrawal_id w1 = next_withdrawal_id w"
    by (simp add: w1_def next_withdrawal_id_def)
  have r1: "referral_withdrawals w1 = referral_withdrawals w" by (simp add: w1_def)
  have u1: "map (\<lambda>u. if usr_id u = userId
                      then u\<lparr>usr_referral_balance := usr_referral_balance u + amount\<rparr> else u)
                (users w1) = users w"
    using deduct_restore[OF bal] by (simp add: w1_def)
  have fr: "map (\<lambda>r. if rw_id r = next_withdrawal_id w then r\<lparr>rw_status := ''failed''\<rparr> else r)
              (referral_withdrawals w) = referral_withdrawals w"
    by (rule map_fresh_id)
  show ?thesis
  proof (cases "auth_ok gw")
    case False
    then show ?thesis
      unfolding withdraw_def
      by (simp add: exec_numeral s1 Let_def n1 r1 u1 fr del: withdraw_step.simps(1))
  next
    case True
    with gw have "\<not> withdraw_ok gw" by simp
    with True show ?thesis
      unfolding withdraw_def
      by (simp add: exec_numeral s1 Let_def n1 r1 u1 fr del: withdraw_step.simps(1))
  qed
qed

text \<open>
  Run one after the other, the rule holds: a request by a user who has a pending
  withdrawal is refused with 400 and changes nothing.
\<close>

lemma withdraw_while_pending:
  assumes amt: "MIN_WITHDRAWAL_AMOUNT \<le> amount"
    and momo: "momo_valid (trim momo_number)"
    and ex: "list_ex (\<lambda>x. usr_id x = userId) (users w)"
    and hp: "has_pending userId w"
  shows "withdraw gw userId amount momo_number w
           = (RW_Sent \<lparr>http_status = 400,
                       body = ''You already have a pending withdrawal. Please wait for it to be processed before requesting another.''\<rparr>, w)"
proof -
  from momo have m0: "momo_number \<noteq> []" by (auto simp: momo_valid_def trim_def)
  from amt have a0: "amount \<noteq> 0" "\<not> amount \<le> 0" "\<not> amount < MIN_WITHDRAWAL_AMOUNT"
    by (simp_all add: MIN_WITHDRAWAL_AMOUNT_def)
  have s1: "withdraw_step gw ((userId, amount, momo_number), RW_Deduct) w
              = (((userId, amount, momo_number), RW_Recheck), w)"
    by (simp add: m0 a0 momo hp Let_def)
  from ex obtain rc where f: "find (\<lambda>u. usr_id u = userId) (users w) = Some rc"
    by (cases "find (\<lambda>u. usr_id u = userId) (users w)") (auto simp: find_None_iff list_ex_iff)
  show ?thesis
    unfolding withdraw_def by (simp add: exec_numeral s1 f hp del: withdraw_step.simps(1))
qed

text \<open>
  C10 does not hold of the code in its second consequence. The conditional update tests
  \<open>NOT EXISTS (... status = 'pending')\<close>, but the pending row is written by a later
  statement, \<open>INSERT INTO referral_withdrawals\<close>. Under the schedule above both requests
  of user 2 run the update before either inserts: after four statements the user has two
  pending withdrawals, and at the end both were sent to the gateway and paid. The balance
  goes from 4000 to 0 and not below.
\<close>

theorem withdrawals_both_pending:
  "map rw_status (pending_of 2 (snd (withdraw_many (take 4 withdraw_race)
       [(2, 2000, ''237670000002''), (2, 2000, ''237670000002'')] demo_world)))
     = [''pending'', ''pending'']
   \<and> map snd (fst (withdraw_many (take 4 withdraw_race)
       [(2, 2000, ''237670000002''), (2, 2000, ''237670000002'')] demo_world))
     = [RW_Token 1, RW_Token 2]
   \<and> map http_status (map (\<lambda>p. case snd p of RW_Sent r \<Rightarrow> r)
       (fst (withdraw_many withdraw_race
          [(2, 2000, ''237670000002''), (2, 2000, ''237670000002'')] demo_world)))
     = [200, 200]
   \<and> map tr_amount (withdraw_calls (snd (withdraw_many withdraw_race
       [(2, 2000, ''237670000002''), (2, 2000, ''237670000002'')] demo_world)))
     = [2000, 2000]
   \<and> map usr_referral_balance (users (snd (withdraw_many withdraw_race
       [(2, 2000, ''237670000002''), (2, 2000, ''237670000002'')] demo_world)))
     = [0, 0]"
  by (simp add: withdraw_many_def withdraw_race_def run_step_0 run_step_1 del: run.simps(2)
        add: demo_world_def gw_up_def Let_def MIN_WITHDRAWAL_AMOUNT_def momo_valid_def trim_def
        is_space_def is_digit_def has_pending_def next_withdrawal_id_def pending_of_def
        show_nat.simps)

end
